(* ===== verification/Icap_Prelude.thy ===== *)
theory Icap_Prelude
  imports Main "HOL-Library.Word" "HOL-Library.List_Lexorder" "HOL-Library.Char_ord" "HOL-Library.AList"
begin

text \<open>
  Shared types, error values, automation collections and generic lemmas of the development.

  Go strings and byte slices are byte sequences: both are modelled by \<^typ>\<open>string\<close>
  (\<^typ>\<open>char\<close> has exactly 256 values). A Go \<open>error\<close> is a value of \<open>go_error\<close>; an operation that
  returns a value or an error is a sum with the error on the left, and an operation that may also
  panic returns an \<open>outcome\<close>.
\<close>

type_synonym bytes = string

named_theorems header_simps \<open>facts about the header operations\<close>
named_theorems io_simps \<open>facts about reading and writing byte streams\<close>
named_theorems service_simps \<open>unfolding facts for the service pipeline\<close>

section \<open>Errors\<close>

text \<open>
  The error values the modelled code creates or tests for. \<open>ErrText\<close> is an error that carries only
  its message (\<open>errors.New\<close>, \<open>fmt.Errorf\<close> and errors of parameters of the model).
\<close>

datatype go_error =
    EOF
  | UnexpectedEOF
  | ErrBufferFull
  | ErrNoProgress
  | ErrShortWrite
  | ErrLineTooLong
  | ErrMalformedChunk
  | ErrInvalidChunkLength bytes
  | BadStringError string string
  | ErrText string

abbreviation CR :: char where "CR \<equiv> CHR 0x0D"
abbreviation LF :: char where "LF \<equiv> CHR 0x0A"
abbreviation TAB :: char where "TAB \<equiv> CHR 0x09"
abbreviation SP :: char where "SP \<equiv> CHR 0x20"
abbreviation QUOTE :: char where "QUOTE \<equiv> CHR 0x27"

abbreviation crlf :: bytes where "crlf \<equiv> [CR, LF]"

text \<open>The message of an error, as \<open>err.Error()\<close> gives it.\<close>

fun err_text :: "go_error \<Rightarrow> string" where
  "err_text EOF = ''EOF''"
| "err_text UnexpectedEOF = ''unexpected EOF''"
| "err_text ErrBufferFull = ''bufio: buffer full''"
| "err_text ErrNoProgress = ''multiple Read calls return no data or error''"
| "err_text ErrShortWrite = ''short write''"
| "err_text ErrLineTooLong = ''header line too long''"
| "err_text ErrMalformedChunk = ''malformed chunked encoding''"
| "err_text (ErrInvalidChunkLength v) = ''invalid chunk length: '' @ QUOTE # v @ [QUOTE]"
| "err_text (BadStringError what s) = what @ '' '' @ CHR 0x22 # s @ [CHR 0x22]"
| "err_text (ErrText s) = s"

section \<open>Results that may panic\<close>

text \<open>
  A nil dereference or an index out of range is a run-time panic in Go. An operation whose model can
  reach one returns an \<open>outcome\<close>.
\<close>

datatype (discs_sels) 'a outcome = Done 'a | Panic string

definition bind_outcome :: "'a outcome \<Rightarrow> ('a \<Rightarrow> 'b outcome) \<Rightarrow> 'b outcome" where
  "bind_outcome m f = (case m of Done a \<Rightarrow> f a | Panic s \<Rightarrow> Panic s)"

lemma bind_outcome_simps [simp]:
  "bind_outcome (Done a) f = f a"
  "bind_outcome (Panic s) f = Panic s"
  by (simp_all add: bind_outcome_def)

lemma bind_outcome_Done_iff:
  "bind_outcome m f = Done b \<longleftrightarrow> (\<exists>a. m = Done a \<and> f a = Done b)"
  by (cases m) auto

section \<open>Generic lemmas\<close>

lemma takeWhile_neq_append [simp]:
  "x \<notin> set xs \<Longrightarrow> takeWhile (\<lambda>c. c \<noteq> x) (xs @ x # ys) = xs"
  by (induction xs) auto

lemma dropWhile_neq_append [simp]:
  "x \<notin> set xs \<Longrightarrow> dropWhile (\<lambda>c. c \<noteq> x) (xs @ x # ys) = x # ys"
  by (induction xs) auto

lemma split_first_occurrence:
  assumes "x \<in> set xs"
  obtains ys zs where "xs = ys @ x # zs" and "x \<notin> set ys"
  using split_list_first [OF assms] by blast

lemma first_occurrence_unique:
  assumes "xs @ x # us = ys @ x # vs" and "x \<notin> set xs" and "x \<notin> set ys"
  shows "xs = ys" and "us = vs"
proof -
  from assms(1) have "takeWhile (\<lambda>c. c \<noteq> x) (xs @ x # us) = takeWhile (\<lambda>c. c \<noteq> x) (ys @ x # vs)"
    by simp
  with assms(2,3) show "xs = ys" by simp
  with assms(1) show "us = vs" by simp
qed

lemma append_eq_prefix_cases:
  assumes "xs @ ys = us @ vs" and "length us \<le> length xs"
  obtains ws where "xs = us @ ws" and "vs = ws @ ys"
  using assms by (metis append_eq_append_conv_if append_take_drop_id)

end
