(* ===== verification/GoStrings.thy ===== *)
theory GoStrings
  imports Icap_Prelude
begin

text \<open>
  The functions of Go's \<open>strings\<close>, \<open>strconv\<close> and \<open>fmt\<close> packages the program uses, on byte strings.
  Case mapping and white space follow Go on ASCII text; bytes above 127 are left alone. \<open>SplitN\<close> and
  \<open>Split\<close> are modelled for the non-empty separators the code passes.
\<close>

section \<open>Prefixes, suffixes, searching\<close>

definition has_prefix :: "string \<Rightarrow> string \<Rightarrow> bool" where
  "has_prefix s p \<longleftrightarrow> length p \<le> length s \<and> take (length p) s = p"

definition has_suffix :: "string \<Rightarrow> string \<Rightarrow> bool" where
  "has_suffix s p \<longleftrightarrow> length p \<le> length s \<and> drop (length s - length p) s = p"

fun index_of :: "string \<Rightarrow> string \<Rightarrow> nat option" where
  "index_of [] p = (if p = [] then Some 0 else None)"
| "index_of (c # cs) p =
     (if has_prefix (c # cs) p then Some 0 else map_option Suc (index_of cs p))"

definition contains :: "string \<Rightarrow> string \<Rightarrow> bool" where
  "contains s p \<longleftrightarrow> index_of s p \<noteq> None"

definition trim_suffix :: "string \<Rightarrow> string \<Rightarrow> string" where
  "trim_suffix s p = (if has_suffix s p then take (length s - length p) s else s)"

definition trim_prefix :: "string \<Rightarrow> string \<Rightarrow> string" where
  "trim_prefix s p = (if has_prefix s p then drop (length p) s else s)"

text \<open>\<open>strings.Replace(s, old, new, 1)\<close> for a non-empty \<open>old\<close>.\<close>

definition replace_first :: "string \<Rightarrow> string \<Rightarrow> string \<Rightarrow> string" where
  "replace_first s old new =
     (case index_of s old of
        None \<Rightarrow> s
      | Some i \<Rightarrow> take i s @ new @ drop (i + length old) s)"

lemma has_prefix_append [simp]: "has_prefix (p @ s) p"
  by (simp add: has_prefix_def)

lemma has_prefix_iff: "has_prefix s p \<longleftrightarrow> (\<exists>r. s = p @ r)"
  by (auto simp: has_prefix_def) (metis append_take_drop_id)

lemma has_suffix_append [simp]: "has_suffix (s @ p) p"
  by (simp add: has_suffix_def)

lemma has_suffix_iff: "has_suffix s p \<longleftrightarrow> (\<exists>r. s = r @ p)"
  by (auto simp: has_suffix_def) (metis append_take_drop_id)

lemma has_prefix_Nil [simp]: "has_prefix s []"
  by (simp add: has_prefix_def)

lemma has_prefix_of_Nil [simp]: "has_prefix [] p \<longleftrightarrow> p = []"
  by (auto simp: has_prefix_def)

lemma index_of_SomeD:
  "index_of s p = Some i \<Longrightarrow> s = take i s @ p @ drop (i + length p) s \<and> i + length p \<le> length s"
proof (induction s arbitrary: i)
  case Nil
  then show ?case by (simp split: if_splits)
next
  case (Cons c cs)
  show ?case
  proof (cases "has_prefix (c # cs) p")
    case True
    with Cons.prems have "i = 0" by simp
    with True show ?thesis
      by (metis append_take_drop_id has_prefix_def plus_nat.add_0 self_append_conv2 take0)
  next
    case False
    with Cons.prems obtain j where j: "index_of cs p = Some j" "i = Suc j" by auto
    from Cons.IH [OF j(1)] j(2) show ?thesis by auto
  qed
qed

lemma index_of_None_iff: "index_of s p = None \<longleftrightarrow> (\<forall>a b. s \<noteq> a @ p @ b)"
proof (induction s)
  case Nil
  then show ?case by auto
next
  case (Cons c cs)
  show ?case
  proof
    assume "index_of (c # cs) p = None"
    then have np: "\<not> has_prefix (c # cs) p" and n: "index_of cs p = None"
      by (auto split: if_splits)
    show "\<forall>a b. c # cs \<noteq> a @ p @ b"
    proof (intro allI)
      fix a b
      show "c # cs \<noteq> a @ p @ b"
      proof (cases a)
        case Nil
        with np show ?thesis by (auto simp: has_prefix_iff)
      next
        case (Cons x xs)
        with n Cons.IH show ?thesis by auto
      qed
    qed
  next
    assume a: "\<forall>a b. c # cs \<noteq> a @ p @ b"
    then have "\<not> has_prefix (c # cs) p"
      by (metis append_Nil has_prefix_iff)
    moreover have "index_of cs p = None"
      using a Cons.IH by (metis append_Cons)
    ultimately show "index_of (c # cs) p = None" by simp
  qed
qed

lemma contains_iff: "contains s p \<longleftrightarrow> (\<exists>a b. s = a @ p @ b)"
  using index_of_None_iff [of s p] by (auto simp: contains_def)

lemma index_of_char:
  "x \<notin> set a \<Longrightarrow> index_of (a @ x # b) [x] = Some (length a)"
  by (induction a) (auto simp: has_prefix_def)

lemma index_of_char_None: "x \<notin> set a \<Longrightarrow> index_of a [x] = None"
  by (induction a) (auto simp: has_prefix_def)

section \<open>Splitting and joining\<close>

fun splitN :: "nat \<Rightarrow> string \<Rightarrow> string \<Rightarrow> string list" where
  "splitN 0 s sep = []"
| "splitN (Suc 0) s sep = [s]"
| "splitN (Suc (Suc n)) s sep =
     (case index_of s sep of
        None \<Rightarrow> [s]
      | Some i \<Rightarrow> take i s # splitN (Suc n) (drop (i + length sep) s) sep)"

text \<open>\<open>strings.Split\<close>: a non-empty separator occurs at most \<open>length s\<close> times.\<close>

definition split :: "string \<Rightarrow> string \<Rightarrow> string list" where
  "split s sep = splitN (Suc (Suc (length s))) s sep"

fun join :: "string list \<Rightarrow> string \<Rightarrow> string" where
  "join [] sep = []"
| "join [x] sep = x"
| "join (x # y # ys) sep = x @ sep @ join (y # ys) sep"

lemma splitN_nonempty [simp]: "splitN (Suc n) s sep \<noteq> []"
  by (cases n) (auto split: option.splits)

lemma split_nonempty [simp]: "split s sep \<noteq> []"
  by (simp add: split_def del: splitN.simps)

lemma join_Cons: "xs \<noteq> [] \<Longrightarrow> join (x # xs) sep = x @ sep @ join xs sep"
  by (cases xs) auto

lemma join_snoc: "xs \<noteq> [] \<Longrightarrow> join (xs @ [x]) sep = join xs sep @ sep @ x"
  by (induction xs sep rule: join.induct) (auto simp: join_Cons)

lemma join_splitN: "join (splitN (Suc n) s sep) sep = s"
proof (induction n arbitrary: s)
  case 0
  then show ?case by simp
next
  case (Suc n)
  show ?case
  proof (cases "index_of s sep")
    case None
    then show ?thesis by simp
  next
    case (Some i)
    from index_of_SomeD [OF Some] Suc.IH [of "drop (i + length sep) s"] Some
    show ?thesis by (simp add: join_Cons)
  qed
qed

lemma join_split: "join (split s sep) sep = s"
  unfolding split_def by (rule join_splitN)

lemma splitN_fuel:
  "sep \<noteq> [] \<Longrightarrow> length s < n \<Longrightarrow> length s < m \<Longrightarrow> splitN (Suc n) s sep = splitN (Suc m) s sep"
proof (induction n arbitrary: s m)
  case 0
  then show ?case by simp
next
  case (Suc n)
  from Suc.prems obtain m' where m: "m = Suc m'" by (cases m) auto
  show ?case
  proof (cases "index_of s sep")
    case None
    then show ?thesis by (simp add: m)
  next
    case (Some i)
    let ?r = "drop (i + length sep) s"
    from index_of_SomeD [OF Some] have "i + length sep \<le> length s" by simp
    with Suc.prems have "length ?r < n" "length ?r < m'"
      using m by (cases sep; simp)+
    from Suc.IH [OF Suc.prems(1) this] show ?thesis
      by (simp only: m splitN.simps Some option.case)
  qed
qed

lemma split_unfold:
  assumes "sep \<noteq> []"
  shows "split s sep = (case index_of s sep of None \<Rightarrow> [s]
           | Some i \<Rightarrow> take i s # split (drop (i + length sep) s) sep)"
proof (cases "index_of s sep")
  case None
  then show ?thesis by (simp add: split_def)
next
  case (Some i)
  let ?r = "drop (i + length sep) s"
  from index_of_SomeD [OF Some] assms have l: "length ?r < length s"
    by (cases sep) auto
  have "splitN (Suc (length s)) ?r sep = splitN (Suc (Suc (length ?r))) ?r sep"
    using l by (intro splitN_fuel [OF assms]) simp_all
  then show ?thesis using Some by (simp add: split_def del: splitN.simps(2))
qed

lemma split_char_append:
  "x \<notin> set a \<Longrightarrow> split (a @ x # b) [x] = a # split b [x]"
  by (subst split_unfold) (simp_all add: index_of_char)

lemma split_char_single: "x \<notin> set a \<Longrightarrow> split a [x] = [a]"
  by (subst split_unfold) (simp_all add: index_of_char_None)

text \<open>The part behind the last occurrence of a character is determined.\<close>

lemma split_no_sep: "s \<in> set (split p [c]) \<Longrightarrow> c \<notin> set s"
proof (induction p rule: length_induct)
  case less: (1 p)
  show ?case
  proof (cases "c \<in> set p")
    case True
    then obtain a b where ab: "p = a @ c # b" "c \<notin> set a" by (rule split_first_occurrence)
    with less.prems consider "s = a" | "s \<in> set (split b [c])" by (auto simp: split_char_append)
    then show ?thesis
    proof cases
      case 2
      moreover have "length b < length p" using ab by simp
      ultimately show ?thesis using less.IH by blast
    qed (use ab in simp)
  next
    case False
    with less.prems show ?thesis by (auto simp: split_char_single)
  qed
qed

lemma split_join:
  assumes "ss \<noteq> []" and "\<forall>s \<in> set ss. c \<notin> set s"
  shows "split (join ss [c]) [c] = ss"
  using assms
proof (induction ss "[c]" rule: join.induct)
  case (3 x y ys)
  then show ?case by (simp add: split_char_append)
qed (auto simp: split_char_single)

lemma split_at_last:
  assumes "x \<notin> set h" and "x \<notin> set d" and "a @ x # h = b @ x # d"
  shows "a = b \<and> h = d"
proof -
  have "rev h @ x # rev a = rev d @ x # rev b"
    using arg_cong [OF assms(3), of rev] by simp
  then have "takeWhile (\<lambda>c. c \<noteq> x) (rev h @ x # rev a) = takeWhile (\<lambda>c. c \<noteq> x) (rev d @ x # rev b)" by simp
  moreover have "takeWhile (\<lambda>c. c \<noteq> x) (rev h @ x # rev a) = rev h"
    "takeWhile (\<lambda>c. c \<noteq> x) (rev d @ x # rev b) = rev d"
    using assms(1,2) by (subst takeWhile_append2; auto)+
  ultimately have "h = d" by simp
  with assms(3) show ?thesis by simp
qed

section \<open>Case mapping and trimming\<close>

definition is_upper :: "char \<Rightarrow> bool" where
  "is_upper c \<longleftrightarrow> 65 \<le> (of_char c :: nat) \<and> (of_char c :: nat) \<le> 90"

definition is_lower :: "char \<Rightarrow> bool" where
  "is_lower c \<longleftrightarrow> 97 \<le> (of_char c :: nat) \<and> (of_char c :: nat) \<le> 122"

definition is_digit :: "char \<Rightarrow> bool" where
  "is_digit c \<longleftrightarrow> 48 \<le> (of_char c :: nat) \<and> (of_char c :: nat) \<le> 57"

definition lower_char :: "char \<Rightarrow> char" where
  "lower_char c = (if is_upper c then char_of ((of_char c :: nat) + 32) else c)"

definition upper_char :: "char \<Rightarrow> char" where
  "upper_char c = (if is_lower c then char_of ((of_char c :: nat) - 32) else c)"

definition to_lower :: "string \<Rightarrow> string" where
  "to_lower s = map lower_char s"

definition to_upper :: "string \<Rightarrow> string" where
  "to_upper s = map upper_char s"

lemma length_to_lower [simp]: "length (to_lower s) = length s"
  by (simp add: to_lower_def)

lemma lower_char_idem [simp]: "lower_char (lower_char c) = lower_char c"
  by (auto simp: lower_char_def is_upper_def of_char_of)

lemma to_lower_idem [simp]: "to_lower (to_lower s) = to_lower s"
  by (simp add: to_lower_def)

lemma upper_char_idem [simp]: "upper_char (upper_char c) = upper_char c"
  by (auto simp: upper_char_def is_lower_def of_char_of)

lemma to_upper_idem [simp]: "to_upper (to_upper s) = to_upper s"
  by (simp add: to_upper_def)

text \<open>ASCII white space of \<open>unicode.IsSpace\<close>: tab, line feed, vertical tab, form feed, CR, blank.\<close>

definition is_space :: "char \<Rightarrow> bool" where
  "is_space c \<longleftrightarrow> c \<in> {CHR 0x09, CHR 0x0A, CHR 0x0B, CHR 0x0C, CHR 0x0D, CHR 0x20}"

definition trim_left_func :: "(char \<Rightarrow> bool) \<Rightarrow> string \<Rightarrow> string" where
  "trim_left_func p s = dropWhile p s"

definition trim_right_func :: "(char \<Rightarrow> bool) \<Rightarrow> string \<Rightarrow> string" where
  "trim_right_func p s = rev (dropWhile p (rev s))"

definition trim_space :: "string \<Rightarrow> string" where
  "trim_space s = trim_right_func is_space (trim_left_func is_space s)"

definition trim_chars :: "string \<Rightarrow> char \<Rightarrow> string" where
  "trim_chars s c = trim_right_func (\<lambda>x. x = c) (trim_left_func (\<lambda>x. x = c) s)"

lemma trim_right_func_id: "s = [] \<or> \<not> p (last s) \<Longrightarrow> trim_right_func p s = s"
  by (cases s rule: rev_cases) (auto simp: trim_right_func_def)

lemma trim_left_func_id: "s = [] \<or> \<not> p (hd s) \<Longrightarrow> trim_left_func p s = s"
  by (cases s) (auto simp: trim_left_func_def)

lemma trim_right_func_append:
  "\<forall>c \<in> set t. p c \<Longrightarrow> trim_right_func p (s @ t) = trim_right_func p s"
  by (induction t rule: rev_induct) (auto simp: trim_right_func_def)

lemma trim_right_func_last:
  "trim_right_func p s = [] \<or> \<not> p (last (trim_right_func p s))"
proof (cases "dropWhile p (rev s)")
  case Nil
  then show ?thesis by (simp add: trim_right_func_def)
next
  case (Cons c cs)
  then have "\<not> p c" by (metis hd_dropWhile list.distinct(1) list.sel(1))
  with Cons show ?thesis by (simp add: trim_right_func_def)
qed

lemma trim_right_func_hd:
  "trim_right_func p s \<noteq> [] \<Longrightarrow> hd (trim_right_func p s) = hd s"
proof -
  assume ne: "trim_right_func p s \<noteq> []"
  have "s = trim_right_func p s @ rev (takeWhile p (rev s))"
    unfolding trim_right_func_def
    by (metis rev_append rev_rev_ident takeWhile_dropWhile_id)
  with ne show ?thesis by (metis hd_append2)
qed

lemma trim_space_idem [simp]: "trim_space (trim_space s) = trim_space s"
proof -
  let ?t = "trim_space s"
  have l: "?t = [] \<or> \<not> is_space (last ?t)"
    unfolding trim_space_def by (rule trim_right_func_last)
  have "?t = [] \<or> \<not> is_space (hd ?t)"
    unfolding trim_space_def
    by (metis hd_dropWhile trim_left_func_def trim_right_func_def rev.simps(1) dropWhile.simps(1)
        trim_right_func_hd)
  then have "trim_left_func is_space ?t = ?t" by (rule trim_left_func_id)
  with trim_right_func_id [of "trim_space s" is_space, OF l] show ?thesis
    by (simp only: trim_space_def)
qed

section \<open>Numbers as text\<close>

fun digits_rev :: "nat \<Rightarrow> nat \<Rightarrow> nat list" where
  "digits_rev b n = (if b < 2 \<or> n < b then [n] else (n mod b) # digits_rev b (n div b))"

declare digits_rev.simps [simp del]

definition digit_char :: "nat \<Rightarrow> char" where
  "digit_char d = (''0123456789abcdef'' ! d)"

text \<open>\<open>strconv.Itoa\<close> (\<open>%d\<close>) and \<open>%x\<close> for a non-negative argument.\<close>

definition itoa :: "nat \<Rightarrow> string" where
  "itoa n = map digit_char (rev (digits_rev 10 n))"

definition hex :: "nat \<Rightarrow> string" where
  "hex n = map digit_char (rev (digits_rev 16 n))"

definition itoa_int :: "int \<Rightarrow> string" where
  "itoa_int i = (if i < 0 then CHR ''-'' # itoa (nat (- i)) else itoa (nat i))"

text \<open>
  \<open>strconv.Atoi\<close>: the value and the error. A syntax error gives 0, a value out of the range of
  \<open>int64\<close> gives the nearest bound.
\<close>

fun digits_value :: "nat \<Rightarrow> string \<Rightarrow> nat option" where
  "digits_value acc [] = Some acc"
| "digits_value acc (c # cs) =
     (if is_digit c then digits_value (10 * acc + ((of_char c :: nat) - 48)) cs else None)"

definition atoi :: "string \<Rightarrow> int \<times> go_error option" where
  "atoi s =
     (let neg = has_prefix s ''-'';
          ds = (if neg \<or> has_prefix s ''+'' then drop 1 s else s)
      in if ds = [] then (0, Some (ErrText ''invalid syntax''))
         else case digits_value 0 ds of
                None \<Rightarrow> (0, Some (ErrText ''invalid syntax''))
              | Some n \<Rightarrow>
                  (if neg
                   then (if n \<le> 2 ^ 63 then (- int n, None)
                         else (- (2 ^ 63), Some (ErrText ''value out of range'')))
                   else (if n < 2 ^ 63 then (int n, None)
                         else (2 ^ 63 - 1, Some (ErrText ''value out of range'')))))"

lemma digits_rev_less: "2 \<le> b \<Longrightarrow> d \<in> set (digits_rev b n) \<Longrightarrow> d < b"
proof (induction b n rule: digits_rev.induct)
  case (1 b n)
  then show ?case by (subst (asm) (2) digits_rev.simps) (auto split: if_splits)
qed

lemma digits_rev_nonempty [simp]: "digits_rev b n \<noteq> []"
  by (subst digits_rev.simps) simp

lemma digits_rev_value:
  "2 \<le> b \<Longrightarrow> foldr (\<lambda>d acc. b * acc + d) (digits_rev b n) 0 = n"
proof (induction b n rule: digits_rev.induct)
  case (1 b n)
  show ?case
  proof (cases "b < 2 \<or> n < b")
    case True
    then show ?thesis using "1.prems" by (subst digits_rev.simps) simp
  next
    case False
    with "1.IH" "1.prems" show ?thesis
      by (subst digits_rev.simps) (simp add: mult.commute)
  qed
qed

lemma digit_char_cases:
  assumes "d < 16"
  shows "digit_char d = (if d < 10 then char_of (48 + d) else char_of (87 + d))"
proof -
  from assms have "d = 0 \<or> d = 1 \<or> d = 2 \<or> d = 3 \<or> d = 4 \<or> d = 5 \<or> d = 6 \<or> d = 7 \<or> d = 8
    \<or> d = 9 \<or> d = 10 \<or> d = 11 \<or> d = 12 \<or> d = 13 \<or> d = 14 \<or> d = 15" by arith
  then show ?thesis by (elim disjE) (simp_all add: digit_char_def char_of_def bit_0)
qed

lemma of_char_digit_char:
  "d < 16 \<Longrightarrow> (of_char (digit_char d) :: nat) = (if d < 10 then 48 + d else 87 + d)"
  by (simp add: digit_char_cases of_char_of)

lemma digits_rev_length:
  "2 \<le> b \<Longrightarrow> 0 < k \<Longrightarrow> n < b ^ k \<Longrightarrow> length (digits_rev b n) \<le> k"
proof (induction k arbitrary: n)
  case 0
  then show ?case by simp
next
  case (Suc k)
  show ?case
  proof (cases "n < b")
    case True
    then show ?thesis by (subst digits_rev.simps) simp
  next
    case False
    with Suc.prems have "0 < k" by (cases k) auto
    moreover have "n div b < b ^ k"
      using Suc.prems by (metis less_mult_imp_div_less mult.commute power_Suc)
    ultimately have "length (digits_rev b (n div b)) \<le> k"
      using Suc.IH Suc.prems(1) by blast
    with False Suc.prems(1) show ?thesis by (subst digits_rev.simps) simp
  qed
qed

lemma itoa_nonempty [simp]: "itoa n \<noteq> []"
  by (simp add: itoa_def)

lemma hex_nonempty [simp]: "hex n \<noteq> []"
  by (simp add: hex_def)

lemma itoa_digits:
  assumes "c \<in> set (itoa n)"
  shows "is_digit c"
proof -
  from assms obtain d where c: "c = digit_char d" and "d \<in> set (digits_rev 10 n)"
    by (auto simp: itoa_def)
  then have "d < 10" using digits_rev_less [of 10 d n] by simp
  then show ?thesis by (simp add: c is_digit_def of_char_digit_char)
qed

lemma digits_value_map:
  assumes "\<forall>d \<in> set ds. d < 10"
  shows "digits_value a (map digit_char ds) = Some (foldl (\<lambda>a d. 10 * a + d) a ds)"
  using assms by (induction ds arbitrary: a) (simp_all add: is_digit_def of_char_digit_char)

lemma itoa_value: "digits_value 0 (itoa n) = Some n"
proof -
  have "\<forall>d \<in> set (rev (digits_rev 10 n)). d < 10" using digits_rev_less [of 10 _ n] by auto
  then show ?thesis
    using digits_rev_value [of 10 n] by (simp add: itoa_def digits_value_map foldl_conv_foldr)
qed

lemma itoa_inject: "itoa m = itoa n \<longleftrightarrow> m = n"
  by (metis itoa_value option.inject)

text \<open>\<open>Atoi\<close> inverts \<open>Itoa\<close> on the range of \<open>int\<close>.\<close>

lemma atoi_itoa:
  assumes "n < 2 ^ 63"
  shows "atoi (itoa n) = (int n, None)"
proof -
  obtain c cs where c: "itoa n = c # cs" by (cases "itoa n") auto
  then have "is_digit c" using itoa_digits [of c n] by simp
  then have "c \<noteq> CHR ''-''" "c \<noteq> CHR ''+''" by (auto simp: is_digit_def)
  then have "\<not> has_prefix (itoa n) ''-''" "\<not> has_prefix (itoa n) ''+''" using c by (simp_all add: has_prefix_def)
  with itoa_value [of n] assms show ?thesis by (simp add: atoi_def)
qed

end
