(* ===== verification/Bufio.thy ===== *)
theory Bufio
  imports GoStrings
begin

text \<open>
  Byte streams. A connection delivers its input in segments (what one \<open>Read\<close> of the socket can get);
  a \<open>bufio.Reader\<close> with a 4096 byte buffer sits on top of it, and a second one on top of that where
  the code wraps a \<open>*bufio.ReadWriter\<close> again. How the bytes are cut into segments decides which layer
  holds them, so both layers are modelled and the contract \<open>reader\<close> says what a client may rely on
  whatever the segments are.
\<close>

section \<open>The read operation and its contract\<close>

text \<open>
  \<open>Read(p)\<close> with \<open>n = len(p)\<close>: the bytes copied to \<open>p\<close>, the error, the new state.
\<close>

type_synonym 's read_op = "nat \<Rightarrow> 's \<Rightarrow> bytes \<times> go_error option \<times> 's"

text \<open>
  \<open>rep s v e\<close>: the reader in state \<open>s\<close> will deliver exactly the bytes \<open>v\<close>; a \<open>source\<close> promises nothing
  for the time after them, a \<open>reader\<close> the error \<open>e\<close>.
\<close>

locale source =
  fixes rd :: "nat \<Rightarrow> 's \<Rightarrow> bytes \<times> go_error option \<times> 's"
    and rep :: "'s \<Rightarrow> bytes \<Rightarrow> go_error \<Rightarrow> bool"
  assumes read_some: "rep s v e \<Longrightarrow> 0 < n \<Longrightarrow> v \<noteq> [] \<Longrightarrow>
      \<exists>ch s' v'. rd n s = (ch, None, s') \<and> ch \<noteq> [] \<and> length ch \<le> n \<and> v = ch @ v' \<and> rep s' v' e"

locale reader = source +
  assumes read_end: "rep s [] e \<Longrightarrow> 0 < n \<Longrightarrow> \<exists>s'. rd n s = ([], Some e, s') \<and> rep s' [] e"

section \<open>Connections\<close>

record net =
  segs :: "bytes list"
  net_err :: go_error

definition net_read :: "net read_op" where
  "net_read n c =
     (case dropWhile (\<lambda>s. s = []) (segs c) of
        [] \<Rightarrow> ([], Some (net_err c), c\<lparr>segs := []\<rparr>)
      | s # ss \<Rightarrow>
          (take n s, None, c\<lparr>segs := (if length s \<le> n then ss else drop n s # ss)\<rparr>))"

definition net_rep :: "net \<Rightarrow> bytes \<Rightarrow> go_error \<Rightarrow> bool" where
  "net_rep c v e \<longleftrightarrow> v = concat (segs c) \<and> e = net_err c"

lemma concat_dropWhile_Nil: "concat (dropWhile (\<lambda>s. s = []) ss) = concat ss"
  by (induction ss) auto

interpretation conn: reader net_read net_rep
proof unfold_locales
  fix c v e and n :: nat
  assume r: "net_rep c v e" and n: "0 < n" and v: "v \<noteq> []"
  let ?d = "dropWhile (\<lambda>s. s = []) (segs c)"
  from r have cv: "concat ?d = v" and e: "e = net_err c"
    by (simp_all add: net_rep_def concat_dropWhile_Nil)
  with v obtain s ss where d: "?d = s # ss" by (cases ?d) auto
  then have s: "s \<noteq> []"
    using hd_dropWhile [of "\<lambda>s. s = []" "segs c"] by simp
  let ?ss = "if length s \<le> n then ss else drop n s # ss"
  have "net_read n c = (take n s, None, c\<lparr>segs := ?ss\<rparr>)"
    by (simp add: net_read_def d)
  moreover have "v = take n s @ concat ?ss"
    using cv d by auto
  moreover have "net_rep (c\<lparr>segs := ?ss\<rparr>) (concat ?ss) e"
    by (simp add: net_rep_def e)
  ultimately show "\<exists>ch c' v'. net_read n c = (ch, None, c') \<and> ch \<noteq> [] \<and> length ch \<le> n \<and>
      v = ch @ v' \<and> net_rep c' v' e"
    using s n by (intro exI [of _ "take n s"] exI [of _ "c\<lparr>segs := ?ss\<rparr>"] exI [of _ "concat ?ss"])
      simp
next
  fix c e and n :: nat
  assume r: "net_rep c [] e" and "0 < n"
  from r have "concat (dropWhile (\<lambda>s. s = []) (segs c)) = []"
    by (simp add: net_rep_def concat_dropWhile_Nil)
  then have "dropWhile (\<lambda>s. s = []) (segs c) = []"
    using hd_dropWhile [of "\<lambda>s. s = []" "segs c"]
    by (cases "dropWhile (\<lambda>s. s = []) (segs c)") auto
  then have "net_read n c = ([], Some (net_err c), c\<lparr>segs := []\<rparr>)"
    by (simp only: net_read_def list.case)
  with r show "\<exists>c'. net_read n c = ([], Some e, c') \<and> net_rep c' [] e"
    by (simp add: net_rep_def)
qed

section \<open>bufio.Reader\<close>

definition buf_size :: nat where
  "buf_size = 4096"

record 's breader =
  rbuf :: bytes
  under :: 's

text \<open>
  \<open>bufio.Reader.Read\<close>: buffered bytes first; with an empty buffer a request of at least the buffer's
  size goes straight to the underlying reader, a smaller one fills the buffer with one read. The
  readers underneath report an error only without data, so no error stays pending in the buffer.
\<close>

definition bufio_read :: "'s read_op \<Rightarrow> 's breader read_op" where
  "bufio_read rd n b =
     (if n = 0 then ([], None, b)
      else if rbuf b \<noteq> [] then (take n (rbuf b), None, b\<lparr>rbuf := drop n (rbuf b)\<rparr>)
      else if buf_size \<le> n
      then (case rd n (under b) of (ch, e, u) \<Rightarrow> (ch, e, b\<lparr>under := u\<rparr>))
      else (case rd buf_size (under b) of (ch, e, u) \<Rightarrow>
              if ch = [] then ([], e, b\<lparr>under := u\<rparr>)
              else (take n ch, None, \<lparr>rbuf = drop n ch, under = u\<rparr>)))"

text \<open>\<open>ReadSlice(delim)\<close>: scan the buffer, fill it once more while the delimiter is not there.\<close>

function read_slice :: "'s read_op \<Rightarrow> char \<Rightarrow> 's breader \<Rightarrow> bytes \<times> go_error option \<times> 's breader" where
  "read_slice rd d b =
     (if d \<in> set (rbuf b)
      then (let l = takeWhile (\<lambda>c. c \<noteq> d) (rbuf b) @ [d]
            in (l, None, b\<lparr>rbuf := drop (length l) (rbuf b)\<rparr>))
      else if buf_size \<le> length (rbuf b)
      then (rbuf b, Some ErrBufferFull, b\<lparr>rbuf := []\<rparr>)
      else (case rd (buf_size - length (rbuf b)) (under b) of (ch, e, u) \<Rightarrow>
              if ch = []
              then (rbuf b, Some (case e of Some x \<Rightarrow> x | None \<Rightarrow> ErrNoProgress),
                    \<lparr>rbuf = [], under = u\<rparr>)
              else read_slice rd d \<lparr>rbuf = rbuf b @ ch, under = u\<rparr>))"
  by pat_completeness auto
termination
  by (relation "measure (\<lambda>(rd, d, b). buf_size - length (rbuf b))") (auto simp: length_greater_0_conv [symmetric] simp del: length_greater_0_conv)

declare read_slice.simps [simp del]

text \<open>\<open>io.ReadFull\<close> on a buffered reader: \<open>acc\<close> is the part of the buffer already filled.\<close>

function read_full :: "'s read_op \<Rightarrow> nat \<Rightarrow> bytes \<Rightarrow> 's breader \<Rightarrow> bytes \<times> go_error option \<times> 's breader" where
  "read_full rd n acc b =
     (if n = 0 then (acc, None, b)
      else (case bufio_read rd n b of (ch, e, b') \<Rightarrow>
              if ch = []
              then (acc, Some (case e of None \<Rightarrow> ErrNoProgress
                               | Some x \<Rightarrow> if x = EOF \<and> acc \<noteq> [] then UnexpectedEOF else x), b')
              else if n \<le> length ch then (acc @ ch, None, b')
              else (case e of None \<Rightarrow> read_full rd (n - length ch) (acc @ ch) b'
                    | Some x \<Rightarrow> (acc @ ch, Some (if x = EOF then UnexpectedEOF else x), b'))))"
  by pat_completeness auto
termination
  by (relation "measure (\<lambda>(rd, n, acc, b). n)") auto

declare read_full.simps [simp del]

text \<open>
  \<open>io.ReadAll\<close>: read into the free part of a growing slice until an error; \<open>EOF\<close> is no error for the
  caller. \<open>room l\<close> is the free capacity when \<open>l\<close> bytes are there; the slice is grown when it is full,
  so it is never 0. \<open>None\<close> is running out of fuel.
\<close>

fun read_all :: "'s read_op \<Rightarrow> (nat \<Rightarrow> nat) \<Rightarrow> nat \<Rightarrow> bytes \<Rightarrow> 's \<Rightarrow>
    (bytes \<times> go_error option \<times> 's) option" where
  "read_all rd room 0 acc s = None"
| "read_all rd room (Suc fuel) acc s =
     (case rd (room (length acc)) s of (ch, e, s') \<Rightarrow>
        (case e of
           None \<Rightarrow> read_all rd room fuel (acc @ ch) s'
         | Some x \<Rightarrow> Some (acc @ ch, if x = EOF then None else Some x, s')))"

text \<open>\<open>io.ReadAll\<close> stops at a read that reports an error.\<close>

lemma read_all_last:
  "read_all rd room fuel acc s = Some (v, e, s') \<Longrightarrow>
     \<exists>n s0 ch x. rd n s0 = (ch, Some x, s') \<and> e = (if x = EOF then None else Some x)"
proof (induction fuel arbitrary: acc s)
  case 0
  then show ?case by simp
next
  case (Suc fuel)
  obtain ch e0 s1 where r: "rd (room (length acc)) s = (ch, e0, s1)" by (cases "rd (room (length acc)) s")
  show ?case
  proof (cases e0)
    case None
    with Suc r show ?thesis by auto
  next
    case (Some x)
    with Suc.prems r show ?thesis by (auto split: if_splits)
  qed
qed

section \<open>What the layers promise\<close>

context source
begin

definition brep :: "'s breader \<Rightarrow> bytes \<Rightarrow> go_error \<Rightarrow> bool" where
  "brep b v e \<longleftrightarrow> length (rbuf b) \<le> buf_size \<and> (\<exists>w. v = rbuf b @ w \<and> rep (under b) w e)"

lemma brepI: "rep u w e \<Longrightarrow> length l \<le> buf_size \<Longrightarrow> brep \<lparr>rbuf = l, under = u\<rparr> (l @ w) e"
  by (auto simp: brep_def)

text \<open>A buffered source is again a source: buffering is invisible.\<close>

lemma buffered_source: "source (bufio_read rd) brep"
proof
  fix b v e and n :: nat
  assume r: "brep b v e" and n: "0 < n" and v: "v \<noteq> []"
  then obtain w where w: "v = rbuf b @ w" "rep (under b) w e" and l: "length (rbuf b) \<le> buf_size"
    by (auto simp: brep_def)
  show "\<exists>ch b' v'. bufio_read rd n b = (ch, None, b') \<and> ch \<noteq> [] \<and> length ch \<le> n \<and>
      v = ch @ v' \<and> brep b' v' e"
  proof (cases "rbuf b = []")
    case False
    have "brep (b\<lparr>rbuf := drop n (rbuf b)\<rparr>) (drop n (rbuf b) @ w) e"
      using w(2) l by (auto simp: brep_def)
    with False n w(1) show ?thesis
      by (intro exI [of _ "take n (rbuf b)"] exI [of _ "b\<lparr>rbuf := drop n (rbuf b)\<rparr>"]
          exI [of _ "drop n (rbuf b) @ w"]) (simp add: bufio_read_def)
  next
    case empty: True
    show ?thesis
    proof (cases "buf_size \<le> n")
      case True
      from read_some [OF w(2) n] v w(1) empty obtain ch u v'
        where *: "rd n (under b) = (ch, None, u)" "ch \<noteq> []" "length ch \<le> n" "w = ch @ v'" "rep u v' e"
        by auto
      have "brep (b\<lparr>under := u\<rparr>) v' e"
        using *(5) empty by (simp add: brep_def)
      with * True n empty w(1) show ?thesis
        by (intro exI [of _ ch] exI [of _ "b\<lparr>under := u\<rparr>"] exI [of _ v']) (simp add: bufio_read_def)
    next
      case False
      have "0 < buf_size" by (simp add: buf_size_def)
      from read_some [OF w(2) this] v w(1) empty obtain ch u v'
        where *: "rd buf_size (under b) = (ch, None, u)" "ch \<noteq> []" "length ch \<le> buf_size" "w = ch @ v'"
          "rep u v' e"
        by auto
      have "brep \<lparr>rbuf = drop n ch, under = u\<rparr> (drop n ch @ v') e"
        using *(3,5) by (intro brepI) simp_all
      with * False n empty w(1) show ?thesis
        by (intro exI [of _ "take n ch"] exI [of _ "\<lparr>rbuf = drop n ch, under = u\<rparr>"]
            exI [of _ "drop n ch @ v'"]) (simp add: bufio_read_def)
    qed
  qed
qed

text \<open>A line that ends within the first 4096 bytes is found whatever the segments are.\<close>

lemma read_slice_line:
  assumes "brep b (l @ d # v) e" and "d \<notin> set l" and "length l < buf_size"
  shows "\<exists>b'. read_slice rd d b = (l @ [d], None, b') \<and> brep b' v e"
  using assms(1)
proof (induction "buf_size - length (rbuf b)" arbitrary: b rule: less_induct)
  case less
  from less.prems obtain w where w: "l @ d # v = rbuf b @ w" "rep (under b) w e"
    and lb: "length (rbuf b) \<le> buf_size"
    by (auto simp: brep_def)
  show ?case
  proof (cases "d \<in> set (rbuf b)")
    case True
    then obtain ys zs where yz: "rbuf b = ys @ d # zs" "d \<notin> set ys"
      by (rule split_first_occurrence)
    from w(1) yz(1) have "l @ d # v = ys @ d # (zs @ w)" by simp
    from first_occurrence_unique [OF this assms(2) yz(2)]
    have "ys = l" and v: "v = zs @ w" by simp_all
    moreover have "brep (b\<lparr>rbuf := zs\<rparr>) v e"
      using v w(2) yz(1) lb by (auto simp: brep_def)
    ultimately show ?thesis
      using yz True by (subst read_slice.simps) (auto simp: Let_def)
  next
    case False
    have "length (rbuf b) \<le> length l"
    proof (rule ccontr)
      assume "\<not> ?thesis"
      then have "length (l @ [d]) \<le> length (rbuf b)" by simp
      moreover have "rbuf b @ w = (l @ [d]) @ v" using w(1) by simp
      ultimately obtain ws where "rbuf b = (l @ [d]) @ ws"
        by (elim append_eq_prefix_cases)
      with False show False by simp
    qed
    moreover have "l @ (d # v) = rbuf b @ w" by (rule w(1))
    ultimately obtain ws where ws: "l = rbuf b @ ws" "w = ws @ d # v"
      by (elim append_eq_prefix_cases [rotated]) auto
    have n: "0 < buf_size - length (rbuf b)" using ws(1) assms(3) by simp
    have "w \<noteq> []" using ws(2) by simp
    from read_some [OF w(2) n this] obtain ch u v'
      where *: "rd (buf_size - length (rbuf b)) (under b) = (ch, None, u)" "ch \<noteq> []"
        "length ch \<le> buf_size - length (rbuf b)" "w = ch @ v'" "rep u v' e"
      by blast
    let ?b = "\<lparr>rbuf = rbuf b @ ch, under = u\<rparr>"
    have "brep ?b (l @ d # v) e"
      using brepI [OF *(5), of "rbuf b @ ch"] *(3,4) w(1) lb by simp
    moreover have "buf_size - length (rbuf ?b) < buf_size - length (rbuf b)"
      using n *(2) by (cases ch) simp_all
    ultimately obtain b' where "read_slice rd d ?b = (l @ [d], None, b')" "brep b' v e"
      using less.hyps by blast
    with False n * show ?thesis
      by (subst read_slice.simps) simp
  qed
qed

text \<open>\<open>io.ReadFull\<close> delivers exactly the next bytes, or tells that the input is too short.\<close>

lemma read_full_exact:
  assumes "brep b v e" and "n \<le> length v"
  shows "\<exists>b'. read_full rd n acc b = (acc @ take n v, None, b') \<and> brep b' (drop n v) e"
  using assms
proof (induction n arbitrary: acc b v rule: less_induct)
  case (less n)
  show ?case
  proof (cases "n = 0")
    case True
    with less.prems show ?thesis by (simp add: read_full.simps)
  next
    case False
    with less.prems have "0 < n" "v \<noteq> []" by auto
    from source.read_some [OF buffered_source less.prems(1) this] obtain ch b' v'
      where *: "bufio_read rd n b = (ch, None, b')" "ch \<noteq> []" "length ch \<le> n" "v = ch @ v'"
        "brep b' v' e" by blast
    show ?thesis
    proof (cases "n \<le> length ch")
      case True
      with * False show ?thesis by (subst read_full.simps) simp
    next
      case False
      have "n - length ch < n" "n - length ch \<le> length v'"
        using \<open>0 < n\<close> *(2,4) less.prems(2) by (cases ch; simp)+
      from less.IH [OF this(1) *(5) this(2), of "acc @ ch"] * False \<open>0 < n\<close> show ?thesis
        by (subst read_full.simps) auto
    qed
  qed
qed

end

context reader
begin

text \<open>A buffered reader is again a reader.\<close>

lemma buffered_reader: "reader (bufio_read rd) brep"
proof (intro reader.intro reader_axioms.intro buffered_source)
  fix b e and n :: nat
  assume r: "brep b [] e" and n: "0 < n"
  then have emp: "rbuf b = []" and u: "rep (under b) [] e"
    by (auto simp: brep_def)
  have "0 < buf_size" by (simp add: buf_size_def)
  with read_end [OF u n] read_end [OF u, of buf_size] emp n
  show "\<exists>b'. bufio_read rd n b = ([], Some e, b') \<and> brep b' [] e"
    by (auto simp: bufio_read_def brep_def)
qed

text \<open>Without the delimiter the rest of the input comes back with the final error.\<close>

lemma read_slice_end:
  assumes "brep b v e" and "d \<notin> set v" and "length v < buf_size"
  shows "\<exists>b'. read_slice rd d b = (v, Some e, b') \<and> brep b' [] e"
  using assms(1)
proof (induction "buf_size - length (rbuf b)" arbitrary: b rule: less_induct)
  case less
  from less.prems obtain w where w: "v = rbuf b @ w" "rep (under b) w e"
    by (auto simp: brep_def)
  have nd: "d \<notin> set (rbuf b)" and n: "0 < buf_size - length (rbuf b)"
    using w(1) assms(2,3) by auto
  show ?case
  proof (cases "w = []")
    case True
    from read_end [OF w(2) [unfolded True] n] obtain u where
      u: "rd (buf_size - length (rbuf b)) (under b) = ([], Some e, u)" "rep u [] e" by blast
    with nd n True w(1) show ?thesis
      by (subst read_slice.simps) (simp add: brep_def)
  next
    case False
    from read_some [OF w(2) n False] obtain ch u v'
      where *: "rd (buf_size - length (rbuf b)) (under b) = (ch, None, u)" "ch \<noteq> []"
        "length ch \<le> buf_size - length (rbuf b)" "w = ch @ v'" "rep u v' e"
      by blast
    let ?b = "\<lparr>rbuf = rbuf b @ ch, under = u\<rparr>"
    have "brep ?b v e"
      using brepI [OF *(5), of "rbuf b @ ch"] *(3,4) w(1) n by simp
    moreover have "buf_size - length (rbuf ?b) < buf_size - length (rbuf b)"
      using n *(2) by (cases ch) simp_all
    ultimately obtain b' where "read_slice rd d ?b = (v, Some e, b')" "brep b' [] e"
      using less.hyps by blast
    with nd n * show ?thesis
      by (subst read_slice.simps) simp
  qed
qed

text \<open>
  \<open>io.ReadAll\<close> returns everything the reader has, whatever the growth of its slice, and one unit of
  fuel for each byte and one for the end are enough.
\<close>

lemma read_all_rep:
  assumes "rep s v e" and "\<And>l. 0 < room l" and "length v < fuel"
  shows "\<exists>s'. read_all rd room fuel acc s = Some (acc @ v, if e = EOF then None else Some e, s')
           \<and> rep s' [] e"
  using assms(1,3)
proof (induction fuel arbitrary: acc s v)
  case 0
  then show ?case by simp
next
  case (Suc fuel)
  show ?case
  proof (cases "v = []")
    case True
    from read_end [OF Suc.prems(1) [unfolded True] assms(2)] obtain s' where
      "rd (room (length acc)) s = ([], Some e, s')" "rep s' [] e" by blast
    with True show ?thesis by simp
  next
    case False
    from read_some [OF Suc.prems(1) assms(2) False] obtain ch s' v'
      where *: "rd (room (length acc)) s = (ch, None, s')" "ch \<noteq> []" "v = ch @ v'" "rep s' v' e"
      by blast
    with Suc.prems(2) have "length v' < fuel" by (cases ch) auto
    from Suc.IH [OF *(4) this, of "acc @ ch"] * show ?thesis by auto
  qed
qed

end

text \<open>The two layers the program builds on a connection.\<close>

interpretation bconn: reader "bufio_read net_read" conn.brep
  by (rule conn.buffered_reader)

interpretation bbconn: reader "bufio_read (bufio_read net_read)" bconn.brep
  by (rule bconn.buffered_reader)

text \<open>The bytes still to come, over the layers that hold them.\<close>

definition conn_pending :: "net breader \<Rightarrow> bytes" where
  "conn_pending b = rbuf b @ concat (segs (under b))"

definition pending2 :: "net breader breader \<Rightarrow> bytes" where
  "pending2 b = rbuf b @ conn_pending (under b)"

lemma conn_brep_iff:
  "conn.brep b v e \<longleftrightarrow>
     length (rbuf b) \<le> buf_size \<and> v = conn_pending b \<and> e = net_err (under b)"
  by (auto simp: conn.brep_def net_rep_def conn_pending_def)

lemma bconn_brep_iff:
  "bconn.brep b v e \<longleftrightarrow> length (rbuf b) \<le> buf_size \<and> length (rbuf (under b)) \<le> buf_size \<and>
     v = pending2 b \<and> e = net_err (under (under b))"
  by (auto simp: bconn.brep_def conn_brep_iff pending2_def)

end
