(* ===== verification/Chunked.thy ===== *)
theory Chunked
  imports Bufio
begin

unbundle bit_operations_syntax

text \<open>
  \<open>icap/chunked.go\<close>: the chunked transfer coding, reader and writer.

  The reader is modelled over any underlying reader; the chunk size is a 64-bit word as in the code.
  The main result is that a \<open>chunkedReader\<close> over well-formed input is itself a \<open>reader\<close> of the payload:
  it delivers exactly the chunk data and then \<open>EOF\<close>, for every segmentation of the input.
\<close>

section \<open>The reader\<close>

definition max_line_length :: nat where
  "max_line_length = 4096"

record 's chunked_reader =
  cr_r :: "'s breader"
  cr_n :: "64 word"
  cr_err :: "go_error option"

text \<open>\<open>newChunkedReader\<close> on something that is not a \<open>*bufio.Reader\<close>: a fresh, empty buffer on top.\<close>

definition new_chunked_reader :: "'s \<Rightarrow> 's chunked_reader" where
  "new_chunked_reader s = \<lparr>cr_r = \<lparr>rbuf = [], under = s\<rparr>, cr_n = 0, cr_err = None\<rparr>"

definition is_ascii_space :: "char \<Rightarrow> bool" where
  "is_ascii_space b \<longleftrightarrow> b = SP \<or> b = TAB \<or> b = LF \<or> b = CR"

function trim_trailing_whitespace :: "bytes \<Rightarrow> bytes" where
  "trim_trailing_whitespace b =
     (if b \<noteq> [] \<and> is_ascii_space (last b) then trim_trailing_whitespace (butlast b) else b)"
  by pat_completeness auto
termination
  by (relation "measure length") auto

declare trim_trailing_whitespace.simps [simp del]

definition read_line :: "'s read_op \<Rightarrow> 's breader \<Rightarrow> (go_error + bytes) \<times> 's breader" where
  "read_line rd b =
     (case read_slice rd LF b of
        (p, Some err, b') \<Rightarrow>
          (Inl (if err = EOF then UnexpectedEOF
                else if err = ErrBufferFull then ErrLineTooLong else err), b')
      | (p, None, b') \<Rightarrow>
          (if max_line_length \<le> length p then Inl ErrLineTooLong
           else Inr (trim_trailing_whitespace p), b'))"

definition hex_digit_value :: "char \<Rightarrow> nat option" where
  "hex_digit_value b =
     (let c = of_char b :: nat in
      if 48 \<le> c \<and> c \<le> 57 then Some (c - 48)
      else if 97 \<le> c \<and> c \<le> 102 then Some (c - 97 + 10)
      else if 65 \<le> c \<and> c \<le> 70 then Some (c - 65 + 10)
      else None)"

text \<open>The loop of \<open>parseHexUint\<close> over the bytes of \<open>v\<close>, with its shift and its or on \<open>uint64\<close>.\<close>

fun parse_hex_loop :: "bytes \<Rightarrow> 64 word \<Rightarrow> bytes \<Rightarrow> go_error + 64 word" where
  "parse_hex_loop v n [] = Inr n"
| "parse_hex_loop v n (b # bs) =
     (case hex_digit_value b of
        None \<Rightarrow> Inl (ErrInvalidChunkLength v)
      | Some d \<Rightarrow> parse_hex_loop v (push_bit 4 n OR word_of_nat d) bs)"

definition parse_hex_uint :: "bytes \<Rightarrow> go_error + 64 word" where
  "parse_hex_uint v = parse_hex_loop v 0 v"

definition begin_chunk :: "'s read_op \<Rightarrow> 's chunked_reader \<Rightarrow> 's chunked_reader" where
  "begin_chunk rd c =
     (case read_line rd (cr_r c) of
        (Inl err, r) \<Rightarrow> c\<lparr>cr_r := r, cr_err := Some err\<rparr>
      | (Inr line, r) \<Rightarrow>
          (case parse_hex_uint line of
             Inl err \<Rightarrow> c\<lparr>cr_r := r, cr_n := 0, cr_err := Some err\<rparr>
           | Inr n \<Rightarrow> c\<lparr>cr_r := r, cr_n := n, cr_err := (if n = 0 then Some EOF else None)\<rparr>))"

text \<open>The end of a chunk: the two bytes after its data must be CRLF.\<close>

definition end_chunk :: "'s read_op \<Rightarrow> 's chunked_reader \<Rightarrow> 's chunked_reader" where
  "end_chunk rd c =
     (case read_full rd 2 [] (cr_r c) of
        (bs, Some err, r) \<Rightarrow> c\<lparr>cr_r := r, cr_err := Some err\<rparr>
      | (bs, None, r) \<Rightarrow>
          c\<lparr>cr_r := r, cr_err := (if bs \<noteq> crlf then Some ErrMalformedChunk else None)\<rparr>)"

text \<open>\<open>chunkedReader.Read(b)\<close> with \<open>k = len(b)\<close>.\<close>

definition chunked_read :: "'s read_op \<Rightarrow> 's chunked_reader read_op" where
  "chunked_read rd k c =
     (case cr_err c of
        Some err \<Rightarrow> ([], Some err, c)
      | None \<Rightarrow>
          (let c1 = (if cr_n c = 0 then begin_chunk rd c else c) in
           case cr_err c1 of
             Some err \<Rightarrow> ([], Some err, c1)
           | None \<Rightarrow>
               (case bufio_read rd (if unat (cr_n c1) < k then unat (cr_n c1) else k) (cr_r c1) of
                  (d, e, r) \<Rightarrow>
                    (let c2 = c1\<lparr>cr_r := r, cr_err := e, cr_n := cr_n c1 - word_of_nat (length d)\<rparr>;
                         c3 = (if cr_n c2 = 0 \<and> cr_err c2 = None then end_chunk rd c2 else c2)
                     in (d, cr_err c3, c3)))))"

section \<open>The writer\<close>

text \<open>An \<open>io.Writer\<close>: the number of bytes written, the error, the new state.\<close>

type_synonym 'w write_op = "bytes \<Rightarrow> 'w \<Rightarrow> nat \<times> go_error option \<times> 'w"

definition chunked_write :: "'w write_op \<Rightarrow> 'w write_op" where
  "chunked_write wr data w =
     (if data = [] then (0, None, w)
      else (case wr (hex (length data) @ crlf) w of
              (_, Some err, w1) \<Rightarrow> (0, Some err, w1)
            | (_, None, w1) \<Rightarrow>
                (case wr data w1 of
                   (n, Some err, w2) \<Rightarrow> (n, Some err, w2)
                 | (n, None, w2) \<Rightarrow>
                     if n \<noteq> length data then (n, Some ErrShortWrite, w2)
                     else (case wr crlf w2 of (_, err, w3) \<Rightarrow> (n, err, w3)))))"

definition chunked_close :: "'w write_op \<Rightarrow> 'w \<Rightarrow> go_error option \<times> 'w" where
  "chunked_close wr w = (case wr (''0'' @ crlf) w of (_, err, w') \<Rightarrow> (err, w'))"

text \<open>
  The contract of a writer that does not fail, with \<open>out w\<close> the bytes written so far, and what a
  chunked writer makes of it.
\<close>

locale writer =
  fixes wr :: "bytes \<Rightarrow> 'w \<Rightarrow> nat \<times> go_error option \<times> 'w"
    and out :: "'w \<Rightarrow> bytes"
  assumes write_ok: "\<exists>w'. wr d w = (length d, None, w') \<and> out w' = out w @ d"

definition chunk_encode :: "bytes \<Rightarrow> bytes" where
  "chunk_encode d = hex (length d) @ crlf @ d @ crlf"

context writer
begin

lemma chunked_write_out:
  "\<exists>w'. chunked_write wr d w = (length d, None, w') \<and>
        out w' = out w @ (if d = [] then [] else chunk_encode d)"
proof (cases "d = []")
  case True
  then show ?thesis by (simp add: chunked_write_def)
next
  case False
  obtain w1 where 1: "wr (hex (length d) @ crlf) w = (length (hex (length d) @ crlf), None, w1)"
    "out w1 = out w @ hex (length d) @ crlf" using write_ok by blast
  obtain w2 where 2: "wr d w1 = (length d, None, w2)" "out w2 = out w1 @ d" using write_ok by blast
  obtain w3 where 3: "wr crlf w2 = (length crlf, None, w3)" "out w3 = out w2 @ crlf"
    using write_ok by blast
  from 1 2 3 False show ?thesis by (simp add: chunked_write_def chunk_encode_def)
qed

lemma chunked_close_out: "\<exists>w'. chunked_close wr w = (None, w') \<and> out w' = out w @ ''0'' @ crlf"
  using write_ok [of "''0'' @ crlf" w] by (auto simp: chunked_close_def)

end

text \<open>The writer of the server: bytes appended to the output of a connection.\<close>

definition append_write :: "bytes write_op" where
  "append_write d w = (length d, None, w @ d)"

interpretation out_writer: writer append_write "\<lambda>w. w"
  by unfold_locales (simp add: append_write_def)

section \<open>Chunk sizes\<close>

lemma nat_bit_small:
  assumes "(d::nat) < 16" and "4 \<le> k"
  shows "\<not> bit d k"
proof -
  have "(2::nat) ^ 4 \<le> 2 ^ k" using assms(2) by (rule power_increasing) simp
  then have "d < 2 ^ k" using assms(1) by simp
  then show ?thesis by (simp add: bit_iff_odd)
qed

text \<open>One step of the loop multiplies by 16 and adds, and wraps at 64 bits.\<close>

lemma shift_or_digit:
  assumes "d < 16"
  shows "push_bit 4 (n::64 word) OR word_of_nat d = n * 16 + word_of_nat d"
proof -
  have "push_bit 4 n + word_of_nat d = push_bit 4 n OR (word_of_nat d :: 64 word)"
    by (rule disjunctive_add) (use nat_bit_small [OF assms] in \<open>auto simp: bit_simps\<close>)
  then show ?thesis by (simp add: push_bit_eq_mult)
qed

lemma hex_digit_value_bound: "hex_digit_value b = Some d \<Longrightarrow> d < 16"
  by (auto simp: hex_digit_value_def Let_def split: if_splits)

lemma hex_digit_value_digit_char [simp]: "d < 16 \<Longrightarrow> hex_digit_value (digit_char d) = Some d"
  by (simp add: hex_digit_value_def of_char_digit_char)

text \<open>The value of a digit string in base 16, most significant digit first.\<close>

definition hex_value :: "nat \<Rightarrow> nat list \<Rightarrow> nat" where
  "hex_value a ds = foldl (\<lambda>a d. a * 16 + d) a ds"

text \<open>
  What \<open>parseHexUint\<close> computes on any string of hexadecimal digits: the value modulo \<open>2 ^ 64\<close>. There is
  no overflow check.
\<close>

lemma parse_hex_loop_value:
  assumes "map hex_digit_value bs = map Some ds"
  shows "parse_hex_loop v (word_of_nat a) bs = Inr (word_of_nat (hex_value a ds))"
  using assms
proof (induction bs arbitrary: a ds)
  case Nil
  then show ?case by (simp add: hex_value_def)
next
  case (Cons b bs)
  then obtain d ds' where d: "ds = d # ds'" "hex_digit_value b = Some d"
    "map hex_digit_value bs = map Some ds'" by (cases ds) auto
  have "push_bit 4 (word_of_nat a) OR word_of_nat d = (word_of_nat (a * 16 + d) :: 64 word)"
    using shift_or_digit [OF hex_digit_value_bound [OF d(2)], of "word_of_nat a"] by simp
  then show ?case
    using Cons.IH [OF d(3), of "a * 16 + d"] d(1,2) by (simp add: hex_value_def)
qed

lemma parse_hex_uint_value:
  "map hex_digit_value v = map Some ds \<Longrightarrow> parse_hex_uint v = Inr (word_of_nat (hex_value 0 ds))"
  using parse_hex_loop_value [of v ds v 0] by (simp add: parse_hex_uint_def)

lemma parse_hex_uint_hex: "parse_hex_uint (hex n) = Inr (word_of_nat n)"
proof -
  let ?ds = "rev (digits_rev 16 n)"
  have "map hex_digit_value (hex n) = map Some ?ds"
    using digits_rev_less [of 16] by (simp add: hex_def)
  then have "parse_hex_loop (hex n) (word_of_nat 0) (hex n) = Inr (word_of_nat (hex_value 0 ?ds))"
    by (rule parse_hex_loop_value)
  moreover have "hex_value 0 ?ds = n"
    using digits_rev_value [of 16 n] by (simp add: hex_value_def foldl_conv_foldr mult.commute)
  ultimately show ?thesis by (simp add: parse_hex_uint_def)
qed

lemma digit_char_graphic:
  assumes "d < 16"
  shows "\<not> is_ascii_space (digit_char d)"
proof
  assume "is_ascii_space (digit_char d)"
  then have "(of_char (digit_char d) :: nat) \<in> {32, 9, 10, 13}"
    by (auto simp: is_ascii_space_def)
  with of_char_digit_char [OF assms] show False by (auto split: if_splits)
qed

lemma hex_graphic: "c \<in> set (hex n) \<Longrightarrow> \<not> is_ascii_space c"
  using digits_rev_less [of 16] by (auto simp: hex_def digit_char_graphic)

lemma hex_length:
  assumes "n < 2 ^ 64"
  shows "length (hex n) \<le> 16"
proof -
  have "n < 16 ^ 16" using assms by simp
  then show ?thesis unfolding hex_def using digits_rev_length [of 16 16 n] by simp
qed

lemma trim_trailing_whitespace_append:
  assumes "\<forall>c \<in> set ws. is_ascii_space c" and "bs = [] \<or> \<not> is_ascii_space (last bs)"
  shows "trim_trailing_whitespace (bs @ ws) = bs"
  using assms(1)
proof (induction ws rule: rev_induct)
  case Nil
  show ?case using assms(2) trim_trailing_whitespace.simps [of bs] by auto
next
  case (snoc w ws)
  have "trim_trailing_whitespace (bs @ ws @ [w]) = trim_trailing_whitespace (bs @ ws)"
    using snoc.prems trim_trailing_whitespace.simps [of "(bs @ ws) @ [w]"]
    by (simp del: append_assoc add: append_assoc [symmetric])
  also have "\<dots> = bs" using snoc by auto
  finally show ?case .
qed

lemma trim_hex_line [simp]: "trim_trailing_whitespace (hex n @ crlf) = hex n"
proof (rule trim_trailing_whitespace_append)
  show "hex n = [] \<or> \<not> is_ascii_space (last (hex n))"
    using hex_graphic [OF last_in_set [OF hex_nonempty]] by simp
qed (simp add: is_ascii_space_def)

section \<open>Reading lines and chunks\<close>

text \<open>
  The wire form of a body: the blocks as chunks, a line \<open>t\<close> that ends it (\<open>"0" CRLF\<close>, or the
  \<open>"0; ieof" CRLF\<close> of ICAP), and whatever follows.
\<close>

definition ok_blocks :: "bytes list \<Rightarrow> bool" where
  "ok_blocks ds \<longleftrightarrow> (\<forall>d \<in> set ds. d \<noteq> [] \<and> length d < 2 ^ 64)"

definition wire_body :: "bytes list \<Rightarrow> bytes \<Rightarrow> bytes \<Rightarrow> bytes" where
  "wire_body ds t tail = concat (map chunk_encode ds) @ t @ tail"

context source
begin

text \<open>A line shorter than the limit is read and trimmed, whatever the segmentation.\<close>

lemma read_line_ok:
  assumes "brep b (l @ LF # v) e" and "LF \<notin> set l" and "length l + 1 < max_line_length"
  shows "\<exists>b'. read_line rd b = (Inr (trim_trailing_whitespace (l @ [LF])), b') \<and> brep b' v e"
  using read_slice_line [OF assms(1,2)] assms(3)
  by (auto simp: read_line_def max_line_length_def buf_size_def)

lemma begin_chunk_size:
  assumes "brep (cr_r c) (hex n @ crlf @ v) e" and "n < 2 ^ 64"
  shows "\<exists>r. begin_chunk rd c = c\<lparr>cr_r := r, cr_n := word_of_nat n,
             cr_err := (if word_of_nat n = (0::64 word) then Some EOF else None)\<rparr> \<and> brep r v e"
proof -
  have "LF \<notin> set (hex n @ [CR])"
    using hex_graphic [of LF n] by (auto simp: is_ascii_space_def)
  moreover have "length (hex n @ [CR]) + 1 < max_line_length"
    using hex_length [OF assms(2)] by (simp add: max_line_length_def)
  moreover have "brep (cr_r c) ((hex n @ [CR]) @ LF # v) e" using assms(1) by simp
  ultimately obtain r where "read_line rd (cr_r c) = (Inr (hex n), r)" "brep r v e"
    using read_line_ok [of "cr_r c" "hex n @ [CR]" v e] by auto
  then show ?thesis by (auto simp: begin_chunk_def parse_hex_uint_hex)
qed

lemma end_chunk_crlf:
  assumes "brep (cr_r c) (crlf @ v) e"
  shows "\<exists>r. end_chunk rd c = c\<lparr>cr_r := r, cr_err := None\<rparr> \<and> brep r v e"
  using read_full_exact [OF assms, of 2 "[]"] by (auto simp: end_chunk_def)

text \<open>
  \<open>ends t x\<close>: the line \<open>t\<close> at the start of a chunk puts the reader into the error state \<open>x\<close>.
\<close>

definition ends :: "bytes \<Rightarrow> go_error \<Rightarrow> bool" where
  "ends t x \<longleftrightarrow> (\<forall>(c :: 's chunked_reader) v fe. brep (cr_r c) (t @ v) fe \<longrightarrow>
     (\<exists>r n. begin_chunk rd c = c\<lparr>cr_r := r, cr_n := n, cr_err := Some x\<rparr> \<and> brep r v fe))"

lemma ends_zero: "ends (''0'' @ crlf) EOF"
proof -
  have h: "hex 0 = ''0''" by (simp add: hex_def digits_rev.simps digit_char_def)
  show ?thesis
    unfolding ends_def
  proof (intro allI impI)
    fix c :: "'s chunked_reader" and v fe
    assume "brep (cr_r c) ((''0'' @ crlf) @ v) fe"
    then have "brep (cr_r c) (hex 0 @ crlf @ v) fe" by (simp add: h)
    from begin_chunk_size [OF this]
    show "\<exists>r n. begin_chunk rd c = c\<lparr>cr_r := r, cr_n := n, cr_err := Some EOF\<rparr> \<and> brep r v fe"
      by auto
  qed
qed

text \<open>Any short line that is no hexadecimal number ends the body with an invalid-length error.\<close>

lemma ends_invalid:
  assumes "LF \<notin> set l" and "length l + 1 < max_line_length"
    and "parse_hex_uint (trim_trailing_whitespace (l @ [LF])) = Inl x"
  shows "ends (l @ [LF]) x"
  unfolding ends_def
proof (intro allI impI)
  fix c :: "'s chunked_reader" and v fe
  assume "brep (cr_r c) ((l @ [LF]) @ v) fe"
  with read_line_ok [of "cr_r c" l v fe] assms(1,2) obtain r where
    "read_line rd (cr_r c) = (Inr (trim_trailing_whitespace (l @ [LF])), r)" "brep r v fe" by auto
  with assms(3) show "\<exists>r n. begin_chunk rd c = c\<lparr>cr_r := r, cr_n := n, cr_err := Some x\<rparr> \<and> brep r v fe"
    by (auto simp: begin_chunk_def)
qed

text \<open>A size line whose value is a multiple of \<open>2 ^ 64\<close> is taken for the last chunk.\<close>

lemma ends_wrapped:
  assumes "LF \<notin> set l" and "length l + 1 < max_line_length"
    and "map hex_digit_value (trim_trailing_whitespace (l @ [LF])) = map Some ds"
    and "hex_value 0 ds mod 2 ^ 64 = 0"
  shows "ends (l @ [LF]) EOF"
  unfolding ends_def
proof (intro allI impI)
  fix c :: "'s chunked_reader" and v fe
  assume "brep (cr_r c) ((l @ [LF]) @ v) fe"
  with read_line_ok [of "cr_r c" l v fe] assms(1,2) obtain r where
    "read_line rd (cr_r c) = (Inr (trim_trailing_whitespace (l @ [LF])), r)" "brep r v fe" by auto
  moreover have "word_of_nat (hex_value 0 ds) = (0 :: 64 word)"
    using assms(4) by (simp add: word_of_nat_eq_0_iff dvd_eq_mod_eq_0)
  ultimately show "\<exists>r n. begin_chunk rd c = c\<lparr>cr_r := r, cr_n := n, cr_err := Some EOF\<rparr> \<and> brep r v fe"
    by (auto simp: begin_chunk_def parse_hex_uint_value [OF assms(3)])
qed

text \<open>
  The states of a chunked reader over such a body: between chunks, inside a chunk, and after the
  ending line.
\<close>

definition between_rep :: "bytes \<Rightarrow> bytes \<Rightarrow> 's chunked_reader \<Rightarrow> bytes \<Rightarrow> bool" where
  "between_rep t tail c v \<longleftrightarrow> cr_err c = None \<and> cr_n c = 0 \<and>
     (\<exists>ds fe. ok_blocks ds \<and> v = concat ds \<and> brep (cr_r c) (wire_body ds t tail) fe)"

definition inside_rep :: "bytes \<Rightarrow> bytes \<Rightarrow> 's chunked_reader \<Rightarrow> bytes \<Rightarrow> bool" where
  "inside_rep t tail c v \<longleftrightarrow> cr_err c = None \<and>
     (\<exists>d ds fe. ok_blocks (d # ds) \<and> cr_n c = word_of_nat (length d) \<and> v = d @ concat ds \<and>
        brep (cr_r c) (d @ crlf @ wire_body ds t tail) fe)"

definition after_rep :: "go_error \<Rightarrow> bytes \<Rightarrow> 's chunked_reader \<Rightarrow> bytes \<Rightarrow> bool" where
  "after_rep x tail c v \<longleftrightarrow> v = [] \<and> cr_err c = Some x \<and> (\<exists>fe. brep (cr_r c) tail fe)"

definition chunked_rep :: "bytes \<Rightarrow> go_error \<Rightarrow> bytes \<Rightarrow> 's chunked_reader \<Rightarrow> bytes \<Rightarrow> go_error \<Rightarrow> bool" where
  "chunked_rep t x tail c v e \<longleftrightarrow> e = x \<and> ends t x \<and>
     (between_rep t tail c v \<or> inside_rep t tail c v \<or> after_rep x tail c v)"

lemma word_of_length_ne0: "d \<noteq> [] \<Longrightarrow> length d < 2 ^ 64 \<Longrightarrow> word_of_nat (length d) \<noteq> (0::64 word)"
  by (simp add: word_of_nat_eq_0_iff nat_dvd_not_less)

lemma begin_chunk_block:
  assumes "ok_blocks (d # ds)" and "brep (cr_r c) (wire_body (d # ds) t tail) fe" and "cr_err c = None"
  shows "inside_rep t tail (begin_chunk rd c) (d @ concat ds)"
    and "unat (cr_n (begin_chunk rd c)) \<noteq> 0"
proof -
  from assms(1) have d: "d \<noteq> []" "length d < 2 ^ 64" by (auto simp: ok_blocks_def)
  have "brep (cr_r c) (hex (length d) @ crlf @ d @ crlf @ wire_body ds t tail) fe"
    using assms(2) by (simp add: wire_body_def chunk_encode_def)
  from begin_chunk_size [OF this d(2)] word_of_length_ne0 [OF d] obtain r where
    r: "begin_chunk rd c = c\<lparr>cr_r := r, cr_n := word_of_nat (length d), cr_err := None\<rparr>"
    "brep r (d @ crlf @ wire_body ds t tail) fe" by auto
  with assms(1) show "inside_rep t tail (begin_chunk rd c) (d @ concat ds)"
    by (auto simp: inside_rep_def)
  from r(1) word_of_length_ne0 [OF d] show "unat (cr_n (begin_chunk rd c)) \<noteq> 0"
    by (simp add: unat_eq_0)
qed

lemma begin_chunk_last:
  assumes "ends t x" and "brep (cr_r c) (wire_body [] t tail) fe"
  shows "after_rep x tail (begin_chunk rd c) []"
proof -
  from assms(2) have "brep (cr_r c) (t @ tail) fe" by (simp add: wire_body_def)
  with assms(1) obtain r n where
    "begin_chunk rd c = c\<lparr>cr_r := r, cr_n := n, cr_err := Some x\<rparr>" "brep r tail fe"
    unfolding ends_def by blast
  then show ?thesis by (auto simp: after_rep_def)
qed

lemma chunked_read_begin:
  assumes "cr_err c = None" and "cr_n c = 0" and "cr_err (begin_chunk rd c) = None"
    and "cr_n (begin_chunk rd c) \<noteq> 0"
  shows "chunked_read rd k c = chunked_read rd k (begin_chunk rd c)"
  using assms by (simp add: chunked_read_def Let_def)

text \<open>Inside a chunk, a read delivers part of it and stays inside or moves past its CRLF.\<close>

lemma inside_read:
  assumes "inside_rep t tail c v" and "0 < k"
  shows "\<exists>ch c' v'. chunked_read rd k c = (ch, None, c') \<and> ch \<noteq> [] \<and> length ch \<le> k \<and> v = ch @ v' \<and>
           (inside_rep t tail c' v' \<or> between_rep t tail c' v')"
proof -
  from assms(1) obtain d ds fe where ok: "ok_blocks (d # ds)" and n: "cr_n c = word_of_nat (length d)"
    and v: "v = d @ concat ds" and b: "brep (cr_r c) (d @ crlf @ wire_body ds t tail) fe"
    and e: "cr_err c = None" by (auto simp: inside_rep_def)
  from ok have d: "d \<noteq> []" "length d < 2 ^ 64" and ok': "ok_blocks ds"
    by (auto simp: ok_blocks_def)
  from n d(2) have un: "unat (cr_n c) = length d" by (simp add: unat_of_nat)
  have n0: "cr_n c \<noteq> 0" using word_of_length_ne0 [OF d] n by simp
  define m where "m = (if unat (cr_n c) < k then unat (cr_n c) else k)"
  have m: "0 < m" "m \<le> length d" "m \<le> k" using d(1) assms(2) by (auto simp: m_def un)
  have "d @ crlf @ wire_body ds t tail \<noteq> []" using d(1) by simp
  from source.read_some [OF buffered_source b m(1) this] obtain ch r w where
    r: "bufio_read rd m (cr_r c) = (ch, None, r)" "ch \<noteq> []" "length ch \<le> m"
      "d @ crlf @ wire_body ds t tail = ch @ w" "brep r w fe" by blast
  from r(3) m(2) have lch: "length ch \<le> length d" by simp
  with r(4) obtain d' where d': "d = ch @ d'" "w = d' @ crlf @ wire_body ds t tail"
    by (elim append_eq_prefix_cases [OF _ lch])
  let ?c = "c\<lparr>cr_r := r, cr_err := None, cr_n := cr_n c - word_of_nat (length ch)\<rparr>"
  have n': "cr_n ?c = word_of_nat (length d')" using n d'(1) by simp
  have step: "chunked_read rd k c =
      (let c3 = (if cr_n ?c = 0 then end_chunk rd ?c else ?c) in (ch, cr_err c3, c3))"
    unfolding chunked_read_def m_def [symmetric]
    using e n0 by (simp add: Let_def m_def [symmetric] r(1))
  show ?thesis
  proof (cases "d' = []")
    case True
    with d'(2) r(5) have "brep (cr_r ?c) (crlf @ wire_body ds t tail) fe" by simp
    from end_chunk_crlf [OF this] obtain r' where
      "end_chunk rd ?c = ?c\<lparr>cr_r := r', cr_err := None\<rparr>" "brep r' (wire_body ds t tail) fe" by blast
    moreover from this ok' n' True have "between_rep t tail (end_chunk rd ?c) (concat ds)"
      by (auto simp: between_rep_def)
    ultimately show ?thesis
      using step r(2,3) m(3) v d'(1) n' True by (auto simp: Let_def)
  next
    case False
    from False d(2) d'(1) have "cr_n ?c \<noteq> 0" using n' word_of_length_ne0 [of d'] by simp
    moreover have "inside_rep t tail ?c (d' @ concat ds)"
      unfolding inside_rep_def using False d ok' n' d' r(5)
      by (intro conjI exI [of _ d'] exI [of _ ds] exI [of _ fe]) (auto simp: ok_blocks_def)
    ultimately show ?thesis
      using step r(2,3) m(3) v d'(1) by (auto simp: Let_def)
  qed
qed

lemma after_read:
  "after_rep x tail c v \<Longrightarrow> chunked_read rd k c = ([], Some x, c)"
  by (simp add: after_rep_def chunked_read_def)

text \<open>
  A chunked reader over such a body is a reader of the payload, with the error of the ending line.
\<close>

lemma chunked_reader_reader: "reader (chunked_read rd) (chunked_rep t x tail)"
proof unfold_locales
  fix c v e and k :: nat
  assume r: "chunked_rep t x tail c v e" and k: "0 < k" and v: "v \<noteq> []"
  then have e: "e = x" and t: "ends t x" and "between_rep t tail c v \<or> inside_rep t tail c v"
    by (auto simp: chunked_rep_def after_rep_def)
  from this(3) show "\<exists>ch c' v'. chunked_read rd k c = (ch, None, c') \<and> ch \<noteq> [] \<and> length ch \<le> k \<and>
      v = ch @ v' \<and> chunked_rep t x tail c' v' e"
  proof
    assume "between_rep t tail c v"
    then obtain ds fe where b: "cr_err c = None" "cr_n c = 0" "ok_blocks ds" "v = concat ds"
      "brep (cr_r c) (wire_body ds t tail) fe" by (auto simp: between_rep_def)
    with v obtain d ds' where ds: "ds = d # ds'" by (cases ds) auto
    note bl = begin_chunk_block [OF b(3) [unfolded ds] b(5) [unfolded ds] b(1)]
    have "chunked_read rd k c = chunked_read rd k (begin_chunk rd c)"
      using b(1,2) bl by (intro chunked_read_begin) (auto simp: inside_rep_def)
    with inside_read [OF bl(1) k] b(4) ds e t show ?thesis
      by (auto simp: chunked_rep_def)
  next
    assume "inside_rep t tail c v"
    from inside_read [OF this k] e t show ?thesis by (auto simp: chunked_rep_def)
  qed
next
  fix c e and k :: nat
  assume r: "chunked_rep t x tail c [] e" and k: "0 < k"
  then have e: "e = x" and t: "ends t x" and "between_rep t tail c [] \<or> after_rep x tail c []"
    by (auto simp: chunked_rep_def inside_rep_def ok_blocks_def)
  from this(3) show "\<exists>c'. chunked_read rd k c = ([], Some e, c') \<and> chunked_rep t x tail c' [] e"
  proof
    assume "between_rep t tail c []"
    then obtain ds fe where b: "cr_err c = None" "cr_n c = 0" "ok_blocks ds" "concat ds = []"
      "brep (cr_r c) (wire_body ds t tail) fe" by (auto simp: between_rep_def)
    then have "ds = []" by (cases ds) (auto simp: ok_blocks_def)
    with b(5) have "after_rep x tail (begin_chunk rd c) []" by (auto intro: begin_chunk_last [OF t])
    with b(1,2) e t show ?thesis
      by (auto simp: chunked_rep_def chunked_read_def after_rep_def Let_def)
  next
    assume "after_rep x tail c []"
    with after_read [OF this, of k] e t show ?thesis by (auto simp: chunked_rep_def)
  qed
qed

text \<open>
  Reading a whole chunked body: all the payload, and what follows the ending line is left in the
  reader's own buffer or in the layer below, in order.
\<close>

lemma chunked_read_error:
  "chunked_read rd k c = (d, e, c') \<Longrightarrow> cr_err c' = e"
  by (auto simp: chunked_read_def Let_def split: option.splits prod.splits if_splits)

lemma read_all_between:
  assumes "cr_err c = None" and "cr_n c = 0" and "brep (cr_r c) (wire_body ds t tail) e" and "ok_blocks ds" and "ends t x"
    and "\<And>l. 0 < room l" and "length (concat ds) < fuel"
  shows "\<exists>c'. read_all (chunked_read rd) room fuel [] c = Some (concat ds, if x = EOF then None else Some x, c') \<and>
    after_rep x tail c' []"
proof -
  have "chunked_rep t x tail c (concat ds) x"
    using assms(1-5) by (auto simp: chunked_rep_def between_rep_def)
  from reader.read_all_rep [OF chunked_reader_reader this, of room fuel "[]"] assms(6,7)
  obtain c' where c': "read_all (chunked_read rd) room fuel [] c =
      Some (concat ds, if x = EOF then None else Some x, c')" "chunked_rep t x tail c' [] x" by auto
  from read_all_last [OF c'(1)] have "cr_err c' \<noteq> None" by (auto dest: chunked_read_error)
  with c' show ?thesis
    by (auto simp: chunked_rep_def between_rep_def inside_rep_def)
qed

lemma read_all_chunked:
  assumes "rep s (wire_body ds t tail) e" and "ok_blocks ds" and "ends t x"
    and "\<And>l. 0 < room l" and "length (concat ds) < fuel"
  shows "\<exists>c'. read_all (chunked_read rd) room fuel [] (new_chunked_reader s) =
             Some (concat ds, if x = EOF then None else Some x, c') \<and> after_rep x tail c' []"
  using brepI [OF assms(1), of "[]"] assms(2-5) by (intro read_all_between) (auto simp: new_chunked_reader_def)

end

context reader
begin

text \<open>Input that ends before the line does is an unexpected end of file.\<close>

lemma read_line_truncated:
  assumes "brep b v EOF" and "LF \<notin> set v" and "length v < buf_size"
  shows "\<exists>b'. read_line rd b = (Inl UnexpectedEOF, b')"
  using read_slice_end [OF assms] by (auto simp: read_line_def)

end

section \<open>The server's body reader\<close>

text \<open>
  The program reads a body with \<open>newChunkedReader(b)\<close> where \<open>b\<close> is the connection's
  \<open>*bufio.ReadWriter\<close>: a second buffer on top of the connection's own.
\<close>

abbreviation conn_chunked_read :: "net breader chunked_reader read_op" where
  "conn_chunked_read \<equiv> chunked_read (bufio_read net_read)"

text \<open>The bytes a sequence of writes and the final close put on the wire.\<close>

definition written_body :: "bytes list \<Rightarrow> bytes" where
  "written_body ds = snd (chunked_close append_write
     (foldl (\<lambda>w d. snd (snd (chunked_write append_write d w))) [] ds))"

lemma written_blocks:
  "foldl (\<lambda>w d. snd (snd (chunked_write append_write d w))) w ds =
     w @ concat (map chunk_encode (filter (\<lambda>d. d \<noteq> []) ds))"
proof (induction ds arbitrary: w)
  case Nil
  then show ?case by simp
next
  case (Cons d ds)
  have "snd (snd (chunked_write append_write d w)) = w @ (if d = [] then [] else chunk_encode d)"
    using out_writer.chunked_write_out [of d w] by auto
  then show ?case by (simp add: Cons.IH)
qed

lemma written_body_wire:
  "written_body ds @ tail = wire_body (filter (\<lambda>d. d \<noteq> []) ds) (''0'' @ crlf) tail"
proof -
  have "snd (chunked_close append_write w) = w @ ''0'' @ crlf" for w
    using out_writer.chunked_close_out [of w] by auto
  then show ?thesis by (simp add: written_body_def written_blocks wire_body_def)
qed

lemma concat_filter_Nil: "concat (filter (\<lambda>d. d \<noteq> []) ds) = concat ds"
  by (induction ds) auto

text \<open>C1: Writing any blocks with the chunked writer and reading them back with the server's body
  reader gives exactly the written bytes and no error, for every way the network cuts the stream
  into segments and whatever the connection's buffer already holds; the bytes after the terminating
  chunk are all still pending, in order, in the reader's own buffer and the layers below it.\<close>

theorem chunked_body_roundtrip:
  assumes "\<forall>d \<in> set ds. length d < 2 ^ 64"
    and "length (rbuf b) \<le> buf_size"
    and "conn_pending b = written_body ds @ tail"
    and "\<forall>l. 0 < room l" and "length (concat ds) < fuel"
  shows "\<exists>r. read_all conn_chunked_read room fuel [] (new_chunked_reader b) = Some (concat ds, None, r)
           \<and> pending2 (cr_r r) = tail"
proof -
  let ?ds = "filter (\<lambda>d. d \<noteq> []) ds"
  have "conn.brep b (wire_body ?ds (''0'' @ crlf) tail) (net_err (under b))"
    using assms(2,3) by (simp add: conn_brep_iff written_body_wire)
  moreover have "ok_blocks ?ds" using assms(1) by (auto simp: ok_blocks_def)
  ultimately obtain r where
    r: "read_all conn_chunked_read room fuel [] (new_chunked_reader b) = Some (concat ?ds, None, r)"
    "bconn.after_rep EOF tail r []"
    using bconn.read_all_chunked [OF _ _ bconn.ends_zero, of b ?ds tail "net_err (under b)" room fuel]
      assms(4,5) by (auto simp: concat_filter_Nil)
  then show ?thesis
    by (auto simp: bconn.after_rep_def bconn_brep_iff concat_filter_Nil)
qed

text \<open>A run of it: two blocks, cut into three segments in the middle of a size line and of a CRLF.\<close>

lemma chunked_body_roundtrip_witness:
  "\<exists>r. read_all conn_chunked_read (\<lambda>l. 512) 20 []
         (new_chunked_reader \<lparr>rbuf = [], under = \<lparr>segs = [''5'', crlf @ ''hello'' @ [CR],
            [LF] @ ''6'' @ crlf @ '' world'' @ crlf @ ''0'' @ crlf @ crlf], net_err = EOF\<rparr>\<rparr>) =
       Some (''hello world'', None, r) \<and> pending2 (cr_r r) = crlf"
proof -
  let ?b = "\<lparr>rbuf = [], under = \<lparr>segs = [''5'', crlf @ ''hello'' @ [CR],
            [LF] @ ''6'' @ crlf @ '' world'' @ crlf @ ''0'' @ crlf @ crlf], net_err = EOF\<rparr>\<rparr>"
  have "conn_pending ?b = written_body [''hello'', '' world''] @ crlf"
    by (simp add: conn_pending_def written_body_wire wire_body_def chunk_encode_def hex_def
        digits_rev.simps digit_char_def)
  then show ?thesis
    using chunked_body_roundtrip [of "[''hello'', '' world'']" ?b crlf "\<lambda>l. 512" 20]
    by (simp add: buf_size_def)
qed

text \<open>\<open>parseHexUint\<close> accepts every string of hexadecimal digits and returns its value modulo
  \<open>2 ^ 64\<close>: there is no overflow check, so a size line may name a size it does not have.\<close>

theorem parse_hex_uint_modulo:
  assumes "map hex_digit_value v = map Some ds"
  shows "\<exists>n. parse_hex_uint v = Inr n \<and> unat n = hex_value 0 ds mod 2 ^ 64"
  using parse_hex_uint_value [OF assms] by (simp add: unat_of_nat)

lemma parse_hex_uint_modulo_witness:
  "\<exists>n. parse_hex_uint ''1000000000000000a'' = Inr n \<and> unat n = 10"
proof -
  have "map hex_digit_value ''1000000000000000a'' = map Some [1,0,0,0,0,0,0,0,0,0,0,0,0,0,0,0,10]"
    by (simp add: hex_digit_value_def)
  from parse_hex_uint_modulo [OF this] show ?thesis by (simp add: hex_value_def)
qed

text \<open>C32: A chunk-size line of hexadecimal digits whose value is a multiple of \<open>2 ^ 64\<close>, such as
  1 followed by sixteen zeros, silently ends the body: \<open>ReadAll\<close> returns the blocks before it with no
  error, and the data of the oversized chunk stays in the input.\<close>

theorem wrapped_chunk_size_ends_body:
  assumes "ok_blocks ds"
    and "LF \<notin> set l" and "length l + 1 < max_line_length"
    and "map hex_digit_value (trim_trailing_whitespace (l @ [LF])) = map Some hs"
    and "hex_value 0 hs mod 2 ^ 64 = 0"
    and "length (rbuf b) \<le> buf_size"
    and "conn_pending b = wire_body ds (l @ [LF]) tail"
    and "\<forall>l. 0 < room l" and "length (concat ds) < fuel"
  shows "\<exists>r. read_all conn_chunked_read room fuel [] (new_chunked_reader b) = Some (concat ds, None, r)
           \<and> pending2 (cr_r r) = tail"
proof -
  have "conn.brep b (wire_body ds (l @ [LF]) tail) (net_err (under b))"
    using assms(6,7) by (simp add: conn_brep_iff)
  from bconn.read_all_chunked [OF this assms(1) bconn.ends_wrapped [OF assms(2-5)], of room fuel]
    assms(8,9) show ?thesis
    by (auto simp: bconn.after_rep_def bconn_brep_iff)
qed

lemma wrapped_chunk_size_ends_body_witness:
  "\<exists>r. read_all conn_chunked_read (\<lambda>l. 512) 20 []
         (new_chunked_reader \<lparr>rbuf = ''10000000000000000'' @ crlf @ ''secret'',
            under = \<lparr>segs = [], net_err = EOF\<rparr>\<rparr>) =
       Some ([], None, r) \<and> pending2 (cr_r r) = ''secret''"
proof -
  let ?l = "''10000000000000000'' @ [CR]"
  have t: "trim_trailing_whitespace (?l @ [LF]) = ''10000000000000000''"
    using trim_trailing_whitespace_append [of crlf "''10000000000000000''"]
    by (simp add: is_ascii_space_def)
  have "map hex_digit_value (trim_trailing_whitespace (?l @ [LF])) =
      map Some [1,0,0,0,0,0,0,0,0,0,0,0,0,0,0,0,0]"
    unfolding t by (simp add: hex_digit_value_def)
  from wrapped_chunk_size_ends_body [OF _ _ _ this, of "[]"
      "\<lparr>rbuf = ''10000000000000000'' @ crlf @ ''secret'', under = \<lparr>segs = [], net_err = EOF\<rparr>\<rparr>"
      "''secret''" "\<lambda>l. 512" 20]
  show ?thesis
    by (simp add: ok_blocks_def max_line_length_def hex_value_def buf_size_def conn_pending_def wire_body_def)
qed

end
