(* ===== verification/GoHttp.thy ===== *)
theory GoHttp
  imports GoStrings
begin

text \<open>
  HTTP header maps, URLs and HTTP messages as the program sees them (Go's \<open>net/http\<close>,
  \<open>net/textproto\<close>).

  A header map is an association list with distinct keys: lookups go through \<^const>\<open>map_of\<close>, updates
  through the association-list library. Keys used with \<open>Get\<close>, \<open>Set\<close>, \<open>Add\<close> and \<open>Del\<close> are made
  canonical first; an index expression \<open>h["Key"]\<close> uses the key as written.
\<close>

section \<open>Header maps\<close>

type_synonym header = "(string \<times> string list) list"

text \<open>The bytes of an HTTP token, the alphabet of header field names.\<close>

definition is_token_char :: "char \<Rightarrow> bool" where
  "is_token_char c \<longleftrightarrow>
     is_upper c \<or> is_lower c \<or> is_digit c \<or> c \<in> set (''!#$%&*+-.^_`|~'' @ [QUOTE])"

fun canonical_from :: "bool \<Rightarrow> string \<Rightarrow> string" where
  "canonical_from up [] = []"
| "canonical_from up (c # cs) =
     (if up then upper_char c else lower_char c) # canonical_from (c = CHR ''-'') cs"

definition canonical_key :: "string \<Rightarrow> string" where
  "canonical_key k = (if list_all is_token_char k then canonical_from True k else k)"

definition hget :: "header \<Rightarrow> string \<Rightarrow> string" where
  "hget h k = (case map_of h (canonical_key k) of Some (v # vs) \<Rightarrow> v | _ \<Rightarrow> [])"

definition hset :: "header \<Rightarrow> string \<Rightarrow> string \<Rightarrow> header" where
  "hset h k v = AList.update (canonical_key k) [v] h"

definition hadd :: "header \<Rightarrow> string \<Rightarrow> string \<Rightarrow> header" where
  "hadd h k v =
     AList.update (canonical_key k)
       ((case map_of h (canonical_key k) of None \<Rightarrow> [] | Some vs \<Rightarrow> vs) @ [v]) h"

definition hdel :: "header \<Rightarrow> string \<Rightarrow> header" where
  "hdel h k = AList.delete (canonical_key k) h"

text \<open>The index expression \<open>h[k] = vs\<close>, with no change to the key.\<close>

definition hput :: "header \<Rightarrow> string \<Rightarrow> string list \<Rightarrow> header" where
  "hput h k vs = AList.update k vs h"

abbreviation header_ok :: "header \<Rightarrow> bool" where
  "header_ok h \<equiv> distinct (map fst h)"

lemma header_ok_update [header_simps]:
  "header_ok h \<Longrightarrow> header_ok (hset h k v)"
  "header_ok h \<Longrightarrow> header_ok (hadd h k v)"
  "header_ok h \<Longrightarrow> header_ok (hdel h k)"
  "header_ok h \<Longrightarrow> header_ok (hput h k vs)"
  by (simp_all add: hset_def hadd_def hdel_def hput_def distinct_update distinct_delete)

lemma map_of_hset [header_simps]: "map_of (hset h k v) = (map_of h)(canonical_key k \<mapsto> [v])"
  by (simp add: hset_def update_conv')

lemma map_of_hput [header_simps]: "map_of (hput h k vs) = (map_of h)(k \<mapsto> vs)"
  by (simp add: hput_def update_conv')

lemma map_of_hdel [header_simps]: "map_of (hdel h k) = (map_of h)(canonical_key k := None)"
  by (simp add: hdel_def delete_conv')

lemma hget_hset_same [header_simps]: "hget (hset h k v) k = v"
  by (simp add: hget_def map_of_hset)

lemma hget_hset_other [header_simps]:
  "canonical_key k \<noteq> canonical_key l \<Longrightarrow> hget (hset h k v) l = hget h l"
  by (simp add: hget_def map_of_hset)

lemma hget_hset: "hget (hset h k v) l = (if canonical_key k = canonical_key l then v else hget h l)"
  by (simp add: hget_def map_of_hset)

lemma hget_hdel [header_simps]: "hget (hdel h k) k = []"
  by (simp add: hget_def map_of_hdel)

lemma hget_hdel_other [header_simps]:
  "canonical_key k \<noteq> canonical_key l \<Longrightarrow> hget (hdel h k) l = hget h l"
  by (simp add: hget_def map_of_hdel)

lemma hget_Nil [simp]: "hget [] k = []"
  by (simp add: hget_def)

section \<open>Writing a header\<close>

text \<open>
  \<open>Header.WriteSubset\<close>: the keys in increasing order, without the excluded ones and without those that
  are not tokens; line breaks inside a value become blanks and the value is trimmed.
\<close>

definition is_http_space :: "char \<Rightarrow> bool" where
  "is_http_space c \<longleftrightarrow> c \<in> {SP, TAB, LF, CR}"

definition header_value :: "string \<Rightarrow> string" where
  "header_value v =
     trim_right_func is_http_space
       (trim_left_func is_http_space (map (\<lambda>c. if c = LF \<or> c = CR then SP else c) v))"

definition header_line :: "string \<Rightarrow> string \<Rightarrow> bytes" where
  "header_line k v = k @ '': '' @ header_value v @ crlf"

definition header_write_subset :: "header \<Rightarrow> (string \<Rightarrow> bool) \<Rightarrow> bytes" where
  "header_write_subset h excl =
     concat (map (\<lambda>(k, vs). concat (map (header_line k) vs))
       (sort_key fst (filter (\<lambda>(k, vs). \<not> excl k \<and> k \<noteq> [] \<and> list_all is_token_char k) h)))"

definition header_write :: "header \<Rightarrow> bytes" where
  "header_write h = header_write_subset h (\<lambda>_. False)"

section \<open>URLs and messages\<close>

record url =
  u_scheme :: string
  u_opaque :: string
  u_host :: string
  u_path :: string
  u_rawquery :: string

text \<open>
  The body of a message is a reader. \<open>NilBody\<close> is a nil \<open>io.ReadCloser\<close>, \<open>EmptyBody\<close> the
  \<open>emptyReader\<close> of \<open>icap/request.go\<close>, \<open>BytesBody bs\<close> a reader over a byte buffer with \<open>bs\<close> unread, and
  \<open>ConnBody buf n err\<close> a \<open>chunkedReader\<close> over the connection: \<open>buf\<close> is what its own buffered reader
  holds, \<open>n\<close> the unread bytes of the current chunk, \<open>err\<close> its sticky error.
\<close>

datatype body =
    NilBody
  | EmptyBody
  | BytesBody bytes
  | ConnBody bytes "64 word" "go_error option"

record http_request =
  rq_method :: string
  rq_url :: url
  rq_proto :: string
  rq_header :: header
  rq_body :: body
  rq_host :: string
  rq_uri :: string
  rq_tls :: bool

record http_response =
  rs_code :: nat
  rs_status :: string
  rs_proto :: string
  rs_header :: header
  rs_body :: body
  rs_request :: "http_request option"

text \<open>The zero values \<open>url.URL{}\<close> and \<open>http.Request{}\<close>.\<close>

definition zero_url :: url where
  "zero_url = \<lparr>u_scheme = [], u_opaque = [], u_host = [], u_path = [], u_rawquery = []\<rparr>"

definition zero_request :: http_request where
  "zero_request = \<lparr>rq_method = [], rq_url = zero_url, rq_proto = [], rq_header = [], rq_body = NilBody,
     rq_host = [], rq_uri = [], rq_tls = False\<rparr>"

section \<open>Status texts of net/http\<close>

definition http_status_table :: "(nat \<times> string) list" where
  "http_status_table =
    [(100, ''Continue''), (101, ''Switching Protocols''), (102, ''Processing''), (103, ''Early Hints''),
     (200, ''OK''), (201, ''Created''), (202, ''Accepted''), (203, ''Non-Authoritative Information''),
     (204, ''No Content''), (205, ''Reset Content''), (206, ''Partial Content''), (207, ''Multi-Status''),
     (208, ''Already Reported''), (226, ''IM Used''),
     (300, ''Multiple Choices''), (301, ''Moved Permanently''), (302, ''Found''), (303, ''See Other''),
     (304, ''Not Modified''), (305, ''Use Proxy''), (307, ''Temporary Redirect''),
     (308, ''Permanent Redirect''),
     (400, ''Bad Request''), (401, ''Unauthorized''), (402, ''Payment Required''), (403, ''Forbidden''),
     (404, ''Not Found''), (405, ''Method Not Allowed''), (406, ''Not Acceptable''),
     (407, ''Proxy Authentication Required''), (408, ''Request Timeout''), (409, ''Conflict''),
     (410, ''Gone''), (411, ''Length Required''), (412, ''Precondition Failed''),
     (413, ''Request Entity Too Large''), (414, ''Request URI Too Long''),
     (415, ''Unsupported Media Type''), (416, ''Requested Range Not Satisfiable''),
     (417, ''Expectation Failed''), (418, ''I'' @ QUOTE # ''m a teapot''), (421, ''Misdirected Request''),
     (422, ''Unprocessable Entity''), (423, ''Locked''), (424, ''Failed Dependency''), (425, ''Too Early''),
     (426, ''Upgrade Required''), (428, ''Precondition Required''), (429, ''Too Many Requests''),
     (431, ''Request Header Fields Too Large''), (451, ''Unavailable For Legal Reasons''),
     (500, ''Internal Server Error''), (501, ''Not Implemented''), (502, ''Bad Gateway''),
     (503, ''Service Unavailable''), (504, ''Gateway Timeout''), (505, ''HTTP Version Not Supported''),
     (506, ''Variant Also Negotiates''), (507, ''Insufficient Storage''), (508, ''Loop Detected''),
     (510, ''Not Extended''), (511, ''Network Authentication Required'')]"

definition http_status_text :: "nat \<Rightarrow> string" where
  "http_status_text code = (case map_of http_status_table code of Some t \<Rightarrow> t | None \<Rightarrow> [])"

section \<open>Library code taken as given\<close>

text \<open>
  The URL and HTTP message parsers of the standard library, the printing of a URL, the growth of the
  slice in \<open>io.ReadAll\<close> and the clock are parameters of the model. Nothing is assumed of them unless a
  theorem says so.
\<close>

record http_lib =
  lib_parse_request_uri :: "string \<Rightarrow> go_error + url"
  lib_parse_url :: "string \<Rightarrow> go_error + url"
  lib_url_string :: "url \<Rightarrow> string"
  lib_read_request :: "bytes \<Rightarrow> go_error + http_request"
  lib_read_response :: "bytes \<Rightarrow> http_request \<Rightarrow> go_error + http_response"
  lib_new_request :: "string \<Rightarrow> string \<Rightarrow> go_error + http_request"
  lib_room :: "nat \<Rightarrow> nat"
  lib_now :: string

text \<open>A library that accepts everything, for running the model on concrete input.\<close>

definition sample_response :: http_response where
  "sample_response = \<lparr>rs_code = 200, rs_status = ''200 OK'', rs_proto = ''HTTP/1.1'', rs_header = [],
     rs_body = NilBody, rs_request = None\<rparr>"

definition sample_lib :: http_lib where
  "sample_lib = \<lparr>lib_parse_request_uri = (\<lambda>u. Inr (zero_url\<lparr>u_path := u\<rparr>)),
     lib_parse_url = (\<lambda>u. Inr (zero_url\<lparr>u_path := u\<rparr>)), lib_url_string = u_path,
     lib_read_request = (\<lambda>bs. Inr zero_request), lib_read_response = (\<lambda>bs r. Inr sample_response),
     lib_new_request = (\<lambda>m u. Inr zero_request), lib_room = (\<lambda>l. 512), lib_now = ''now''\<rparr>"

end
