(* ===== verification/TextProto.thy ===== *)
theory TextProto
  imports Bufio GoHttp
begin

text \<open>
  \<open>bufio.Reader.ReadLine\<close> and the line and header readers of \<open>net/textproto\<close> (Go 1.24) that
  \<open>icap/request.go\<close> uses, over any underlying reader. The loops take fuel; the callers give them more
  than the bytes still to come, and the lemmas show that this is enough.
\<close>

section \<open>Lines\<close>

definition buf_read_line :: "'s read_op \<Rightarrow> 's breader \<Rightarrow> bytes \<times> bool \<times> go_error option \<times> 's breader" where
  "buf_read_line rd b =
     (case read_slice rd LF b of (line, err, b') \<Rightarrow>
        if err = Some ErrBufferFull
        then (if line \<noteq> [] \<and> last line = CR
              then (butlast line, True, None, b'\<lparr>rbuf := CR # rbuf b'\<rparr>)
              else (line, True, None, b'))
        else if line = [] then ([], False, err, b')
        else if last line = LF
        then ((if 1 < length line \<and> last (butlast line) = CR then butlast (butlast line)
               else butlast line), False, None, b')
        else (line, False, None, b'))"

fun tp_read_line :: "'s read_op \<Rightarrow> nat \<Rightarrow> bytes \<Rightarrow> 's breader \<Rightarrow> (go_error + bytes) \<times> 's breader" where
  "tp_read_line rd 0 acc b = (Inl ErrNoProgress, b)"
| "tp_read_line rd (Suc fuel) acc b =
     (case buf_read_line rd b of
        (l, pfx, Some e, b') \<Rightarrow> (Inl e, b')
      | (l, pfx, None, b') \<Rightarrow>
          if pfx then tp_read_line rd fuel (acc @ l) b' else (Inr (acc @ l), b'))"

section \<open>MIME headers\<close>

definition is_blank :: "char \<Rightarrow> bool" where
  "is_blank c \<longleftrightarrow> c = SP \<or> c = TAB"

definition trim_blanks :: "bytes \<Rightarrow> bytes" where
  "trim_blanks s = trim_right_func is_blank (trim_left_func is_blank s)"

text \<open>Make sure that a byte is buffered, as \<open>Peek(1)\<close> and \<open>ReadByte\<close> do.\<close>

definition fill_buf :: "'s read_op \<Rightarrow> 's breader \<Rightarrow> bool \<times> 's breader" where
  "fill_buf rd b =
     (if rbuf b \<noteq> [] then (True, b)
      else (case rd buf_size (under b) of (ch, e, u) \<Rightarrow> (ch \<noteq> [], \<lparr>rbuf = ch, under = u\<rparr>)))"

fun skip_space :: "'s read_op \<Rightarrow> nat \<Rightarrow> nat \<Rightarrow> 's breader \<Rightarrow> nat \<times> 's breader" where
  "skip_space rd 0 n b = (n, b)"
| "skip_space rd (Suc fuel) n b =
     (case fill_buf rd b of
        (False, b') \<Rightarrow> (n, b')
      | (True, b') \<Rightarrow>
          if is_blank (hd (rbuf b'))
          then skip_space rd fuel (Suc n) (b'\<lparr>rbuf := tl (rbuf b')\<rparr>)
          else (n, b'))"

fun continuation_lines :: "'s read_op \<Rightarrow> nat \<Rightarrow> bytes \<Rightarrow> 's breader \<Rightarrow> bytes \<times> 's breader" where
  "continuation_lines rd 0 acc b = (acc, b)"
| "continuation_lines rd (Suc fuel) acc b =
     (case skip_space rd (Suc fuel) 0 b of (n, b1) \<Rightarrow>
        if n = 0 then (acc, b1)
        else (case tp_read_line rd (Suc fuel) [] b1 of
                (Inl e, b2) \<Rightarrow> (acc @ [SP], b2)
              | (Inr line, b2) \<Rightarrow> continuation_lines rd fuel (acc @ [SP] @ trim_blanks line) b2))"

text \<open>\<open>readContinuedLineSlice\<close> with \<open>mustHaveFieldNameColon\<close>.\<close>

definition read_continued_line :: "'s read_op \<Rightarrow> nat \<Rightarrow> 's breader \<Rightarrow> (go_error + bytes) \<times> 's breader" where
  "read_continued_line rd fuel b =
     (case tp_read_line rd fuel [] b of
        (Inl e, b') \<Rightarrow> (Inl e, b')
      | (Inr line, b') \<Rightarrow>
          if line = [] then (Inr [], b')
          else if CHR '':'' \<notin> set line
          then (Inl (ErrText (''malformed MIME header: missing colon: '' @ line)), b')
          else (case continuation_lines rd fuel (trim_blanks line) b' of (kv, b'') \<Rightarrow> (Inr kv, b'')))"

definition valid_value_byte :: "char \<Rightarrow> bool" where
  "valid_value_byte c \<longleftrightarrow> (let n = (of_char c :: nat) in n = 9 \<or> (32 \<le> n \<and> n \<noteq> 127))"

text \<open>\<open>canonicalMIMEHeaderKey\<close>: a blank inside is accepted but then the key is left as it is.\<close>

definition mime_key :: "bytes \<Rightarrow> bytes option" where
  "mime_key k =
     (if k = [] \<or> \<not> list_all (\<lambda>c. is_token_char c \<or> c = SP) k then None
      else if SP \<in> set k then Some k
      else Some (canonical_key k))"

definition add_value :: "header \<Rightarrow> string \<Rightarrow> string \<Rightarrow> header" where
  "add_value h key v =
     AList.update key ((case map_of h key of None \<Rightarrow> [] | Some vs \<Rightarrow> vs) @ [v]) h"

definition malformed_line :: "bytes \<Rightarrow> go_error" where
  "malformed_line kv = ErrText (''malformed MIME header line: '' @ kv)"

fun mime_lines :: "'s read_op \<Rightarrow> nat \<Rightarrow> header \<Rightarrow> 's breader \<Rightarrow> (go_error + header) \<times> 's breader" where
  "mime_lines rd 0 h b = (Inl ErrNoProgress, b)"
| "mime_lines rd (Suc fuel) h b =
     (case read_continued_line rd (Suc fuel) b of
        (Inl e, b') \<Rightarrow> (Inl e, b')
      | (Inr kv, b') \<Rightarrow>
          if kv = [] then (Inr h, b')
          else if CHR '':'' \<notin> set kv then (Inl (malformed_line kv), b')
          else
            (let k = takeWhile (\<lambda>c. c \<noteq> CHR '':'') kv; v = drop (Suc (length k)) kv
             in case mime_key k of
                  None \<Rightarrow> (Inl (malformed_line kv), b')
                | Some key \<Rightarrow>
                    if \<not> list_all valid_value_byte v then (Inl (malformed_line kv), b')
                    else mime_lines rd fuel (add_value h key (trim_left_func is_blank v)) b'))"

text \<open>
  \<open>ReadMIMEHeader\<close>. An error is returned without the partial map, which the callers drop.
\<close>

definition read_mime_header :: "'s read_op \<Rightarrow> nat \<Rightarrow> 's breader \<Rightarrow> (go_error + header) \<times> 's breader" where
  "read_mime_header rd fuel b =
     (case fill_buf rd b of (ok, b1) \<Rightarrow>
        if ok \<and> is_blank (hd (rbuf b1))
        then (case tp_read_line rd fuel [] b1 of
                (Inl e, b2) \<Rightarrow> (Inl e, b2)
              | (Inr line, b2) \<Rightarrow>
                  (Inl (ErrText (''malformed MIME header initial line: '' @ line)), b2))
        else mime_lines rd fuel [] b1)"

section \<open>Reading what was written\<close>

text \<open>A line without its line feed, as the readers return it.\<close>

definition strip_cr :: "bytes \<Rightarrow> bytes" where
  "strip_cr l = (if l \<noteq> [] \<and> last l = CR then butlast l else l)"

lemma strip_cr_crlf [simp]: "strip_cr (l @ [CR]) = l"
  by (simp add: strip_cr_def)

lemma strip_cr_append: "l \<noteq> [] \<Longrightarrow> strip_cr (p @ l) = p @ strip_cr l"
  by (auto simp: strip_cr_def butlast_append)

context source
begin

lemma read_slice_full:
  assumes "brep b v e" and "d \<notin> set (take buf_size v)" and "buf_size \<le> length v"
  shows "\<exists>b'. read_slice rd d b = (take buf_size v, Some ErrBufferFull, b') \<and> rbuf b' = [] \<and>
           brep b' (drop buf_size v) e"
  using assms(1)
proof (induction "buf_size - length (rbuf b)" arbitrary: b rule: less_induct)
  case less
  from less.prems obtain w where w: "v = rbuf b @ w" "rep (under b) w e"
    and lb: "length (rbuf b) \<le> buf_size"
    by (auto simp: brep_def)
  from w(1) lb assms(2) have nd: "d \<notin> set (rbuf b)" by auto
  show ?case
  proof (cases "buf_size \<le> length (rbuf b)")
    case True
    with lb have "length (rbuf b) = buf_size" by simp
    with nd w show ?thesis
      by (subst read_slice.simps) (simp add: brep_def)
  next
    case False
    then have n: "0 < buf_size - length (rbuf b)" by simp
    from False w(1) assms(3) have "w \<noteq> []" by auto
    from read_some [OF w(2) n this] obtain ch u v'
      where *: "rd (buf_size - length (rbuf b)) (under b) = (ch, None, u)" "ch \<noteq> []"
        "length ch \<le> buf_size - length (rbuf b)" "w = ch @ v'" "rep u v' e"
      by blast
    let ?b = "\<lparr>rbuf = rbuf b @ ch, under = u\<rparr>"
    have "brep ?b v e"
      using brepI [OF *(5), of "rbuf b @ ch"] *(3,4) w(1) n by simp
    moreover have "buf_size - length (rbuf ?b) < buf_size - length (rbuf b)"
      using n *(2) by (cases ch) simp_all
    ultimately obtain b' where
      "read_slice rd d ?b = (take buf_size v, Some ErrBufferFull, b')" "rbuf b' = []"
      "brep b' (drop buf_size v) e"
      using less.hyps by blast
    with nd False * show ?thesis
      by (subst read_slice.simps) simp
  qed
qed

lemma brep_push:
  "brep b v e \<Longrightarrow> rbuf b = [] \<Longrightarrow> brep (b\<lparr>rbuf := [c]\<rparr>) (c # v) e"
  by (auto simp: brep_def buf_size_def)

lemma buf_read_line_short:
  assumes "brep b (l @ LF # v) e" and "LF \<notin> set l" and "length l < buf_size"
  shows "\<exists>b'. buf_read_line rd b = (strip_cr l, False, None, b') \<and> brep b' v e"
proof -
  from read_slice_line [OF assms] obtain b' where
    b': "read_slice rd LF b = (l @ [LF], None, b')" "brep b' v e" by blast
  then show ?thesis
    by (cases "l = []") (auto simp: buf_read_line_def strip_cr_def)
qed

text \<open>A line of any length is read whole, without its CRLF, whatever the segments are.\<close>

lemma tp_read_line_ok:
  assumes "brep b (l @ LF # v) e" and "LF \<notin> set l" and "length l < fuel"
  shows "\<exists>b'. tp_read_line rd fuel acc b = (Inr (acc @ strip_cr l), b') \<and> brep b' v e"
  using assms
proof (induction fuel arbitrary: acc b l)
  case 0
  then show ?case by simp
next
  case (Suc fuel)
  show ?case
  proof (cases "length l < buf_size")
    case True
    from buf_read_line_short [OF Suc.prems(1,2) True] show ?thesis by auto
  next
    case False
    define p where "p = take buf_size l"
    define q where "q = drop buf_size l"
    have l: "l = p @ q" and lp: "length p = buf_size"
      using False by (simp_all add: p_def q_def)
    have pne: "p \<noteq> []" using lp by (auto simp: buf_size_def)
    have "take buf_size (l @ LF # v) = p" "drop buf_size (l @ LF # v) = q @ LF # v"
      using l lp by simp_all
    moreover have "LF \<notin> set p" using Suc.prems(2) l by simp
    ultimately obtain b' where b': "read_slice rd LF b = (p, Some ErrBufferFull, b')" "rbuf b' = []"
      "brep b' (q @ LF # v) e"
      using read_slice_full [OF Suc.prems(1), of LF] False by auto
    show ?thesis
    proof (cases "last p = CR")
      case True
      from pne True have p: "p = butlast p @ [CR]" by (metis append_butlast_last_id)
      have "brep (b'\<lparr>rbuf := [CR]\<rparr>) ((CR # q) @ LF # v) e" using brep_push [OF b'(3,2)] by simp
      moreover have "LF \<notin> set (CR # q)" using Suc.prems(2) l by simp
      moreover have "length (CR # q) < fuel"
        using Suc.prems(3) l lp by (simp add: buf_size_def)
      ultimately obtain b'' where "tp_read_line rd fuel (acc @ butlast p) (b'\<lparr>rbuf := [CR]\<rparr>) =
          (Inr ((acc @ butlast p) @ strip_cr (CR # q)), b'')" "brep b'' v e"
        using Suc.IH by blast
      moreover have "strip_cr l = butlast p @ strip_cr (CR # q)"
        using strip_cr_append [of "CR # q" "butlast p"] by (subst l, subst p) simp
      ultimately show ?thesis
        using b'(1,2) pne True by (simp add: buf_read_line_def)
    next
      case False
      show ?thesis
      proof -
        have "LF \<notin> set q" "length q < fuel" using Suc.prems(2,3) l lp by (auto simp: buf_size_def)
        from Suc.IH [OF b'(3) this, of "acc @ p"] obtain b'' where
          "tp_read_line rd fuel (acc @ p) b' = (Inr ((acc @ p) @ strip_cr q), b'')" "brep b'' v e"
          by blast
        moreover have "strip_cr l = p @ strip_cr q"
          using l False pne strip_cr_append [of q p] by (cases "q = []") (auto simp: strip_cr_def)
        ultimately show ?thesis
          using b'(1,2) pne False by (simp add: buf_read_line_def)
      qed
    qed
  qed
qed

lemma fill_buf_ok:
  assumes "brep b (c # v) e"
  shows "\<exists>b'. fill_buf rd b = (True, b') \<and> rbuf b' \<noteq> [] \<and> hd (rbuf b') = c \<and> brep b' (c # v) e \<and>
           brep (b'\<lparr>rbuf := tl (rbuf b')\<rparr>) v e"
proof (cases "rbuf b = []")
  case False
  then obtain x xs where "rbuf b = x # xs" by (cases "rbuf b") auto
  with assms show ?thesis by (auto simp: fill_buf_def brep_def)
next
  case True
  with assms have "rep (under b) (c # v) e" by (auto simp: brep_def)
  from read_some [OF this, of buf_size] obtain ch u w where
    *: "rd buf_size (under b) = (ch, None, u)" "ch \<noteq> []" "length ch \<le> buf_size" "c # v = ch @ w" "rep u w e"
    by (auto simp: buf_size_def)
  then obtain xs where ch: "ch = c # xs" "v = xs @ w" by (cases ch) auto
  with * True show ?thesis
    by (auto simp: fill_buf_def brep_def)
qed

lemma skip_space_none:
  assumes "brep b (c # v) e" and "\<not> is_blank c" and "0 < fuel"
  shows "\<exists>b'. skip_space rd fuel n b = (n, b') \<and> brep b' (c # v) e"
proof -
  from assms(3) obtain f where "fuel = Suc f" by (cases fuel) auto
  with fill_buf_ok [OF assms(1)] assms(2) show ?thesis by auto
qed

text \<open>A line with a colon, followed by a line that does not start with a blank.\<close>

lemma read_continued_line_ok:
  assumes "brep b (l @ crlf @ c # v) e" and "LF \<notin> set l" and "CHR '':'' \<in> set l"
    and "\<not> is_blank c" and "length l + 1 < fuel"
  shows "\<exists>b'. read_continued_line rd fuel b = (Inr (trim_blanks l), b') \<and> brep b' (c # v) e"
proof -
  have "brep b ((l @ [CR]) @ LF # c # v) e" using assms(1) by simp
  from tp_read_line_ok [OF this, of fuel "[]"] assms(2,5) obtain b1 where
    b1: "tp_read_line rd fuel [] b = (Inr l, b1)" "brep b1 (c # v) e" by auto
  from assms(5) obtain f where f: "fuel = Suc f" by (cases fuel) auto
  from skip_space_none [OF b1(2) assms(4), of fuel 0] f obtain b2 where
    b2: "skip_space rd fuel 0 b1 = (0, b2)" "brep b2 (c # v) e" by auto
  have "continuation_lines rd fuel (trim_blanks l) b1 = (trim_blanks l, b2)"
    using b2(1) by (simp add: f)
  moreover have "l \<noteq> []" using assms(3) by auto
  ultimately show ?thesis using b1(1) b2(2) assms(3) by (auto simp: read_continued_line_def)
qed

lemma read_continued_line_blank:
  assumes "brep b (crlf @ v) e" and "1 < fuel"
  shows "\<exists>b'. read_continued_line rd fuel b = (Inr [], b') \<and> brep b' v e"
proof -
  have "brep b ([CR] @ LF # v) e" using assms(1) by simp
  from tp_read_line_ok [OF this, of fuel "[]"] assms(2) show ?thesis
    by (auto simp: read_continued_line_def strip_cr_def)
qed

end

context reader
begin

lemma tp_read_line_eof:
  assumes "brep b [] e" and "e \<noteq> ErrBufferFull" and "0 < fuel"
  shows "\<exists>b'. tp_read_line rd fuel [] b = (Inl e, b') \<and> brep b' [] e"
proof -
  from assms(3) obtain f where "fuel = Suc f" by (cases fuel) auto
  with read_slice_end [OF assms(1), of LF] assms(2) show ?thesis
    by (auto simp: buf_read_line_def buf_size_def)
qed

end

text \<open>
  A header block as a client writes it, field by field, and the fields the reader accepts: a token for the
  name, and a value of printable bytes without blanks at its end. Blanks before the value are dropped.
\<close>

definition mime_wire :: "(string \<times> string) list \<Rightarrow> bytes" where
  "mime_wire kvs = concat (map (\<lambda>(k, v). k @ '': '' @ v @ crlf) kvs) @ crlf"

definition good_field :: "string \<times> string \<Rightarrow> bool" where
  "good_field kv \<longleftrightarrow> (case kv of (k, v) \<Rightarrow> k \<noteq> [] \<and> list_all is_token_char k \<and>
     list_all valid_value_byte v \<and> (v \<noteq> [] \<longrightarrow> \<not> is_blank (last v)))"

definition mime_map :: "header \<Rightarrow> (string \<times> string) list \<Rightarrow> header" where
  "mime_map h kvs = foldl (\<lambda>h (k, v). add_value h (canonical_key k) (trim_left_func is_blank v)) h kvs"

lemma token_char_plain:
  assumes "is_token_char c"
  shows "\<not> is_blank c" and "c \<noteq> CHR '':''" and "c \<noteq> LF" and "c \<noteq> CR"
  using assms by (auto simp: is_token_char_def is_blank_def is_upper_def is_lower_def is_digit_def)

lemma value_byte_plain: "valid_value_byte c \<Longrightarrow> c \<noteq> LF \<and> c \<noteq> CR"
  by (auto simp: valid_value_byte_def Let_def)

lemma trim_field:
  assumes "good_field (k, v)"
  shows "trim_blanks (k @ '': '' @ v) = k @ CHR '':'' # (if v = [] then [] else SP # v)"
proof -
  from assms obtain c cs where k: "k = c # cs" "\<not> is_blank c"
    using token_char_plain(1) by (cases k) (auto simp: good_field_def)
  show ?thesis
  proof (cases "v = []")
    case True
    have "trim_right_func is_blank ((k @ '':'') @ '' '') = trim_right_func is_blank (k @ '':'')"
      by (rule trim_right_func_append) (simp add: is_blank_def)
    also have "\<dots> = k @ '':''" by (rule trim_right_func_id) (simp add: is_blank_def)
    finally show ?thesis using True k by (simp add: trim_blanks_def trim_left_func_def)
  next
    case False
    with assms have "\<not> is_blank (last v)" by (simp add: good_field_def)
    with False have "trim_right_func is_blank (k @ '': '' @ v) = k @ '': '' @ v"
      by (intro trim_right_func_id) simp
    with False k show ?thesis by (simp add: trim_blanks_def trim_left_func_def)
  qed
qed

lemma mime_wire_hd:
  assumes "list_all good_field kvs"
  shows "\<exists>c w. mime_wire kvs @ r = c # w \<and> \<not> is_blank c"
proof (cases kvs)
  case Nil
  then show ?thesis by (simp add: mime_wire_def is_blank_def)
next
  case (Cons kv kvs')
  obtain k v where "kv = (k, v)" by (cases kv)
  with Cons assms show ?thesis
    using token_char_plain(1) by (cases k) (auto simp: mime_wire_def good_field_def)
qed

lemma mime_lines_step:
  assumes "read_continued_line rd (Suc f) b = (Inr (k @ CHR '':'' # w), b1)"
    and "CHR '':'' \<notin> set k" and "mime_key k = Some key" and "list_all valid_value_byte w"
  shows "mime_lines rd (Suc f) h b = mime_lines rd f (add_value h key (trim_left_func is_blank w)) b1"
  using assms by (simp add: Let_def)

context source
begin

lemma mime_lines_ok:
  assumes "brep b (mime_wire kvs @ r) e" and "list_all good_field kvs" and "length (mime_wire kvs) < fuel"
  shows "\<exists>b'. mime_lines rd fuel h b = (Inr (mime_map h kvs), b') \<and> brep b' r e"
  using assms
proof (induction kvs arbitrary: b h fuel)
  case Nil
  then obtain f where f: "fuel = Suc f" and "1 < fuel" by (cases fuel) (auto simp: mime_wire_def)
  from read_continued_line_blank [OF _ this(2), of b r e] Nil.prems(1) f show ?case
    by (auto simp: mime_wire_def mime_map_def)
next
  case (Cons kv kvs)
  obtain k v where kv: "kv = (k, v)" by (cases kv)
  with Cons.prems(2) have good: "good_field (k, v)" and goods: "list_all good_field kvs" by simp_all
  then have kok: "k \<noteq> []" "list_all is_token_char k" and vok: "list_all valid_value_byte v"
    by (auto simp: good_field_def)
  from Cons.prems(3) obtain f where f: "fuel = Suc f" by (cases fuel) auto
  let ?l = "k @ '': '' @ v"
  obtain c w where cw: "mime_wire kvs @ r = c # w" "\<not> is_blank c"
    using mime_wire_hd [OF goods, of r] by blast
  have wire: "mime_wire (kv # kvs) = ?l @ crlf @ mime_wire kvs" by (simp add: mime_wire_def kv)
  then have "brep b (?l @ crlf @ c # w) e" using Cons.prems(1) cw(1) by simp
  moreover have "LF \<notin> set ?l"
    using kok(2) vok by (auto simp: list_all_iff dest: token_char_plain(3) value_byte_plain)
  moreover have "CHR '':'' \<in> set ?l" by simp
  moreover have "length ?l + 1 < fuel" using Cons.prems(3) wire by simp
  ultimately obtain b1 where b1: "read_continued_line rd fuel b = (Inr (trim_blanks ?l), b1)"
    "brep b1 (c # w) e" using read_continued_line_ok [of b ?l c w e fuel] cw(2) by blast
  let ?w = "if v = [] then [] else SP # v"
  have kc: "CHR '':'' \<notin> set k" using kok(2) token_char_plain(2) by (auto simp: list_all_iff)
  have mk: "mime_key k = Some (canonical_key k)"
    using kok token_char_plain(1) by (auto simp: mime_key_def list_all_iff is_blank_def)
  let ?v = "trim_left_func is_blank v"
  have tv: "trim_left_func is_blank ?w = ?v" by (simp add: trim_left_func_def is_blank_def)
  have vw: "list_all valid_value_byte ?w" using vok by (simp add: valid_value_byte_def Let_def)
  have "brep b1 (mime_wire kvs @ r) e" using b1(2) cw(1) by simp
  moreover have "length (mime_wire kvs) < f" using Cons.prems(3) wire f by simp
  ultimately obtain b2 where b2: "mime_lines rd f (add_value h (canonical_key k) ?v) b1 =
      (Inr (mime_map (add_value h (canonical_key k) ?v) kvs), b2)" "brep b2 r e"
    using Cons.IH [OF _ goods] by blast
  have "mime_lines rd fuel h b = mime_lines rd f (add_value h (canonical_key k) ?v) b1"
    using mime_lines_step [OF b1(1) [unfolded f trim_field [OF good]] kc mk vw, of h] by (simp only: f tv)
  with b2 show ?case by (simp add: mime_map_def kv)
qed

lemma read_mime_header_ok:
  assumes "brep b (mime_wire kvs @ r) e" and "list_all good_field kvs" and "length (mime_wire kvs) < fuel"
  shows "\<exists>b'. read_mime_header rd fuel b = (Inr (mime_map [] kvs), b') \<and> brep b' r e"
proof -
  obtain c w where cw: "mime_wire kvs @ r = c # w" "\<not> is_blank c"
    using mime_wire_hd [OF assms(2), of r] by blast
  with fill_buf_ok [of b c w e] assms(1) obtain b1 where
    "fill_buf rd b = (True, b1)" "hd (rbuf b1) = c" "brep b1 (mime_wire kvs @ r) e" by auto
  with mime_lines_ok [OF this(3) assms(2,3), of "[]"] cw(2) show ?thesis
    by (auto simp: read_mime_header_def)
qed

end

end
