(* ===== verification/IcapRequest.thy ===== *)
theory IcapRequest
  imports Chunked TextProto
begin

text \<open>
  \<open>icap/request.go\<close>: reading and parsing of ICAP requests, and the reader that asks for the rest of a
  body after a preview.

  A connection is its input (two buffer layers and the segments still to come) and the bytes written
  to its output. Reading a body changes the connection, because an unread body without preview is
  still on the wire.
\<close>

section \<open>Connections and requests\<close>

record conn_io =
  c_in :: "net breader"
  c_out :: bytes

record icap_request =
  ir_method :: string
  ir_rawurl :: string
  ir_url :: url
  ir_proto :: string
  ir_header :: header
  ir_remote :: string
  ir_preview :: bytes
  ir_end :: string
  ir_org :: "http_request option"
  ir_request :: "http_request option"
  ir_response :: "http_response option"
  ir_orig :: "bytes option"

definition new_icap_request :: icap_request where
  "new_icap_request = \<lparr>ir_method = [], ir_rawurl = [], ir_url = zero_url, ir_proto = [], ir_header = [],
     ir_remote = [], ir_preview = [], ir_end = [], ir_org = None, ir_request = None,
     ir_response = None, ir_orig = None\<rparr>"

text \<open>More fuel than there are bytes to come: enough for every loop over the input.\<close>

definition in_fuel :: "net breader \<Rightarrow> nat" where
  "in_fuel b = Suc (length (conn_pending b))"

section \<open>The Encapsulated header\<close>

text \<open>Subtraction of \<open>int\<close> values wraps at 64 bits.\<close>

definition wrap64 :: "int \<Rightarrow> int" where
  "wrap64 i = (i + 2 ^ 63) mod 2 ^ 64 - 2 ^ 63"

record encap =
  initial_offset :: int
  req_hdr_len :: int
  resp_hdr_len :: int
  has_body :: bool
  prev_key :: string
  prev_value :: int

definition encap_init :: encap where
  "encap_init = \<lparr>initial_offset = 0, req_hdr_len = 0, resp_hdr_len = 0, has_body = False,
     prev_key = [], prev_value = 0\<rparr>"

definition malformed_encapsulated :: "string \<Rightarrow> go_error" where
  "malformed_encapsulated s = BadStringError ''malformed Encapsulated: header'' s"

text \<open>The length of the previous section, from the offset of this one.\<close>

definition encap_previous :: "encap \<Rightarrow> int \<Rightarrow> go_error + encap" where
  "encap_previous st val =
     (if prev_key st = [] then Inr (st\<lparr>initial_offset := val\<rparr>)
      else if prev_key st = ''req-hdr'' then Inr (st\<lparr>req_hdr_len := wrap64 (val - prev_value st)\<rparr>)
      else if prev_key st = ''res-hdr'' then Inr (st\<lparr>resp_hdr_len := wrap64 (val - prev_value st)\<rparr>)
      else if prev_key st \<in> {''req-body'', ''opt-body'', ''res-body'', ''null-body''}
      then Inl (ErrText (prev_key st @ '' must be the last section''))
      else Inr st)"

definition encap_key :: "encap \<Rightarrow> string \<Rightarrow> int \<Rightarrow> go_error + encap" where
  "encap_key st key val =
     (if key \<in> {''req-hdr'', ''res-hdr'', ''null-body''}
      then Inr (st\<lparr>prev_value := val, prev_key := key\<rparr>)
      else if key \<in> {''req-body'', ''res-body'', ''opt-body''}
      then Inr (st\<lparr>has_body := True, prev_value := val, prev_key := key\<rparr>)
      else Inl (BadStringError ''invalid key for Encapsulated: header'' key))"

fun encap_items :: "string \<Rightarrow> encap \<Rightarrow> string list \<Rightarrow> go_error + encap" where
  "encap_items s st [] = Inr st"
| "encap_items s st (item # items) =
     (case index_of item ''='' of
        None \<Rightarrow> Inl (malformed_encapsulated s)
      | Some eq \<Rightarrow>
          (case atoi (drop (eq + 1) item) of
             (val, Some err) \<Rightarrow> Inl (malformed_encapsulated s)
           | (val, None) \<Rightarrow>
               (case encap_previous st val of
                  Inl e \<Rightarrow> Inl e
                | Inr st1 \<Rightarrow>
                    (case encap_key st1 (take eq item) val of
                       Inl e \<Rightarrow> Inl e
                     | Inr st2 \<Rightarrow> encap_items s st2 items))))"

definition parse_encapsulated :: "string \<Rightarrow> go_error + encap" where
  "parse_encapsulated s = encap_items s encap_init (split s '', '')"

section \<open>Reading the sections\<close>

text \<open>
  \<open>make([]byte, n)\<close> panics when \<open>n\<close> exceeds what the runtime can ever address (\<open>2 ^ 48\<close> bytes);
  smaller sizes are taken to be allocated.
\<close>

definition max_alloc :: int where
  "max_alloc = 2 ^ 48"

definition read_section :: "int \<Rightarrow> net breader \<Rightarrow> ((go_error + bytes option) \<times> net breader) outcome" where
  "read_section n b =
     (if 0 < n
      then (if max_alloc < n then Panic ''makeslice: len out of range''
            else (case read_full net_read (nat n) [] b of
                    (bs, Some err, b') \<Rightarrow> Done (Inl err, b')
                  | (bs, None, b') \<Rightarrow> Done (Inr (Some bs), b')))
      else Done (Inr None, b))"

definition replace_char :: "char \<Rightarrow> string \<Rightarrow> string \<Rightarrow> string" where
  "replace_char c new s = concat (map (\<lambda>x. if x = c then new else [x]) s)"

text \<open>
  Parsing the HTTP request header, with the second attempt that escapes the percent signs of the first
  line when the URL has an invalid escape.
\<close>

definition escape_request_line :: "bytes \<Rightarrow> bytes" where
  "escape_request_line raw =
     (case split raw [LF] of [] \<Rightarrow> [] | l # ls \<Rightarrow> join (replace_char CHR ''%'' ''%25'' l # ls) [LF])"

definition parse_http_request :: "http_lib \<Rightarrow> bytes \<Rightarrow> go_error + http_request" where
  "parse_http_request lib raw =
     (case lib_read_request lib raw of
        Inr r \<Rightarrow> Inr r
      | Inl err \<Rightarrow>
          if contains (err_text err) ''invalid URL escape''
          then (case lib_read_request lib (escape_request_line raw) of
                  Inr r \<Rightarrow> Inr r
                | Inl err2 \<Rightarrow> Inl (ErrText (''error while parsing HTTP request: '' @ err_text err2)))
          else Inl (ErrText (''error while parsing HTTP request: '' @ err_text err)))"

text \<open>
  The body of the encapsulated message: with a Preview header the preview is read at once through a
  buffer of its own, which is dropped afterwards; an error whose text has \<open>ieof\<close> marks the whole body
  as sent. Without a Preview header the body stays on the connection.
\<close>

definition read_preview :: "http_lib \<Rightarrow> icap_request \<Rightarrow> net breader \<Rightarrow>
    (go_error + icap_request \<times> body) \<times> net breader" where
  "read_preview lib req b =
     (case read_all conn_chunked_read (lib_room lib) (in_fuel b) [] (new_chunked_reader b) of
        None \<Rightarrow> (Inl ErrNoProgress, b)
      | Some (pv, err, c) \<Rightarrow>
          (let req1 = req\<lparr>ir_preview := pv, ir_orig := Some pv, ir_end := ''0''\<rparr>;
               b1 = under (cr_r c)
           in case err of
                None \<Rightarrow> (Inr (req1, BytesBody pv), b1)
              | Some e \<Rightarrow>
                  if contains (err_text e) ''ieof''
                  then (Inr (req1\<lparr>ir_end := ''0; ieof''\<rparr>, BytesBody pv), b1)
                  else (Inl e, b1)))"

definition read_body_part :: "http_lib \<Rightarrow> bool \<Rightarrow> icap_request \<Rightarrow> net breader \<Rightarrow>
    (go_error + icap_request \<times> body) \<times> net breader" where
  "read_body_part lib hasbody req b =
     (if hasbody
      then (if hget (ir_header req) ''Preview'' \<noteq> [] then read_preview lib req b
            else (Inr (req, ConnBody [] 0 None), b))
      else (Inr (req, EmptyBody), b))"

definition attach_request :: "http_lib \<Rightarrow> bytes option \<Rightarrow> body \<Rightarrow> icap_request \<Rightarrow> go_error + icap_request" where
  "attach_request lib raw bd req =
     (case raw of
        None \<Rightarrow> Inr req
      | Some bs \<Rightarrow>
          (case parse_http_request lib bs of
             Inl e \<Rightarrow> Inl e
           | Inr r \<Rightarrow>
               Inr (req\<lparr>ir_request :=
                 Some (r\<lparr>rq_body := (if ir_method req = ''REQMOD'' then bd else EmptyBody)\<rparr>)\<rparr>)))"

definition attach_response :: "http_lib \<Rightarrow> bytes option \<Rightarrow> body \<Rightarrow> icap_request \<Rightarrow> go_error + icap_request" where
  "attach_response lib raw bd req =
     (case raw of
        None \<Rightarrow> Inr req
      | Some bs \<Rightarrow>
          (let r = (case ir_request req of
                      Some r \<Rightarrow> r
                    | None \<Rightarrow> (case lib_new_request lib ''GET'' ''/'' of Inr r \<Rightarrow> r | Inl _ \<Rightarrow> zero_request))
           in case lib_read_response lib bs r of
                Inl e \<Rightarrow> Inl (ErrText (''error while parsing HTTP response: '' @ err_text e))
              | Inr rs \<Rightarrow>
                  Inr (req\<lparr>ir_response :=
                    Some (rs\<lparr>rs_body := (if ir_method req = ''RESPMOD'' then bd else EmptyBody)\<rparr>)\<rparr>)))"

definition read_sections :: "http_lib \<Rightarrow> encap \<Rightarrow> icap_request \<Rightarrow> net breader \<Rightarrow>
    ((go_error + icap_request) \<times> net breader) outcome" where
  "read_sections lib st req b =
     bind_outcome (read_section (initial_offset st) b) (\<lambda>(junk, b1).
       case junk of Inl e \<Rightarrow> Done (Inl e, b1) | Inr _ \<Rightarrow>
     bind_outcome (read_section (req_hdr_len st) b1) (\<lambda>(rq, b2).
       case rq of Inl e \<Rightarrow> Done (Inl e, b2) | Inr rawreq \<Rightarrow>
     bind_outcome (read_section (resp_hdr_len st) b2) (\<lambda>(rs, b3).
       case rs of Inl e \<Rightarrow> Done (Inl e, b3) | Inr rawresp \<Rightarrow>
       (case read_body_part lib (has_body st) req b3 of
          (Inl e, b4) \<Rightarrow> Done (Inl e, b4)
        | (Inr (req1, bd), b4) \<Rightarrow>
            (case attach_request lib rawreq bd req1 of
               Inl e \<Rightarrow> Done (Inl e, b4)
             | Inr req2 \<Rightarrow> Done (attach_response lib rawresp bd req2, b4))))))"

text \<open>\<open>ReadRequest\<close>. The partial request some error returns carry is dropped by the only caller.\<close>

definition read_icap_request :: "http_lib \<Rightarrow> net breader \<Rightarrow>
    ((go_error + icap_request) \<times> net breader) outcome" where
  "read_icap_request lib b =
     (case tp_read_line net_read (in_fuel b) [] b of
        (Inl e, b1) \<Rightarrow> Done (Inl (if e = EOF then UnexpectedEOF else e), b1)
      | (Inr s, b1) \<Rightarrow>
          (case splitN 3 s [SP] of
             [m, u, p] \<Rightarrow>
               (case lib_parse_request_uri lib u of
                  Inl e \<Rightarrow> Done (Inl e, b1)
                | Inr ur \<Rightarrow>
                    (case read_mime_header net_read (in_fuel b1) b1 of
                       (Inl e, b2) \<Rightarrow> Done (Inl e, b2)
                     | (Inr h, b2) \<Rightarrow>
                         (let req = new_icap_request\<lparr>ir_method := m, ir_rawurl := u, ir_proto := p,
                                      ir_url := ur, ir_header := h\<rparr>;
                              enc = hget h ''Encapsulated''
                          in if enc = [] then Done (Inr req, b2)
                             else (case parse_encapsulated enc of
                                     Inl e \<Rightarrow> Done (Inl e, b2)
                                   | Inr st \<Rightarrow> read_sections lib st req b2))))
           | _ \<Rightarrow> Done (Inl (BadStringError ''malformed ICAP request'' s), b1)))"

section \<open>Reading bodies\<close>

text \<open>
  \<open>io.ReadAll\<close> on the body of a message: the bytes, the error, what is left of the body, the connection.
  A nil body is dereferenced.
\<close>

definition read_body :: "http_lib \<Rightarrow> body \<Rightarrow> conn_io \<Rightarrow>
    (bytes \<times> go_error option \<times> body \<times> conn_io) outcome" where
  "read_body lib bd c =
     (case bd of
        NilBody \<Rightarrow> Panic ''nil body''
      | EmptyBody \<Rightarrow> Done ([], None, EmptyBody, c)
      | BytesBody bs \<Rightarrow> Done (bs, None, BytesBody [], c)
      | ConnBody buf n err \<Rightarrow>
          (case read_all conn_chunked_read (lib_room lib) (Suc (length buf + length (conn_pending (c_in c))))
                  [] \<lparr>cr_r = \<lparr>rbuf = buf, under = c_in c\<rparr>, cr_n = n, cr_err = err\<rparr> of
             None \<Rightarrow> Done ([], Some ErrNoProgress, bd, c)
           | Some (bs, e, cr) \<Rightarrow>
               Done (bs, e, ConnBody (rbuf (cr_r cr)) (cr_n cr) (cr_err cr),
                     c\<lparr>c_in := under (cr_r cr)\<rparr>)))"

text \<open>
  \<open>GetTheRest\<close> read to its end: what is left of the preview, then \<open>100 Continue\<close> is sent and the rest of
  the body is read from the connection through a new buffer. The reader's error is not looked at.
\<close>

definition continue_line :: bytes where
  "continue_line = ''ICAP/1.0 100 Continue'' @ crlf @ crlf"

definition read_the_rest :: "http_lib \<Rightarrow> icap_request \<Rightarrow> conn_io \<Rightarrow> bytes \<times> icap_request \<times> conn_io" where
  "read_the_rest lib req c =
     (let orig = (case ir_orig req of None \<Rightarrow> [] | Some bs \<Rightarrow> bs);
          c1 = c\<lparr>c_out := c_out c @ continue_line\<rparr>
      in case read_all conn_chunked_read (lib_room lib) (in_fuel (c_in c)) []
                (new_chunked_reader (c_in c)) of
           None \<Rightarrow> (orig, req\<lparr>ir_orig := Some []\<rparr>, c1)
         | Some (bs, e, cr) \<Rightarrow> (orig @ bs, req\<lparr>ir_orig := Some []\<rparr>, c1\<lparr>c_in := under (cr_r cr)\<rparr>))"

section \<open>The request head\<close>

text \<open>A request as a client writes it: the request line, the header fields, the encapsulated part.\<close>

definition icap_wire :: "string \<Rightarrow> string \<Rightarrow> string \<Rightarrow> (string \<times> string) list \<Rightarrow> bytes \<Rightarrow> bytes" where
  "icap_wire m u p kvs rest = m @ SP # u @ SP # p @ crlf @ mime_wire kvs @ rest"

definition good_head :: "string \<Rightarrow> string \<Rightarrow> string \<Rightarrow> (string \<times> string) list \<Rightarrow> bool" where
  "good_head m u p kvs \<longleftrightarrow> SP \<notin> set m \<and> SP \<notin> set u \<and> LF \<notin> set (m @ u @ p) \<and> list_all good_field kvs"

lemma splitN_request_line:
  assumes "SP \<notin> set m" and "SP \<notin> set u"
  shows "splitN 3 (m @ SP # u @ SP # p) [SP] = [m, u, p]"
  using index_of_char [OF assms(1), of "u @ SP # p"] index_of_char [OF assms(2), of p]
  by (simp add: numeral_3_eq_3)

text \<open>
  What is proved of reading requests holds for any view of the connection that does not promise more than
  the connection has: the whole of it, or only the part that is in the buffer.
\<close>

locale net_source = source net_read rep for rep :: "net \<Rightarrow> bytes \<Rightarrow> go_error \<Rightarrow> bool" +
  assumes covered: "rep c v e \<Longrightarrow> length v \<le> length (concat (segs c))"

lemma in_fuel_brep: "conn.brep b v e \<Longrightarrow> in_fuel b = Suc (length v)"
  by (simp add: conn_brep_iff in_fuel_def)

interpretation conn_source: net_source net_rep
  by unfold_locales (simp add: net_rep_def)

context net_source
begin

lemma in_fuel_covers: "brep b v e \<Longrightarrow> length v < in_fuel b"
  using covered by (fastforce simp: brep_def in_fuel_def conn_pending_def)

lemma read_head:
  assumes "brep b (icap_wire m u p kvs rest) e" and "good_head m u p kvs"
    and "lib_parse_request_uri lib u = Inr ur"
  defines "req \<equiv> new_icap_request\<lparr>ir_method := m, ir_rawurl := u, ir_proto := p, ir_url := ur,
      ir_header := mime_map [] kvs\<rparr>"
    and "enc \<equiv> hget (mime_map [] kvs) ''Encapsulated''"
  shows "\<exists>b'. brep b' rest e \<and> read_icap_request lib b =
    (if enc = [] then Done (Inr req, b')
     else case parse_encapsulated enc of Inl err \<Rightarrow> Done (Inl err, b')
          | Inr st \<Rightarrow> read_sections lib st req b')"
proof -
  let ?l = "m @ SP # u @ SP # p"
  have sp: "SP \<notin> set m" "SP \<notin> set u" and lf: "LF \<notin> set (?l @ [CR])" and kvs: "list_all good_field kvs"
    using assms(2) by (auto simp: good_head_def)
  have "brep b ((?l @ [CR]) @ LF # mime_wire kvs @ rest) e"
    using assms(1) by (simp add: icap_wire_def)
  moreover have "length (?l @ [CR]) < in_fuel b"
    using in_fuel_covers [OF assms(1)] by (simp add: icap_wire_def)
  ultimately obtain b1 where b1: "tp_read_line net_read (in_fuel b) [] b = (Inr ?l, b1)"
    "brep b1 (mime_wire kvs @ rest) e"
    using tp_read_line_ok [of b "?l @ [CR]" "mime_wire kvs @ rest" e "in_fuel b" "[]"] lf
    by (auto simp: strip_cr_def butlast_append)
  have "length (mime_wire kvs) < in_fuel b1"
    using in_fuel_covers [OF b1(2)] by simp
  from read_mime_header_ok [OF b1(2) kvs this] obtain b2 where
    b2: "read_mime_header net_read (in_fuel b1) b1 = (Inr (mime_map [] kvs), b2)" "brep b2 rest e"
    by blast
  have "read_icap_request lib b =
    (if enc = [] then Done (Inr req, b2)
     else case parse_encapsulated enc of Inl err \<Rightarrow> Done (Inl err, b2)
          | Inr st \<Rightarrow> read_sections lib st req b2)"
    unfolding read_icap_request_def b1(1) req_def enc_def
    by (simp add: splitN_request_line [OF sp] assms(3) b2(1) Let_def del: splitN.simps)
  with b2(2) show ?thesis by blast
qed

text \<open>The sections.\<close>

lemma read_section_ok:
  assumes "brep b (s @ v) e" and "int (length s) = max 0 n" and "n \<le> max_alloc"
  shows "\<exists>b'. read_section n b = Done (Inr (if 0 < n then Some s else None), b') \<and> brep b' v e"
proof (cases "0 < n")
  case True
  with assms(2) have "nat n = length s" by simp
  with read_full_exact [OF assms(1), of "nat n" "[]"] True assms(3) show ?thesis
    by (auto simp: read_section_def)
next
  case False
  with assms show ?thesis by (auto simp: read_section_def)
qed

lemma read_sections_ok:
  assumes "brep b (junk @ rq @ rs @ rest) e"
    and "int (length junk) = max 0 (initial_offset st)" and "int (length rq) = max 0 (req_hdr_len st)"
    and "int (length rs) = max 0 (resp_hdr_len st)"
    and "length junk + length rq + length rs \<le> nat max_alloc"
  shows "\<exists>b'. brep b' rest e \<and> read_sections lib st req b =
     (case read_body_part lib (has_body st) req b' of
        (Inl err, b4) \<Rightarrow> Done (Inl err, b4)
      | (Inr (req1, bd), b4) \<Rightarrow>
          (case attach_request lib (if rq = [] then None else Some rq) bd req1 of
             Inl err \<Rightarrow> Done (Inl err, b4)
           | Inr req2 \<Rightarrow> Done (attach_response lib (if rs = [] then None else Some rs) bd req2, b4)))"
proof -
  have small: "initial_offset st \<le> max_alloc" "req_hdr_len st \<le> max_alloc" "resp_hdr_len st \<le> max_alloc"
    using assms(2-5) by (auto simp: max_alloc_def)
  obtain b1 where b1: "read_section (initial_offset st) b =
      Done (Inr (if 0 < initial_offset st then Some junk else None), b1)" "brep b1 (rq @ rs @ rest) e"
    using read_section_ok [OF assms(1) _ small(1)] assms(2) by auto
  obtain b2 where b2: "read_section (req_hdr_len st) b1 =
      Done (Inr (if 0 < req_hdr_len st then Some rq else None), b2)" "brep b2 (rs @ rest) e"
    using read_section_ok [OF b1(2) _ small(2)] assms(3) by auto
  obtain b3 where b3: "read_section (resp_hdr_len st) b2 =
      Done (Inr (if 0 < resp_hdr_len st then Some rs else None), b3)" "brep b3 rest e"
    using read_section_ok [OF b2(2) _ small(3)] assms(4) by auto
  have "0 < req_hdr_len st \<longleftrightarrow> rq \<noteq> []"
    using assms(3) by (cases rq) (auto simp: max_def split: if_splits)
  moreover have "0 < resp_hdr_len st \<longleftrightarrow> rs \<noteq> []"
    using assms(4) by (cases rs) (auto simp: max_def split: if_splits)
  ultimately show ?thesis
    using b3(2) by (intro exI [of _ b3]) (simp add: read_sections_def b1(1) b2(1) b3(1))
qed

end


section \<open>The Encapsulated header, as clients write it\<close>

definition encap_item :: "string \<times> nat \<Rightarrow> string" where
  "encap_item kn = fst kn @ ''='' @ itoa (snd kn)"

definition encap_text :: "(string \<times> nat) list \<Rightarrow> string" where
  "encap_text kns = join (map encap_item kns) '', ''"

lemma itoa_no: "\<not> is_digit c \<Longrightarrow> c \<notin> set (itoa n)"
  using itoa_digits by blast

lemma index_of_comma:
  assumes "CHR '','' \<notin> set a"
  shows "index_of (a @ CHR '','' # SP # b) '', '' = Some (length a)"
  using assms by (induction a) (auto simp: has_prefix_def)

lemma index_of_no_comma:
  assumes "CHR '','' \<notin> set a"
  shows "index_of a '', '' = None"
  using assms by (induction a) (auto simp: has_prefix_def)

lemma split_encap_text:
  assumes "kns \<noteq> []" and "\<forall>(k, n) \<in> set kns. CHR '','' \<notin> set k"
  shows "split (encap_text kns) '', '' = map encap_item kns"
  using assms
proof (induction kns)
  case Nil
  then show ?case by simp
next
  case (Cons kn kns)
  have nc: "CHR '','' \<notin> set (encap_item kn)"
    using Cons.prems(2) itoa_no by (auto simp: encap_item_def is_digit_def)
  show ?case
  proof (cases kns)
    case Nil
    with nc show ?thesis by (subst split_unfold) (simp_all add: encap_text_def index_of_no_comma)
  next
    case (Cons kn' kns')
    then have t: "encap_text (kn # kns) = encap_item kn @ CHR '','' # SP # encap_text kns"
      by (simp add: encap_text_def)
    have "split (encap_text kns) '', '' = map encap_item kns" using Cons Cons.IH Cons.prems by simp
    with nc show ?thesis
      unfolding t by (subst split_unfold) (simp_all add: index_of_comma)
  qed
qed

text \<open>The loop over the items of such a header, without the text.\<close>

fun encap_run :: "encap \<Rightarrow> (string \<times> nat) list \<Rightarrow> go_error + encap" where
  "encap_run st [] = Inr st"
| "encap_run st ((k, n) # kns) =
     (case encap_previous st (int n) of
        Inl e \<Rightarrow> Inl e
      | Inr st1 \<Rightarrow> (case encap_key st1 k (int n) of Inl e \<Rightarrow> Inl e | Inr st2 \<Rightarrow> encap_run st2 kns))"

lemma encap_items_run:
  assumes "\<forall>(k, n) \<in> set kns. CHR ''='' \<notin> set k \<and> n < 2 ^ 63"
  shows "encap_items s st (map encap_item kns) = encap_run st kns"
  using assms
proof (induction kns arbitrary: st)
  case Nil
  then show ?case by simp
next
  case (Cons kn kns)
  obtain k n where kn: "kn = (k, n)" by (cases kn)
  with Cons.prems have "CHR ''='' \<notin> set k" "n < 2 ^ 63" by simp_all
  then have "index_of (encap_item kn) ''='' = Some (length k)" "atoi (itoa n) = (int n, None)"
    by (simp_all add: kn encap_item_def index_of_char atoi_itoa)
  then show ?case
    using Cons.IH Cons.prems by (auto simp: kn encap_item_def split: sum.splits)
qed

lemma parse_encap_text:
  assumes "kns \<noteq> []" and "\<forall>(k, n) \<in> set kns. CHR '','' \<notin> set k \<and> CHR ''='' \<notin> set k \<and> n < 2 ^ 63"
  shows "parse_encapsulated (encap_text kns) = encap_run encap_init kns"
proof -
  have "\<forall>(k, n) \<in> set kns. CHR '','' \<notin> set k" "\<forall>(k, n) \<in> set kns. CHR ''='' \<notin> set k \<and> n < 2 ^ 63"
    using assms(2) by auto
  then show ?thesis
    using assms(1) by (simp add: parse_encapsulated_def split_encap_text encap_items_run)
qed

lemma wrap64_small: "- (2 ^ 63) \<le> i \<Longrightarrow> i < 2 ^ 63 \<Longrightarrow> wrap64 i = i"
  by (simp add: wrap64_def)

abbreviation body_keys :: "string set" where
  "body_keys \<equiv> {''req-body'', ''res-body'', ''opt-body'', ''null-body''}"

lemma encap_key_hdr:
  "encap_key st ''req-hdr'' v = Inr (st\<lparr>prev_value := v, prev_key := ''req-hdr''\<rparr>)"
  "encap_key st ''res-hdr'' v = Inr (st\<lparr>prev_value := v, prev_key := ''res-hdr''\<rparr>)"
  by (simp_all add: encap_key_def)

lemma encap_key_body:
  assumes "k \<in> body_keys"
  shows "encap_key st k v =
    Inr (st\<lparr>has_body := has_body st \<or> k \<noteq> ''null-body'', prev_value := v, prev_key := k\<rparr>)"
  using assms by (auto simp: encap_key_def)

lemma encap_previous_body:
  assumes "k \<in> body_keys" and "prev_key st = k"
  shows "\<exists>err. encap_previous st v = Inl err"
  using assms by (auto simp: encap_previous_def)

lemma body_key_plain: "k \<in> body_keys \<Longrightarrow> CHR '','' \<notin> set k \<and> CHR ''='' \<notin> set k"
  by auto

section \<open>Properties\<close>

lemma encapsulated_lengths:
  assumes "a \<le> b" and "b \<le> c" and "c < 2 ^ 63" and "k \<in> body_keys"
  shows "parse_encapsulated (encap_text [(''req-hdr'', a), (k, b)]) =
           Inr \<lparr>initial_offset = int a, req_hdr_len = int (b - a), resp_hdr_len = 0,
             has_body = (k \<noteq> ''null-body''), prev_key = k, prev_value = int b\<rparr>"
    and "parse_encapsulated (encap_text [(''res-hdr'', a), (k, b)]) =
           Inr \<lparr>initial_offset = int a, req_hdr_len = 0, resp_hdr_len = int (b - a),
             has_body = (k \<noteq> ''null-body''), prev_key = k, prev_value = int b\<rparr>"
    and "parse_encapsulated (encap_text [(''req-hdr'', a), (''res-hdr'', b), (k, c)]) =
           Inr \<lparr>initial_offset = int a, req_hdr_len = int (b - a), resp_hdr_len = int (c - b),
             has_body = (k \<noteq> ''null-body''), prev_key = k, prev_value = int c\<rparr>"
  using assms body_key_plain [OF assms(4)]
  by (simp_all add: parse_encap_text encap_init_def encap_previous_def encap_key_hdr
      encap_key_body [OF assms(4)] wrap64_small of_nat_diff)

text \<open>C26: The Encapsulated header gives each section its length: the offset of the next section minus
  its own, for a request, a response, or a response with its request, and a body is present exactly
  when the last section is not \<open>null-body\<close>. The bytes before the first section are skipped.\<close>

theorem encapsulated_section_lengths:
  assumes "a \<le> b" and "b \<le> c" and "c < 2 ^ 63" and "k \<in> body_keys"
  shows "parse_encapsulated (encap_text [(''req-hdr'', a), (k, b)]) =
           Inr \<lparr>initial_offset = int a, req_hdr_len = int (b - a), resp_hdr_len = 0,
             has_body = (k \<noteq> ''null-body''), prev_key = k, prev_value = int b\<rparr> \<and>
         parse_encapsulated (encap_text [(''res-hdr'', a), (k, b)]) =
           Inr \<lparr>initial_offset = int a, req_hdr_len = 0, resp_hdr_len = int (b - a),
             has_body = (k \<noteq> ''null-body''), prev_key = k, prev_value = int b\<rparr> \<and>
         parse_encapsulated (encap_text [(''req-hdr'', a), (''res-hdr'', b), (k, c)]) =
           Inr \<lparr>initial_offset = int a, req_hdr_len = int (b - a), resp_hdr_len = int (c - b),
             has_body = (k \<noteq> ''null-body''), prev_key = k, prev_value = int c\<rparr>"
  using encapsulated_lengths [OF assms] by blast

lemma encapsulated_section_lengths_witness:
  "parse_encapsulated ''req-hdr=0, res-hdr=12, res-body=40'' =
     Inr \<lparr>initial_offset = 0, req_hdr_len = 12, resp_hdr_len = 28, has_body = True,
       prev_key = ''res-body'', prev_value = 40\<rparr>"
  using encapsulated_section_lengths [of 0 12 40 "''res-body''"]
  by (simp add: encap_text_def encap_item_def itoa_def digits_rev.simps digit_char_def)

text \<open>A body section that is not the last one makes the Encapsulated header an error, whatever
  follows it and wherever the body stands.\<close>

theorem encapsulated_body_last:
  assumes "k \<in> body_keys" and "\<forall>(k, n) \<in> set (pre @ (k, a) # (k', c) # post).
      CHR '','' \<notin> set k \<and> CHR ''='' \<notin> set k \<and> n < 2 ^ 63"
  shows "\<exists>err. parse_encapsulated (encap_text (pre @ (k, a) # (k', c) # post)) = Inl err"
proof -
  have "\<exists>err. encap_run st (pre @ (k, a) # (k', c) # post) = Inl err" for st
  proof (induction pre arbitrary: st)
    case Nil
    show ?case
    proof (cases "encap_previous st (int a)")
      case (Inr st1)
      let ?st2 = "st1\<lparr>has_body := has_body st1 \<or> k \<noteq> ''null-body'', prev_value := int a, prev_key := k\<rparr>"
      obtain err where "encap_previous ?st2 (int c) = Inl err"
        using encap_previous_body [OF assms(1), of ?st2] by auto
      then show ?thesis by (simp add: Inr encap_key_body [OF assms(1)])
    qed simp
  next
    case (Cons kn pre)
    then show ?case by (cases kn) (auto split: sum.split)
  qed
  then show ?thesis using parse_encap_text [OF _ assms(2)] by simp
qed

lemma encapsulated_body_last_witness:
  "\<exists>err. parse_encapsulated ''req-body=0, req-hdr=5'' = Inl err"
  using encapsulated_body_last [of "''req-body''" "[]" 0 "''req-hdr''" 5 "[]"]
  by (simp add: encap_text_def encap_item_def itoa_def digits_rev.simps digit_char_def)

text \<open>A whole request with its sections, up to the body.\<close>

text \<open>The request a REQMOD head stands for, and what is made of its body.\<close>

abbreviation reqmod_head :: "string \<Rightarrow> url \<Rightarrow> string \<Rightarrow> (string \<times> string) list \<Rightarrow> icap_request" where
  "reqmod_head u ur p kvs \<equiv> new_icap_request\<lparr>ir_method := ''REQMOD'', ir_rawurl := u, ir_proto := p, ir_url := ur,
     ir_header := mime_map [] kvs\<rparr>"

context net_source
begin

lemma request_parts:
  assumes "good_head m u p kvs" and "lib_parse_request_uri lib u = Inr ur"
    and "hget (mime_map [] kvs) ''Encapsulated'' = encap_text (kn # kns)"
    and "parse_encapsulated (encap_text (kn # kns)) = Inr st"
    and "initial_offset st = 0" and "req_hdr_len st = int (length rq)" and "resp_hdr_len st = int (length rs)"
    and "length rq + length rs \<le> nat max_alloc" and "brep b (icap_wire m u p kvs (rq @ rs @ rest)) e"
  defines "req \<equiv> new_icap_request\<lparr>ir_method := m, ir_rawurl := u, ir_proto := p, ir_url := ur,
      ir_header := mime_map [] kvs\<rparr>"
  shows "\<exists>b'. brep b' rest e \<and> read_icap_request lib b =
     (case read_body_part lib (has_body st) req b' of
        (Inl err, b4) \<Rightarrow> Done (Inl err, b4)
      | (Inr (req1, bd), b4) \<Rightarrow>
          (case attach_request lib (if rq = [] then None else Some rq) bd req1 of
             Inl err \<Rightarrow> Done (Inl err, b4)
           | Inr req2 \<Rightarrow> Done (attach_response lib (if rs = [] then None else Some rs) bd req2, b4)))"
proof -
  have ne: "encap_text (kn # kns) \<noteq> []" by (cases kns) (simp_all add: encap_text_def encap_item_def)
  from read_head [OF assms(9,1,2)] ne assms(3,4) obtain b1 where
    b1: "brep b1 ([] @ rq @ rs @ rest) e"
      "read_icap_request lib b = read_sections lib st req b1"
    by (auto simp: req_def)
  have "length ([]::bytes) + length rq + length rs \<le> nat max_alloc" using assms(8) by simp
  from read_sections_ok [OF b1(1) _ _ _ this, of st lib req] assms(5-7) b1(2) show ?thesis
    by auto
qed

lemma reqmod_parts:
  assumes "good_head ''REQMOD'' u p kvs" and "lib_parse_request_uri lib u = Inr ur"
    and "hget (mime_map [] kvs) ''Encapsulated'' = encap_text [(''req-hdr'', 0), (k, length rq)]"
    and "k \<in> {''req-body'', ''null-body''}"
    and "rq \<noteq> []" and "length rq \<le> nat max_alloc" and "lib_read_request lib rq = Inr r"
    and "brep b (icap_wire ''REQMOD'' u p kvs (rq @ rest)) e"
  shows "\<exists>b'. brep b' rest e \<and> read_icap_request lib b =
     (case read_body_part lib (k \<noteq> ''null-body'') (reqmod_head u ur p kvs) b' of
        (Inl err, b4) \<Rightarrow> Done (Inl err, b4)
      | (Inr (req1, bd), b4) \<Rightarrow> Done (Inr (req1\<lparr>ir_request := Some (r\<lparr>rq_body := bd\<rparr>)\<rparr>), b4))"
proof -
  have k: "k \<in> body_keys" and "length rq < 2 ^ 63" using assms(4,6) by (auto simp: max_alloc_def)
  then have "parse_encapsulated (encap_text [(''req-hdr'', 0), (k, length rq)]) =
      Inr \<lparr>initial_offset = 0, req_hdr_len = int (length rq), resp_hdr_len = 0,
        has_body = (k \<noteq> ''null-body''), prev_key = k, prev_value = int (length rq)\<rparr>"
    using encapsulated_lengths(1) [of 0 "length rq" "length rq" k] by simp
  note parts = request_parts [OF assms(1-3) this, of rq "[]" b rest e]
  obtain b' where b': "brep b' rest e" "read_icap_request lib b =
      (case read_body_part lib (k \<noteq> ''null-body'') (reqmod_head u ur p kvs) b' of
        (Inl err, b4) \<Rightarrow> Done (Inl err, b4)
      | (Inr (req1, bd), b4) \<Rightarrow>
          (case attach_request lib (Some rq) bd req1 of
             Inl err \<Rightarrow> Done (Inl err, b4)
           | Inr req2 \<Rightarrow> Done (attach_response lib None bd req2, b4)))"
    using parts assms(5,6,8) by auto
  obtain x b4 where x: "read_body_part lib (k \<noteq> ''null-body'') (reqmod_head u ur p kvs) b' = (x, b4)" by force
  then have "ir_method req1 = ''REQMOD''" if "x = Inr (req1, bd)" for req1 bd
    using that by (auto simp: read_body_part_def read_preview_def Let_def split: if_splits option.splits)
  with b' x assms(7) show ?thesis
    by (cases x) (auto simp: attach_request_def attach_response_def parse_http_request_def)
qed

end

lemma read_request_parts:
  assumes "good_head m u p kvs" and "lib_parse_request_uri lib u = Inr ur"
    and "hget (mime_map [] kvs) ''Encapsulated'' = encap_text (kn # kns)"
    and "parse_encapsulated (encap_text (kn # kns)) = Inr st"
    and "initial_offset st = 0" and "req_hdr_len st = int (length rq)" and "resp_hdr_len st = int (length rs)"
    and "length rq + length rs \<le> nat max_alloc" and "length (rbuf b) \<le> buf_size"
    and "conn_pending b = icap_wire m u p kvs (rq @ rs @ rest)"
  defines "req \<equiv> new_icap_request\<lparr>ir_method := m, ir_rawurl := u, ir_proto := p, ir_url := ur,
      ir_header := mime_map [] kvs\<rparr>"
  shows "\<exists>b'. length (rbuf b') \<le> buf_size \<and> conn_pending b' = rest \<and> read_icap_request lib b =
     (case read_body_part lib (has_body st) req b' of
        (Inl err, b4) \<Rightarrow> Done (Inl err, b4)
      | (Inr (req1, bd), b4) \<Rightarrow>
          (case attach_request lib (if rq = [] then None else Some rq) bd req1 of
             Inl err \<Rightarrow> Done (Inl err, b4)
           | Inr req2 \<Rightarrow> Done (attach_response lib (if rs = [] then None else Some rs) bd req2, b4)))"
  using conn_source.request_parts [OF assms(1-8), of b rest "net_err (under b)"] assms(9,10)
  by (auto simp: conn_brep_iff req_def)

lemma read_reqmod:
  assumes "good_head ''REQMOD'' u p kvs" and "lib_parse_request_uri lib u = Inr ur"
    and "hget (mime_map [] kvs) ''Encapsulated'' = encap_text [(''req-hdr'', 0), (k, length rq)]"
    and "k \<in> {''req-body'', ''null-body''}"
    and "rq \<noteq> []" and "length rq \<le> nat max_alloc" and "lib_read_request lib rq = Inr r"
    and "length (rbuf b) \<le> buf_size"
    and "conn_pending b = icap_wire ''REQMOD'' u p kvs (rq @ rest)"
  shows "\<exists>b'. length (rbuf b') \<le> buf_size \<and> conn_pending b' = rest \<and> read_icap_request lib b =
     (case read_body_part lib (k \<noteq> ''null-body'') (reqmod_head u ur p kvs) b' of
        (Inl err, b4) \<Rightarrow> Done (Inl err, b4)
      | (Inr (req1, bd), b4) \<Rightarrow> Done (Inr (req1\<lparr>ir_request := Some (r\<lparr>rq_body := bd\<rparr>)\<rparr>), b4))"
  using conn_source.reqmod_parts [OF assms(1-7), of b rest "net_err (under b)"] assms(8,9)
  by (auto simp: conn_brep_iff)

text \<open>C4: A REQMOD request is read into exactly its parts, whatever the segmentation: the HTTP request
  parsed from the bytes between the two offsets, the body left on the connection as a chunked reader
  when there is one, and all later bytes still pending.\<close>

theorem reqmod_request_read:
  assumes "good_head ''REQMOD'' u p kvs" and "lib_parse_request_uri lib u = Inr ur"
    and "hget (mime_map [] kvs) ''Encapsulated'' = encap_text [(''req-hdr'', 0), (k, length rq)]"
    and "k \<in> {''req-body'', ''null-body''}"
    and "k = ''req-body'' \<longrightarrow> hget (mime_map [] kvs) ''Preview'' = []"
    and "rq \<noteq> []" and "length rq \<le> nat max_alloc" and "lib_read_request lib rq = Inr r"
    and "length (rbuf b) \<le> buf_size"
    and "conn_pending b = icap_wire ''REQMOD'' u p kvs (rq @ rest)"
  shows "\<exists>b' req. read_icap_request lib b = Done (Inr req, b') \<and> conn_pending b' = rest \<and>
           ir_method req = ''REQMOD'' \<and> ir_rawurl req = u \<and> ir_url req = ur \<and> ir_proto req = p \<and>
           ir_header req = mime_map [] kvs \<and> ir_response req = None \<and>
           ir_request req = Some (r\<lparr>rq_body :=
             (if k = ''null-body'' then EmptyBody else ConnBody [] 0 None)\<rparr>)"
  using read_reqmod [OF assms(1-4,6-10)] assms(4,5)
  by (auto simp: read_body_part_def new_icap_request_def)

text \<open>A RESPMOD request with both headers is read into exactly its parts: the HTTP request and
  the HTTP response parsed from their sections (the response in the context of that request), the
  response's body left on the connection, the request's body empty.\<close>

theorem respmod_request_read:
  assumes "good_head ''RESPMOD'' u p kvs" and "lib_parse_request_uri lib u = Inr ur"
    and "hget (mime_map [] kvs) ''Encapsulated'' =
           encap_text [(''req-hdr'', 0), (''res-hdr'', length rq), (''res-body'', length rq + length rs)]"
    and "hget (mime_map [] kvs) ''Preview'' = []"
    and "rq \<noteq> []" and "rs \<noteq> []" and "length rq + length rs \<le> nat max_alloc"
    and "lib_read_request lib rq = Inr r"
    and "lib_read_response lib rs (r\<lparr>rq_body := EmptyBody\<rparr>) = Inr s"
    and "length (rbuf b) \<le> buf_size"
    and "conn_pending b = icap_wire ''RESPMOD'' u p kvs (rq @ rs @ rest)"
  shows "\<exists>b' req. read_icap_request lib b = Done (Inr req, b') \<and> conn_pending b' = rest \<and>
           ir_method req = ''RESPMOD'' \<and> ir_url req = ur \<and> ir_header req = mime_map [] kvs \<and>
           ir_request req = Some (r\<lparr>rq_body := EmptyBody\<rparr>) \<and>
           ir_response req = Some (s\<lparr>rs_body := ConnBody [] 0 None\<rparr>)"
proof -
  have "length rq + length rs < 2 ^ 63" using assms(7) by (simp add: max_alloc_def)
  then have "parse_encapsulated (encap_text
        [(''req-hdr'', 0), (''res-hdr'', length rq), (''res-body'', length rq + length rs)]) =
      Inr \<lparr>initial_offset = 0, req_hdr_len = int (length rq), resp_hdr_len = int (length rs),
        has_body = True, prev_key = ''res-body'', prev_value = int (length rq + length rs)\<rparr>"
    using encapsulated_lengths(3) [of 0 "length rq" "length rq + length rs" "''res-body''"] by simp
  note parts = read_request_parts [OF assms(1-3) this, of rq rs b rest]
  obtain b' where "conn_pending b' = rest" "read_icap_request lib b =
      (case read_body_part lib True (new_icap_request\<lparr>ir_method := ''RESPMOD'',
         ir_rawurl := u, ir_proto := p, ir_url := ur, ir_header := mime_map [] kvs\<rparr>) b' of
        (Inl err, b4) \<Rightarrow> Done (Inl err, b4)
      | (Inr (req1, bd), b4) \<Rightarrow>
          (case attach_request lib (Some rq) bd req1 of
             Inl err \<Rightarrow> Done (Inl err, b4)
           | Inr req2 \<Rightarrow> Done (attach_response lib (Some rs) bd req2, b4)))"
    using parts assms(5-7,10,11) by auto
  with assms(4,8,9) show ?thesis
    by (auto simp: read_body_part_def attach_request_def attach_response_def parse_http_request_def
        new_icap_request_def)
qed

lemma sample_head:
  "good_head m u ''ICAP/1.0'' [(''Encapsulated'', v)] \<longleftrightarrow> SP \<notin> set m \<and> SP \<notin> set u \<and>
     LF \<notin> set m \<and> LF \<notin> set u \<and> good_field (''Encapsulated'', v)"
  by (auto simp: good_head_def)

lemma sample_mime:
  "hget (mime_map [] [(''Encapsulated'', v)]) ''Encapsulated'' = trim_left_func is_blank v"
  "hget (mime_map [] [(''Encapsulated'', v)]) ''Preview'' = []"
  by code_simp+

lemma reqmod_request_read_witness:
  "\<exists>b' req. read_icap_request sample_lib
       \<lparr>rbuf = ''REQM'', under = \<lparr>segs = [''OD /echo ICAP/1.0'' @ [CR], [LF] @
          ''Encapsulated: req-hdr=0, null-body=4'' @ crlf @ crlf @ ''GE'', ''T/next''], net_err = EOF\<rparr>\<rparr> =
         Done (Inr req, b') \<and> conn_pending b' = ''next'' \<and>
       ir_request req = Some (zero_request\<lparr>rq_body := EmptyBody\<rparr>)"
proof -
  let ?v = "''req-hdr=0, null-body=4''"
  let ?b = "\<lparr>rbuf = ''REQM'', under = \<lparr>segs = [''OD /echo ICAP/1.0'' @ [CR], [LF] @
          ''Encapsulated: req-hdr=0, null-body=4'' @ crlf @ crlf @ ''GE'', ''T/next''], net_err = EOF\<rparr>\<rparr>"
  have g: "good_head ''REQMOD'' ''/echo'' ''ICAP/1.0'' [(''Encapsulated'', ?v)]"
    by code_simp
  have v: "?v = encap_text [(''req-hdr'', 0), (''null-body'', length ''GET/'')]"
    by (simp add: encap_text_def encap_item_def itoa_def digits_rev.simps digit_char_def)
  have c: "conn_pending ?b = icap_wire ''REQMOD'' ''/echo'' ''ICAP/1.0'' [(''Encapsulated'', ?v)] (''GET/'' @ ''next'')"
    by (simp add: conn_pending_def icap_wire_def mime_wire_def)
  have h: "hget (mime_map [] [(''Encapsulated'', ?v)]) ''Encapsulated'' =
      encap_text [(''req-hdr'', 0), (''null-body'', length ''GET/'')]"
    unfolding v [symmetric] by (simp add: sample_mime trim_left_func_def is_blank_def)
  from reqmod_request_read [where r = zero_request and lib = sample_lib and rq = "''GET/''", OF g _ h _ _ _ _ _ _ c]
  show ?thesis by (force simp: sample_lib_def max_alloc_def buf_size_def)
qed

lemma respmod_request_read_witness:
  "\<exists>b' req. read_icap_request sample_lib
       \<lparr>rbuf = [], under = \<lparr>segs = [''RESPMOD /echo ICAP/1.0'' @ crlf @
          ''Encapsulated: req-hdr=0, res-hdr=4, res-body=10'' @ crlf @ crlf, ''GET/HTTP'', ''OKnext''],
          net_err = EOF\<rparr>\<rparr> = Done (Inr req, b') \<and> conn_pending b' = ''next'' \<and>
       ir_response req = Some (sample_response\<lparr>rs_body := ConnBody [] 0 None\<rparr>)"
proof -
  let ?v = "''req-hdr=0, res-hdr=4, res-body=10''"
  let ?b = "\<lparr>rbuf = [], under = \<lparr>segs = [''RESPMOD /echo ICAP/1.0'' @ crlf @
          ''Encapsulated: req-hdr=0, res-hdr=4, res-body=10'' @ crlf @ crlf, ''GET/HTTP'', ''OKnext''],
          net_err = EOF\<rparr>\<rparr>"
  have g: "good_head ''RESPMOD'' ''/echo'' ''ICAP/1.0'' [(''Encapsulated'', ?v)]"
    by code_simp
  have v: "?v = encap_text [(''req-hdr'', 0), (''res-hdr'', length ''GET/''),
      (''res-body'', length ''GET/'' + length ''HTTPOK'')]"
    by (simp add: encap_text_def encap_item_def itoa_def digits_rev.simps digit_char_def)
  have c: "conn_pending ?b = icap_wire ''RESPMOD'' ''/echo'' ''ICAP/1.0'' [(''Encapsulated'', ?v)]
      (''GET/'' @ ''HTTPOK'' @ ''next'')"
    by (simp add: conn_pending_def icap_wire_def mime_wire_def)
  have h: "hget (mime_map [] [(''Encapsulated'', ?v)]) ''Encapsulated'' = encap_text [(''req-hdr'', 0),
      (''res-hdr'', length ''GET/''), (''res-body'', length ''GET/'' + length ''HTTPOK'')]"
    unfolding v [symmetric] by (simp add: sample_mime trim_left_func_def is_blank_def)
  from respmod_request_read [where r = zero_request and lib = sample_lib and rq = "''GET/''" and rs = "''HTTPOK''",
      OF g _ h sample_mime(2) _ _ _ _ _ _ c]
  show ?thesis by (force simp: sample_lib_def max_alloc_def buf_size_def)
qed

text \<open>The two endings of a preview: more to come, or all sent.\<close>

definition preview_end :: "bytes \<Rightarrow> string \<Rightarrow> bool" where
  "preview_end t fin \<longleftrightarrow> (t = ''0'' @ crlf \<and> fin = ''0'') \<or> (t = ''0; ieof'' @ crlf \<and> fin = ''0; ieof'')"

lemma trim_ieof: "trim_trailing_whitespace (''0; ieof'' @ crlf) = ''0; ieof''"
  by (rule trim_trailing_whitespace_append) (simp_all add: is_ascii_space_def)

lemma preview_ends:
  assumes "preview_end t fin"
  shows "\<exists>x. bconn.ends t x \<and>
    (if x = EOF then fin = ''0'' else contains (err_text x) ''ieof'' \<and> fin = ''0; ieof'')"
proof (cases "fin = ''0''")
  case True
  with assms show ?thesis using bconn.ends_zero by (auto simp: preview_end_def)
next
  case False
  with assms have t: "t = (''0; ieof'' @ [CR]) @ [LF]" and fin: "fin = ''0; ieof''"
    by (auto simp: preview_end_def)
  have "parse_hex_uint (trim_trailing_whitespace ((''0; ieof'' @ [CR]) @ [LF])) =
      Inl (ErrInvalidChunkLength ''0; ieof'')"
    using trim_ieof by (simp add: parse_hex_uint_def hex_digit_value_def)
  from bconn.ends_invalid [OF _ _ this] have "bconn.ends t (ErrInvalidChunkLength ''0; ieof'')"
    by (simp add: t max_line_length_def)
  moreover have "contains (err_text (ErrInvalidChunkLength ''0; ieof'')) ''ieof''"
    by (simp add: contains_def has_prefix_def)
  ultimately show ?thesis using fin by (intro exI [of _ "ErrInvalidChunkLength ''0; ieof''"]) simp
qed

lemma read_preview_ok:
  assumes "conn_pending b = wire_body ds t tail" and "length (rbuf b) \<le> buf_size" and "ok_blocks ds"
    and "preview_end t fin" and "\<forall>l. 0 < lib_room lib l"
  shows "\<exists>b1 lost. read_preview lib req b = (Inr (req\<lparr>ir_preview := concat ds, ir_orig := Some (concat ds),
      ir_end := fin\<rparr>, BytesBody (concat ds)), b1) \<and> tail = lost @ conn_pending b1 \<and>
      length (rbuf b1) \<le> buf_size"
proof -
  obtain x where x: "bconn.ends t x"
    "if x = EOF then fin = ''0'' else contains (err_text x) ''ieof'' \<and> fin = ''0; ieof''"
    using preview_ends [OF assms(4)] by blast
  have "length (concat ds) \<le> length (concat (map chunk_encode ds))"
    by (induction ds) (auto simp: chunk_encode_def)
  then have f: "length (concat ds) < in_fuel b" using assms(1) by (simp add: in_fuel_def wire_body_def)
  have "conn.brep b (wire_body ds t tail) (net_err (under b))"
    using assms(1,2) by (simp add: conn_brep_iff)
  from bconn.read_all_chunked [OF this assms(3) x(1), of "lib_room lib", OF _ f] assms(5) obtain c where
    c: "read_all conn_chunked_read (lib_room lib) (in_fuel b) [] (new_chunked_reader b) =
      Some (concat ds, if x = EOF then None else Some x, c)" "bconn.after_rep x tail c []"
    by auto
  from c(2) have "tail = rbuf (cr_r c) @ conn_pending (under (cr_r c))"
      "length (rbuf (under (cr_r c))) \<le> buf_size"
    by (auto simp: bconn.after_rep_def bconn_brep_iff pending2_def)
  with c(1) x(2) show ?thesis
    by (auto simp: read_preview_def Let_def split: if_splits)
qed

text \<open>C5: A REQMOD request with a preview is read with its preview bytes, both as the body of the HTTP
  request and for the later continuation, and the end indicator tells \<open>0\<close> from \<open>0; ieof\<close>. What is left
  of the input is a suffix of what followed the preview: the bytes the preview's own buffer had
  already taken are gone.\<close>

theorem preview_request_read:
  assumes "good_head ''REQMOD'' u p kvs" and "lib_parse_request_uri lib u = Inr ur"
    and "hget (mime_map [] kvs) ''Encapsulated'' = encap_text [(''req-hdr'', 0), (''req-body'', length rq)]"
    and "hget (mime_map [] kvs) ''Preview'' \<noteq> []"
    and "rq \<noteq> []" and "length rq \<le> nat max_alloc" and "lib_read_request lib rq = Inr r"
    and "ok_blocks ds" and "preview_end t fin" and "\<forall>l. 0 < lib_room lib l"
    and "length (rbuf b) \<le> buf_size"
    and "conn_pending b = icap_wire ''REQMOD'' u p kvs (rq @ wire_body ds t tail)"
  shows "\<exists>b' req lost. read_icap_request lib b = Done (Inr req, b') \<and> tail = lost @ conn_pending b' \<and>
           ir_request req = Some (r\<lparr>rq_body := BytesBody (concat ds)\<rparr>) \<and>
           ir_preview req = concat ds \<and> ir_orig req = Some (concat ds) \<and> ir_end req = fin"
proof -
  obtain b1 where b1: "conn_pending b1 = wire_body ds t tail" "length (rbuf b1) \<le> buf_size"
    "read_icap_request lib b = (case read_body_part lib True (reqmod_head u ur p kvs) b1 of
        (Inl err, b4) \<Rightarrow> Done (Inl err, b4)
      | (Inr (req1, bd), b4) \<Rightarrow> Done (Inr (req1\<lparr>ir_request := Some (r\<lparr>rq_body := bd\<rparr>)\<rparr>), b4))"
    using read_reqmod [OF assms(1-3) _ assms(5-7,11,12)] by auto
  with read_preview_ok [OF b1(1,2) assms(8,9,10), of "reqmod_head u ur p kvs"] assms(4) show ?thesis
    by (auto simp: read_body_part_def new_icap_request_def)
qed

lemma sample_preview_mime:
  "hget (mime_map [] [(''Encapsulated'', v), (''Preview'', w)]) ''Encapsulated'' = trim_left_func is_blank v"
  "hget (mime_map [] [(''Encapsulated'', v), (''Preview'', w)]) ''Preview'' = trim_left_func is_blank w"
  by code_simp+

lemma preview_request_read_witness:
  "\<exists>b' req. read_icap_request sample_lib
       \<lparr>rbuf = [], under = \<lparr>segs = [''REQMOD /echo ICAP/1.0'' @ crlf @
          ''Encapsulated: req-hdr=0, req-body=4'' @ crlf @ ''Preview: 4'' @ crlf @ crlf, ''GET/'',
          ''2'' @ crlf @ ''ab'' @ crlf @ ''0; ieof'', crlf], net_err = EOF\<rparr>\<rparr> = Done (Inr req, b') \<and>
       ir_request req = Some (zero_request\<lparr>rq_body := BytesBody ''ab''\<rparr>) \<and> ir_end req = ''0; ieof''"
proof -
  let ?v = "''req-hdr=0, req-body=4''"
  let ?kvs = "[(''Encapsulated'', ?v), (''Preview'', ''4'')]"
  let ?b = "\<lparr>rbuf = [], under = \<lparr>segs = [''REQMOD /echo ICAP/1.0'' @ crlf @
          ''Encapsulated: req-hdr=0, req-body=4'' @ crlf @ ''Preview: 4'' @ crlf @ crlf, ''GET/'',
          ''2'' @ crlf @ ''ab'' @ crlf @ ''0; ieof'', crlf], net_err = EOF\<rparr>\<rparr>"
  have g: "good_head ''REQMOD'' ''/echo'' ''ICAP/1.0'' ?kvs"
    by code_simp
  have v: "?v = encap_text [(''req-hdr'', 0), (''req-body'', length ''GET/'')]"
    by (simp add: encap_text_def encap_item_def itoa_def digits_rev.simps digit_char_def)
  have c: "conn_pending ?b = icap_wire ''REQMOD'' ''/echo'' ''ICAP/1.0'' ?kvs
      (''GET/'' @ wire_body [''ab''] (''0; ieof'' @ crlf) [])"
    by (simp add: conn_pending_def icap_wire_def mime_wire_def wire_body_def chunk_encode_def hex_def
        digits_rev.simps digit_char_def)
  have h: "hget (mime_map [] ?kvs) ''Encapsulated'' = encap_text [(''req-hdr'', 0), (''req-body'', length ''GET/'')]"
    unfolding v [symmetric] by (simp add: sample_preview_mime trim_left_func_def is_blank_def)
  have p: "hget (mime_map [] ?kvs) ''Preview'' \<noteq> []" by (simp add: sample_preview_mime trim_left_func_def is_blank_def)
  have e: "preview_end (''0; ieof'' @ crlf) ''0; ieof''" by (simp add: preview_end_def)
  from preview_request_read [where r = zero_request and lib = sample_lib and rq = "''GET/''",
      OF g _ h p _ _ _ _ e _ _ c]
  show ?thesis by (force simp: sample_lib_def max_alloc_def buf_size_def ok_blocks_def)
qed

lemma rest_of_body:
  assumes "conn_pending (c_in c) = wire_body ds (''0'' @ crlf) tail" and "ok_blocks ds"
    and "length (rbuf (c_in c)) \<le> buf_size" and "\<forall>l. 0 < lib_room lib l" and "ir_orig req = Some pv"
  shows "\<exists>c'. read_the_rest lib req c = (pv @ concat ds, req\<lparr>ir_orig := Some []\<rparr>, c') \<and>
           c_out c' = c_out c @ continue_line"
proof -
  have "length (concat ds) \<le> length (concat (map chunk_encode ds))"
    by (induction ds) (auto simp: chunk_encode_def)
  then have f: "length (concat ds) < in_fuel (c_in c)"
    using assms(1) by (simp add: in_fuel_def wire_body_def)
  have "conn.brep (c_in c) (wire_body ds (''0'' @ crlf) tail) (net_err (under (c_in c)))"
    using assms(1,3) by (simp add: conn_brep_iff)
  from bconn.read_all_chunked [OF this assms(2) bconn.ends_zero, of "lib_room lib", OF _ f] assms(4)
  obtain cr where "read_all conn_chunked_read (lib_room lib) (in_fuel (c_in c)) []
      (new_chunked_reader (c_in c)) = Some (concat ds, None, cr)" by auto
  then show ?thesis by (simp add: read_the_rest_def assms(5))
qed

text \<open>\<open>GetTheRest\<close> delivers what is left of the preview followed by all further chunks, and writes
  the \<open>100 Continue\<close> line before it reads them, when the continuation starts at the next unread byte.\<close>

theorem get_the_rest_complete:
  assumes "conn_pending (c_in c) = wire_body ds (''0'' @ crlf) tail" and "ok_blocks ds"
    and "length (rbuf (c_in c)) \<le> buf_size" and "\<forall>l. 0 < lib_room lib l" and "ir_orig req = Some pv"
  shows "\<exists>c'. read_the_rest lib req c = (pv @ concat ds, req\<lparr>ir_orig := Some []\<rparr>, c') \<and>
           c_out c' = c_out c @ continue_line"
  using rest_of_body [OF assms] .

lemma get_the_rest_complete_witness:
  "\<exists>c'. read_the_rest sample_lib (new_icap_request\<lparr>ir_orig := Some ''ab''\<rparr>)
       \<lparr>c_in = \<lparr>rbuf = [], under = \<lparr>segs = [''2'' @ crlf @ ''c'', ''d'' @ crlf @ ''0'' @ crlf], net_err = EOF\<rparr>\<rparr>,
         c_out = []\<rparr> = (''abcd'', new_icap_request\<lparr>ir_orig := Some []\<rparr>, c') \<and> c_out c' = continue_line"
  using get_the_rest_complete [of "\<lparr>c_in = \<lparr>rbuf = [], under = \<lparr>segs = [''2'' @ crlf @ ''c'', ''d'' @ crlf @
       ''0'' @ crlf], net_err = EOF\<rparr>\<rparr>, c_out = []\<rparr>" "[''cd'']" "[]" sample_lib
      "new_icap_request\<lparr>ir_orig := Some ''ab''\<rparr>" "''ab''"]
  by (simp add: conn_pending_def wire_body_def chunk_encode_def hex_def digits_rev.simps digit_char_def
      ok_blocks_def sample_lib_def)

text \<open>C31: When the empty line that ends the preview is still on the wire, it is taken for the size line
  of the last chunk: \<open>GetTheRest\<close> delivers the preview alone, and the rest of the body, whatever it is,
  is not read. Whether the line is still there depends on how the network cut the preview.\<close>

theorem get_the_rest_lost:
  assumes "conn_pending (c_in c) = crlf @ body" and "length (rbuf (c_in c)) \<le> buf_size"
    and "\<forall>l. 0 < lib_room lib l" and "ir_orig req = Some pv"
  shows "\<exists>c'. read_the_rest lib req c = (pv, req\<lparr>ir_orig := Some []\<rparr>, c')"
proof -
  have t: "trim_trailing_whitespace ([CR] @ [LF]) = []"
    using trim_trailing_whitespace_append [of crlf "[]"] by (simp add: is_ascii_space_def)
  have "conn.brep (c_in c) (wire_body [] ([CR] @ [LF]) body) (net_err (under (c_in c)))"
    using assms(1,2) by (simp add: conn_brep_iff wire_body_def)
  moreover have "bconn.ends ([CR] @ [LF]) EOF"
    by (rule bconn.ends_wrapped [where ds = "[]"]) (simp_all add: t [simplified] max_line_length_def hex_value_def)
  ultimately obtain cr where "read_all conn_chunked_read (lib_room lib) (in_fuel (c_in c)) []
      (new_chunked_reader (c_in c)) = Some ([], None, cr)"
    using bconn.read_all_chunked [of "c_in c" "[]" "[CR] @ [LF]" body "net_err (under (c_in c))" EOF
        "lib_room lib" "in_fuel (c_in c)"] assms(3)
    by (auto simp: in_fuel_def ok_blocks_def)
  then show ?thesis by (simp add: read_the_rest_def assms(4))
qed

lemma get_the_rest_lost_witness:
  "\<exists>c'. read_the_rest sample_lib (new_icap_request\<lparr>ir_orig := Some ''ab''\<rparr>)
       \<lparr>c_in = \<lparr>rbuf = [], under = \<lparr>segs = [crlf, ''2'' @ crlf @ ''cd'' @ crlf @ ''0'' @ crlf], net_err = EOF\<rparr>\<rparr>,
         c_out = []\<rparr> = (''ab'', new_icap_request\<lparr>ir_orig := Some []\<rparr>, c')"
  using get_the_rest_lost [of "\<lparr>c_in = \<lparr>rbuf = [], under = \<lparr>segs = [crlf, ''2'' @ crlf @ ''cd'' @ crlf @
       ''0'' @ crlf], net_err = EOF\<rparr>\<rparr>, c_out = []\<rparr>" "''2'' @ crlf @ ''cd'' @ crlf @ ''0'' @ crlf" sample_lib
      "new_icap_request\<lparr>ir_orig := Some ''ab''\<rparr>" "''ab''"]
  by (simp add: conn_pending_def sample_lib_def)

text \<open>An Encapsulated offset beyond the address space is not rejected but makes the slice allocation
  panic: a request head alone, with no further byte, is enough.\<close>

theorem huge_offset_panics:
  assumes "good_head m u p kvs" and "lib_parse_request_uri lib u = Inr ur"
    and "hget (mime_map [] kvs) ''Encapsulated'' = encap_text [(k, a)]" and "k \<in> {''req-hdr'', ''res-hdr'', ''null-body''}"
    and "nat max_alloc < a" and "a < 2 ^ 63"
    and "length (rbuf b) \<le> buf_size" and "conn_pending b = icap_wire m u p kvs rest"
  shows "\<exists>s. read_icap_request lib b = Panic s"
proof -
  have "CHR '','' \<notin> set k \<and> CHR ''='' \<notin> set k" using assms(4) by auto
  with assms(4,6) have "\<exists>st. parse_encapsulated (encap_text [(k, a)]) = Inr st \<and> initial_offset st = int a"
    by (auto simp: parse_encap_text encap_init_def encap_previous_def encap_key_def)
  then obtain st where st: "parse_encapsulated (encap_text [(k, a)]) = Inr st" "initial_offset st = int a"
    by blast
  have ne: "encap_text [(k, a)] \<noteq> []" by (simp add: encap_text_def encap_item_def)
  have "conn.brep b (icap_wire m u p kvs rest) (net_err (under b))"
    using assms(7,8) by (simp add: conn_brep_iff)
  from conn_source.read_head [OF this assms(1,2)] ne assms(3) st(1) obtain b1 req where
    "read_icap_request lib b = read_sections lib st req b1" by auto
  moreover have "max_alloc < int a" "0 < a" using assms(5) by (auto simp: max_alloc_def)
  ultimately show ?thesis by (simp add: read_sections_def read_section_def st(2))
qed

lemma huge_offset_panics_witness:
  "\<exists>s. read_icap_request sample_lib
       \<lparr>rbuf = ''OPTIONS / ICAP/1.0'' @ crlf @ ''Encapsulated: null-body=9000000000000000000'' @ crlf @ crlf,
         under = \<lparr>segs = [], net_err = EOF\<rparr>\<rparr> = Panic s"
proof -
  let ?v = "''null-body=9000000000000000000''"
  let ?b = "\<lparr>rbuf = ''OPTIONS / ICAP/1.0'' @ crlf @ ''Encapsulated: null-body=9000000000000000000'' @ crlf @ crlf,
         under = \<lparr>segs = [], net_err = EOF\<rparr>\<rparr>"
  have g: "good_head ''OPTIONS'' ''/'' ''ICAP/1.0'' [(''Encapsulated'', ?v)]" by code_simp
  have v: "?v = encap_text [(''null-body'', 9000000000000000000)]"
    by (simp add: encap_text_def encap_item_def itoa_def digits_rev.simps digit_char_def)
  have h: "hget (mime_map [] [(''Encapsulated'', ?v)]) ''Encapsulated'' =
      encap_text [(''null-body'', 9000000000000000000)]"
    unfolding v [symmetric] by (simp add: sample_mime trim_left_func_def is_blank_def)
  have "conn_pending ?b = icap_wire ''OPTIONS'' ''/'' ''ICAP/1.0'' [(''Encapsulated'', ?v)] []"
    by (simp add: conn_pending_def icap_wire_def mime_wire_def)
  from huge_offset_panics [where lib = sample_lib, OF g _ h _ _ _ _ this]
  show ?thesis by (simp add: sample_lib_def max_alloc_def buf_size_def)
qed

end
