(* ===== verification/IcapResponse.thy ===== *)
theory IcapResponse
  imports IcapRequest
begin

text \<open>
  \<open>icap/response.go\<close>, \<open>icap/status.go\<close> and \<open>icap/bridge.go\<close>: the response writer of the server.

  The writer owns the connection while a request is handled. Output is collected in \<open>c_out\<close>; the
  \<open>bufio.Writer\<close> in between delays it but does not change it, and write errors of the socket are not
  modelled. The chunked writer of \<open>net/http/httputil\<close> writes what \<^const>\<open>chunked_write\<close> writes.
\<close>

section \<open>Status texts\<close>

definition status_table :: "(nat \<times> string) list" where
  "status_table =
    [(100, ''Continue after ICAP Preview''), (204, ''No modifications needed''), (400, ''Bad request''),
     (404, ''ICAP Service not found''), (405, ''Method not allowed for service''),
     (408, ''Request timeout''), (500, ''Server error''), (501, ''Method not implemented''),
     (502, ''Bad Gateway''), (503, ''Service overloaded''),
     (505, ''ICAP version not supported by server'')]"

definition status_text :: "nat \<Rightarrow> string" where
  "status_text code =
     (case map_of status_table code of Some text \<Rightarrow> text | None \<Rightarrow> http_status_text code)"

section \<open>The writer\<close>

text \<open>
  \<open>rw_chunked\<close> tells that the writer has a chunked writer for a body; of the request only the method is
  used.
\<close>

record resp_writer =
  rw_conn :: conn_io
  rw_method :: string
  rw_header :: header
  rw_wrote_header :: bool
  rw_wrote_raw :: bool
  rw_chunked :: bool

datatype http_msg = NoMsg | ReqMsg http_request | RespMsg http_response

definition rw_out :: "resp_writer \<Rightarrow> bytes" where
  "rw_out w = c_out (rw_conn w)"

definition rw_emit :: "bytes \<Rightarrow> resp_writer \<Rightarrow> resp_writer" where
  "rw_emit bs w = w\<lparr>rw_conn := (rw_conn w)\<lparr>c_out := c_out (rw_conn w) @ bs\<rparr>\<rparr>"

section \<open>HTTP headers\<close>

definition http_request_header :: "http_lib \<Rightarrow> http_request \<Rightarrow> bytes" where
  "http_request_header lib req =
     (let proto = (if rq_proto req = [] then ''HTTP/1.1'' else rq_proto req)
      in rq_method req @ SP # lib_url_string lib (rq_url req) @ SP # proto @ crlf @
         (if map_of (rq_header req) ''X-Icap-206'' \<noteq> None
          then header_write (rq_header req)
          else header_write_subset (rq_header req) (\<lambda>k. k = ''Transfer-Encoding'')) @ crlf)"

definition http_response_header :: "http_response \<Rightarrow> bytes" where
  "http_response_header resp =
     (let text = (if rs_status resp = []
                  then (if http_status_text (rs_code resp) = []
                        then ''status code '' @ itoa (rs_code resp)
                        else http_status_text (rs_code resp))
                  else rs_status resp);
          proto = (if rs_proto resp = [] then ''HTTP/1.1'' else rs_proto resp)
      in proto @ SP # text @ crlf @
         (if map_of (rs_header resp) ''X-Icap-206'' \<noteq> None
          then header_write (rs_header resp)
          else header_write_subset (rs_header resp) (\<lambda>k. False)) @ crlf)"

section \<open>Operations\<close>

definition msg_header :: "http_lib \<Rightarrow> http_msg \<Rightarrow> bytes option" where
  "msg_header lib msg =
     (case msg of
        NoMsg \<Rightarrow> None
      | ReqMsg r \<Rightarrow> Some (http_request_header lib r)
      | RespMsg r \<Rightarrow> Some (http_response_header r))"

definition encap_value :: "http_lib \<Rightarrow> string \<Rightarrow> http_msg \<Rightarrow> bool \<Rightarrow> string" where
  "encap_value lib meth msg hasbody =
     (case msg of
        ReqMsg r \<Rightarrow>
          (if hasbody then ''req-hdr=0, req-body='' @ itoa (length (http_request_header lib r))
           else ''req-hdr=0, null-body='' @ itoa (length (http_request_header lib r)))
      | RespMsg r \<Rightarrow>
          (if hasbody then ''res-hdr=0, res-body='' @ itoa (length (http_response_header r))
           else ''res-hdr=0, null-body='' @ itoa (length (http_response_header r)))
      | NoMsg \<Rightarrow>
          (if hasbody then to_lower (if 3 < length meth then take 3 meth else meth) @ ''-body=0''
           else ''null-body=0''))"

definition status_line :: "nat \<Rightarrow> bytes" where
  "status_line code =
     (let status = (if status_text code = [] then ''status code '' @ itoa code else status_text code)
      in ''ICAP/1.0 '' @ itoa code @ SP # status @ crlf)"

text \<open>\<open>w.cw.Write(p)\<close>\<close>

definition cw_write :: "bytes \<Rightarrow> resp_writer \<Rightarrow> nat \<times> go_error option \<times> resp_writer" where
  "cw_write p w =
     (case chunked_write append_write p (rw_out w) of
        (n, err, out) \<Rightarrow> (n, err, w\<lparr>rw_conn := (rw_conn w)\<lparr>c_out := out\<rparr>\<rparr>))"

definition write_msg_body :: "http_lib \<Rightarrow> http_msg \<Rightarrow> resp_writer \<Rightarrow> resp_writer outcome" where
  "write_msg_body lib msg w =
     (case (case msg of NoMsg \<Rightarrow> None | ReqMsg r \<Rightarrow> Some (rq_body r) | RespMsg r \<Rightarrow> Some (rs_body r)) of
        None \<Rightarrow> Done w
      | Some bd \<Rightarrow>
          bind_outcome (read_body lib bd (rw_conn w)) (\<lambda>(bs, err, bd', c).
            Done (snd (snd (cw_write bs (w\<lparr>rw_conn := c\<rparr>))))))"

definition write_header :: "http_lib \<Rightarrow> nat \<Rightarrow> http_msg \<Rightarrow> bool \<Rightarrow> resp_writer \<Rightarrow> resp_writer outcome" where
  "write_header lib code msg hasbody w =
     (if rw_wrote_header w then Done w
      else
        (let h1 = hset (rw_header w) ''Encapsulated'' (encap_value lib (rw_method w) msg hasbody);
             h2 = (if map_of h1 ''Date'' = None then hset h1 ''Date'' (lib_now lib) else h1);
             w1 = rw_emit (status_line code @ header_write h2 @ crlf @
                           (case msg_header lib msg of None \<Rightarrow> [] | Some hdr \<Rightarrow> hdr))
                    (w\<lparr>rw_header := h2\<rparr>);
             w2 = w1\<lparr>rw_wrote_header := True, rw_chunked := rw_chunked w1 \<or> hasbody\<rparr>
         in if hasbody then write_msg_body lib msg w2 else Done w2))"

definition rw_write :: "http_lib \<Rightarrow> bytes \<Rightarrow> resp_writer \<Rightarrow> (nat \<times> go_error option \<times> resp_writer) outcome" where
  "rw_write lib p w =
     bind_outcome (if rw_wrote_header w then Done w else write_header lib 200 NoMsg True w) (\<lambda>w1.
       Done (if \<not> rw_chunked w1
             then (0, Some (ErrText ''called Write() on an icap.ResponseWriter that should not have a body''), w1)
             else cw_write p w1))"

definition write_raw :: "string \<Rightarrow> resp_writer \<Rightarrow> resp_writer" where
  "write_raw p w = (rw_emit p w)\<lparr>rw_wrote_raw := True\<rparr>"

definition finish_request :: "http_lib \<Rightarrow> resp_writer \<Rightarrow> resp_writer outcome" where
  "finish_request lib w =
     bind_outcome (if rw_wrote_header w then Done w else write_header lib 200 NoMsg False w) (\<lambda>w1.
       Done (if rw_chunked w1 \<and> \<not> rw_wrote_raw w1
             then (rw_emit (snd (chunked_close append_write []) @ crlf) w1)\<lparr>rw_chunked := False\<rparr>
             else w1))"

section \<open>The bridge to HTTP handlers\<close>

record bridged_writer =
  br_irw :: resp_writer
  br_header :: header
  br_wrote_header :: bool

definition new_bridged_writer :: "resp_writer \<Rightarrow> bridged_writer" where
  "new_bridged_writer w = \<lparr>br_irw = w, br_header = [], br_wrote_header = False\<rparr>"

definition bridged_write_header :: "http_lib \<Rightarrow> nat \<Rightarrow> bridged_writer \<Rightarrow> bridged_writer outcome" where
  "bridged_write_header lib code w =
     (if br_wrote_header w then Done w
      else
        (let h1 = (if hget (br_header w) ''Content-Type'' = []
                   then hset (br_header w) ''Content-Type'' ''text/html; charset=utf-8'' else br_header w);
             h2 = (if map_of h1 ''Date'' = None then hset h1 ''Date'' (lib_now lib) else h1);
             resp = \<lparr>rs_code = code, rs_status = [], rs_proto = [], rs_header = h2, rs_body = NilBody,
                     rs_request = None\<rparr>
         in bind_outcome (write_header lib 200 (RespMsg resp) True (br_irw w)) (\<lambda>irw.
              Done (w\<lparr>br_irw := irw, br_header := h2, br_wrote_header := True\<rparr>))))"

definition bridged_write :: "http_lib \<Rightarrow> bytes \<Rightarrow> bridged_writer \<Rightarrow>
    (nat \<times> go_error option \<times> bridged_writer) outcome" where
  "bridged_write lib p w =
     bind_outcome (if br_wrote_header w then Done w else bridged_write_header lib 200 w) (\<lambda>w1.
     bind_outcome (rw_write lib p (br_irw w1)) (\<lambda>(n, err, irw).
       Done (n, err, w1\<lparr>br_irw := irw\<rparr>)))"

section \<open>What a response looks like on the wire\<close>

text \<open>The header of the response and the encapsulated part it announces.\<close>

definition response_header :: "http_lib \<Rightarrow> http_msg \<Rightarrow> bool \<Rightarrow> resp_writer \<Rightarrow> header" where
  "response_header lib msg hasbody w =
     (let h1 = hset (rw_header w) ''Encapsulated'' (encap_value lib (rw_method w) msg hasbody)
      in if map_of h1 ''Date'' = None then hset h1 ''Date'' (lib_now lib) else h1)"

text \<open>The writer behind the header, before a body is written.\<close>

definition header_written :: "http_lib \<Rightarrow> nat \<Rightarrow> http_msg \<Rightarrow> bool \<Rightarrow> resp_writer \<Rightarrow> resp_writer" where
  "header_written lib code msg hasbody w =
     (rw_emit (status_line code @ header_write (response_header lib msg hasbody w) @ crlf @
        (case msg_header lib msg of None \<Rightarrow> [] | Some hdr \<Rightarrow> hdr)) (w\<lparr>rw_header := response_header lib msg hasbody w\<rparr>))
      \<lparr>rw_wrote_header := True, rw_chunked := rw_chunked w \<or> hasbody\<rparr>"

lemma write_header_eq:
  "write_header lib code msg hasbody w =
     (if rw_wrote_header w then Done w
      else if hasbody then write_msg_body lib msg (header_written lib code msg hasbody w)
      else Done (header_written lib code msg hasbody w))"
  by (simp add: write_header_def header_written_def response_header_def rw_emit_def Let_def)

lemma response_header_encapsulated:
  "hget (response_header lib msg hasbody w) ''Encapsulated'' = encap_value lib (rw_method w) msg hasbody"
proof -
  have "canonical_key ''Date'' \<noteq> canonical_key ''Encapsulated''" by code_simp
  then show ?thesis by (simp add: response_header_def Let_def hget_hset)
qed

lemma encap_value_text:
  "encap_value lib m (RespMsg r) hb =
     encap_text [(''res-hdr'', 0), (if hb then ''res-body'' else ''null-body'', length (http_response_header r))]"
  "encap_value lib m (ReqMsg q) hb =
     encap_text [(''req-hdr'', 0), (if hb then ''req-body'' else ''null-body'', length (http_request_header lib q))]"
  by (simp_all add: encap_value_def encap_text_def encap_item_def itoa_def digits_rev.simps digit_char_def)

lemma rw_emit_simps [simp]:
  "rw_out (rw_emit bs w) = rw_out w @ bs" "rw_header (rw_emit bs w) = rw_header w"
  "rw_wrote_header (rw_emit bs w) = rw_wrote_header w" "rw_wrote_raw (rw_emit bs w) = rw_wrote_raw w"
  "rw_chunked (rw_emit bs w) = rw_chunked w" "c_in (rw_conn (rw_emit bs w)) = c_in (rw_conn w)"
  by (simp_all add: rw_emit_def rw_out_def)

lemma rw_out_update [simp]:
  "rw_out (w\<lparr>rw_header := h\<rparr>) = rw_out w" "rw_out (w\<lparr>rw_wrote_header := b\<rparr>) = rw_out w"
  "rw_out (w\<lparr>rw_chunked := b\<rparr>) = rw_out w" "rw_out (w\<lparr>rw_wrote_raw := b\<rparr>) = rw_out w"
  by (simp_all add: rw_out_def)

lemma cw_write_out:
  "cw_write p w = (length p, None, rw_emit (if p = [] then [] else chunk_encode p) w)"
  using out_writer.chunked_write_out [of p "rw_out w"]
  by (auto simp: cw_write_def rw_emit_def rw_out_def)

lemma finish_chunked:
  assumes "rw_wrote_header w" and "rw_chunked w" and "\<not> rw_wrote_raw w"
  shows "finish_request lib w = Done ((rw_emit (''0'' @ crlf @ crlf) w)\<lparr>rw_chunked := False\<rparr>)"
  using assms out_writer.chunked_close_out [of "[]"] by (auto simp: finish_request_def)

text \<open>A message whose body is a byte buffer (every body a service returns).\<close>

lemma write_header_bytes:
  assumes "\<not> rw_wrote_header w"
    and "msg = ReqMsg q \<and> rq_body q = BytesBody bs \<or> msg = RespMsg r \<and> rs_body r = BytesBody bs"
    and "msg_header lib msg = Some hdr"
  shows "\<exists>w'. write_header lib code msg True w = Done w' \<and> rw_wrote_header w' \<and> rw_chunked w' \<and>
     rw_wrote_raw w' = rw_wrote_raw w \<and> rw_header w' = response_header lib msg True w \<and>
     rw_out w' = rw_out w @ status_line code @ header_write (rw_header w') @ crlf @ hdr @
       (if bs = [] then [] else chunk_encode bs)"
proof -
  let ?h = "response_header lib msg True w"
  let ?w = "(rw_emit (status_line code @ header_write ?h @ crlf @ hdr) (w\<lparr>rw_header := ?h\<rparr>))
      \<lparr>rw_wrote_header := True, rw_chunked := True\<rparr>"
  have "write_header lib code msg True w = write_msg_body lib msg ?w"
    using assms(1,3) by (simp add: write_header_def response_header_def Let_def)
  moreover have "write_msg_body lib msg ?w = Done (rw_emit (if bs = [] then [] else chunk_encode bs) ?w)"
    using assms(2) by (auto simp: write_msg_body_def read_body_def cw_write_out)
  ultimately show ?thesis by simp
qed

section \<open>Properties\<close>

text \<open>C20: A response with an HTTP message and a body buffer is, byte for byte, the ICAP status line, the
  ICAP header with its empty line, the HTTP header, the body as one chunk and the last chunk with its
  empty line; and the Encapsulated header of it, read back by the server's own parser, gives the length
  of exactly that HTTP header.\<close>

theorem response_layout:
  assumes "\<not> rw_wrote_header w" and "\<not> rw_wrote_raw w"
    and "msg = ReqMsg q \<and> rq_body q = BytesBody bs \<or> msg = RespMsg r \<and> rs_body r = BytesBody bs"
    and "msg_header lib msg = Some hdr" and "length hdr < 2 ^ 63"
  shows "\<exists>w' st. bind_outcome (write_header lib code msg True w) (finish_request lib) = Done w' \<and>
     rw_out w' = rw_out w @ status_line code @ header_write (rw_header w') @ crlf @ hdr @
       wire_body (if bs = [] then [] else [bs]) (''0'' @ crlf) crlf \<and>
     parse_encapsulated (hget (rw_header w') ''Encapsulated'') = Inr st \<and> initial_offset st = 0 \<and>
     req_hdr_len st + resp_hdr_len st = int (length hdr) \<and> has_body st"
proof -
  from write_header_bytes [OF assms(1,3,4)] obtain w1 where
    w1: "write_header lib code msg True w = Done w1" "rw_wrote_header w1" "rw_chunked w1"
    "rw_wrote_raw w1 = rw_wrote_raw w" "rw_header w1 = response_header lib msg True w"
    "rw_out w1 = rw_out w @ status_line code @ header_write (rw_header w1) @ crlf @ hdr @
       (if bs = [] then [] else chunk_encode bs)" by blast
  let ?w2 = "(rw_emit (''0'' @ crlf @ crlf) w1)\<lparr>rw_chunked := False\<rparr>"
  have "finish_request lib w1 = Done ?w2"
    using finish_chunked [OF w1(2,3)] w1(4) assms(2) by simp
  moreover have "\<exists>st. parse_encapsulated (encap_value lib (rw_method w) msg True) = Inr st \<and>
      initial_offset st = 0 \<and> req_hdr_len st + resp_hdr_len st = int (length hdr) \<and> has_body st"
    using assms(3,4,5) encapsulated_lengths(1,2) [of 0 "length hdr" "length hdr"]
    by (auto simp: encap_value_text msg_header_def)
  ultimately show ?thesis
    using w1(1,5,6) by (auto simp: response_header_encapsulated wire_body_def)
qed

lemma response_layout_witness:
  "\<exists>w' st. bind_outcome (write_header sample_lib 200 (RespMsg (sample_response\<lparr>rs_body := BytesBody ''hi''\<rparr>)) True
       \<lparr>rw_conn = \<lparr>c_in = \<lparr>rbuf = [], under = \<lparr>segs = [], net_err = EOF\<rparr>\<rparr>, c_out = []\<rparr>, rw_method = ''RESPMOD'',
         rw_header = [], rw_wrote_header = False, rw_wrote_raw = False, rw_chunked = False\<rparr>)
       (finish_request sample_lib) = Done w' \<and>
     parse_encapsulated (hget (rw_header w') ''Encapsulated'') = Inr st \<and>
     req_hdr_len st + resp_hdr_len st = 19"
proof -
  let ?r = "sample_response\<lparr>rs_body := BytesBody ''hi''\<rparr>"
  have h: "http_response_header ?r = ''HTTP/1.1 200 OK'' @ crlf @ crlf"
    by (simp add: http_response_header_def sample_response_def header_write_subset_def)
  then have "msg_header sample_lib (RespMsg ?r) = Some (''HTTP/1.1 200 OK'' @ crlf @ crlf)"
    by (simp add: msg_header_def)
  from response_layout [of "\<lparr>rw_conn = \<lparr>c_in = \<lparr>rbuf = [], under = \<lparr>segs = [], net_err = EOF\<rparr>\<rparr>, c_out = []\<rparr>,
      rw_method = ''RESPMOD'', rw_header = [], rw_wrote_header = False, rw_wrote_raw = False,
      rw_chunked = False\<rparr>", OF _ _ _ this, of zero_request "''hi''" ?r 200]
  show ?thesis by auto
qed

text \<open>Any number of writes of any sizes after the header, followed by the end of the request, puts
  the blocks on the wire in order as a well-formed chunked body with exactly one last chunk; empty writes
  leave no trace.\<close>

theorem body_writes_layout:
  assumes "rw_wrote_header w" and "rw_chunked w" and "\<not> rw_wrote_raw w"
  shows "\<exists>w'. bind_outcome (foldl (\<lambda>m p. bind_outcome m (\<lambda>w. bind_outcome (rw_write lib p w)
             (\<lambda>(n, err, w'). Done w'))) (Done w) ps) (finish_request lib) = Done w' \<and>
           rw_out w' = rw_out w @ wire_body (filter (\<lambda>p. p \<noteq> []) ps) (''0'' @ crlf) crlf"
  using assms
proof (induction ps arbitrary: w)
  case Nil
  from finish_chunked [OF Nil.prems] show ?case by (simp add: wire_body_def)
next
  case (Cons p ps)
  let ?w = "rw_emit (if p = [] then [] else chunk_encode p) w"
  have "rw_write lib p w = Done (length p, None, ?w)"
    using Cons.prems by (simp add: rw_write_def cw_write_out)
  with Cons.IH [of ?w] Cons.prems show ?case by (cases "p = []") (simp_all add: wire_body_def)
qed

lemma body_writes_layout_witness:
  "\<exists>w'. bind_outcome (foldl (\<lambda>m p. bind_outcome m (\<lambda>w. bind_outcome (rw_write sample_lib p w)
             (\<lambda>(n, err, w'). Done w')))
       (Done \<lparr>rw_conn = \<lparr>c_in = \<lparr>rbuf = [], under = \<lparr>segs = [], net_err = EOF\<rparr>\<rparr>, c_out = []\<rparr>, rw_method = ''RESPMOD'',
         rw_header = [], rw_wrote_header = True, rw_wrote_raw = False, rw_chunked = True\<rparr>) [''ab'', [], ''c''])
       (finish_request sample_lib) = Done w' \<and>
     rw_out w' = ''2'' @ crlf @ ''ab'' @ crlf @ ''1'' @ crlf @ ''c'' @ crlf @ ''0'' @ crlf @ crlf"
  using body_writes_layout [of "\<lparr>rw_conn = \<lparr>c_in = \<lparr>rbuf = [], under = \<lparr>segs = [], net_err = EOF\<rparr>\<rparr>, c_out = []\<rparr>,
      rw_method = ''RESPMOD'', rw_header = [], rw_wrote_header = True, rw_wrote_raw = False,
      rw_chunked = True\<rparr>" sample_lib "[''ab'', [], ''c'']"]
  by (simp add: wire_body_def chunk_encode_def hex_def digits_rev.simps digit_char_def rw_out_def)

text \<open>Answering through the bridge for \<open>net/http\<close> handlers panics on the first header or write: the
  bridge announces a body for a response that has none, and \<open>WriteHeader\<close> reads that nil body.\<close>

theorem bridge_panics:
  assumes "\<not> br_wrote_header w" and "\<not> rw_wrote_header (br_irw w)"
  shows "bridged_write_header lib code w = Panic ''nil body'' \<and> bridged_write lib p w = Panic ''nil body''"
  using assms
  by (simp_all add: bridged_write_def bridged_write_header_def write_header_def write_msg_body_def
      read_body_def rw_emit_def Let_def)

lemma bridge_panics_witness:
  "bridged_write sample_lib ''hello'' (new_bridged_writer
     \<lparr>rw_conn = \<lparr>c_in = \<lparr>rbuf = [], under = \<lparr>segs = [], net_err = EOF\<rparr>\<rparr>, c_out = []\<rparr>, rw_method = ''REQMOD'',
       rw_header = [], rw_wrote_header = False, rw_wrote_raw = False, rw_chunked = False\<rparr>) = Panic ''nil body''"
  by (rule conjunct2 [OF bridge_panics]) (simp_all add: new_bridged_writer_def)

end
