(* ===== verification/Base64.thy ===== *)
theory Base64
  imports GoStrings
begin

text \<open>
  \<open>encoding/base64\<close>, standard alphabet with padding, as the program uses it: encoding, the lenient
  decoder (line breaks are skipped; on corrupt input the bytes of the groups before it are returned
  with an error) and the test for base64 text of \<open>ContentTypes/regularFile.go\<close>.
\<close>

definition b64_alphabet :: string where
  "b64_alphabet = ''ABCDEFGHIJKLMNOPQRSTUVWXYZabcdefghijklmnopqrstuvwxyz0123456789+/''"

definition b64_char :: "nat \<Rightarrow> char" where
  "b64_char n = b64_alphabet ! n"

definition b64_value :: "char \<Rightarrow> nat option" where
  "b64_value ch =
     (let n = of_char ch :: nat in
      if 65 \<le> n \<and> n \<le> 90 then Some (n - 65)
      else if 97 \<le> n \<and> n \<le> 122 then Some (n - 71)
      else if 48 \<le> n \<and> n \<le> 57 then Some (n + 4)
      else if n = 43 then Some 62
      else if n = 47 then Some 63
      else None)"

abbreviation byte_of :: "nat \<Rightarrow> char" where
  "byte_of n \<equiv> char_of n"

fun b64_encode :: "bytes \<Rightarrow> string" where
  "b64_encode [] = []"
| "b64_encode [a] =
     (let x = of_char a in [b64_char (x div 4), b64_char (x mod 4 * 16), CHR ''='', CHR ''=''])"
| "b64_encode [a, b] =
     (let x = of_char a; y = of_char b
      in [b64_char (x div 4), b64_char (x mod 4 * 16 + y div 16), b64_char (y mod 16 * 4), CHR ''=''])"
| "b64_encode (a # b # c # r) =
     (let x = of_char a; y = of_char b; z = of_char c
      in b64_char (x div 4) # b64_char (x mod 4 * 16 + y div 16) # b64_char (y mod 16 * 4 + z div 64) #
         b64_char (z mod 64) # b64_encode r)"

text \<open>The groups of four; the second component is false on an error.\<close>

fun b64_groups :: "string \<Rightarrow> bytes \<times> bool" where
  "b64_groups [] = ([], True)"
| "b64_groups (a # b # c # d # r) =
     (case (b64_value a, b64_value b) of
        (Some x, Some y) \<Rightarrow>
          (if c = CHR ''=''
           then (if d = CHR ''='' then ([byte_of (x * 4 + y div 16)], r = []) else ([], False))
           else (case b64_value c of
                   None \<Rightarrow> ([], False)
                 | Some z \<Rightarrow>
                     if d = CHR ''='' then ([byte_of (x * 4 + y div 16), byte_of (y mod 16 * 16 + z div 4)], r = [])
                     else (case b64_value d of
                             None \<Rightarrow> ([], False)
                           | Some w \<Rightarrow>
                               (case b64_groups r of (bs, ok) \<Rightarrow>
                                  (byte_of (x * 4 + y div 16) # byte_of (y mod 16 * 16 + z div 4) #
                                   byte_of (z mod 4 * 64 + w) # bs, ok)))))
      | _ \<Rightarrow> ([], False))"
| "b64_groups s = ([], False)"

definition b64_decode :: "string \<Rightarrow> bytes \<times> bool" where
  "b64_decode s = b64_groups (filter (\<lambda>c. c \<noteq> CR \<and> c \<noteq> LF) s)"

text \<open>
  The regular expression \<open>^([A-Za-z0-9+/]{4})*([A-Za-z0-9+/]{3}=|[A-Za-z0-9+/]{2}==)?$\<close>.
\<close>

fun looks_base64 :: "string \<Rightarrow> bool" where
  "looks_base64 [] = True"
| "looks_base64 (a # b # c # d # r) =
     (b64_value a \<noteq> None \<and> b64_value b \<noteq> None \<and>
      (b64_value c \<noteq> None \<and> b64_value d \<noteq> None \<and> looks_base64 r \<or>
       b64_value c \<noteq> None \<and> d = CHR ''='' \<and> r = [] \<or>
       c = CHR ''='' \<and> d = CHR ''='' \<and> r = []))"
| "looks_base64 s = False"

section \<open>Round trip\<close>

lemma b64_char_cases:
  assumes "n < 64"
  shows "(of_char (b64_char n) :: nat) =
    (if n < 26 then n + 65 else if n < 52 then n + 71 else if n < 62 then n - 4 else if n = 62 then 43 else 47)"
proof -
  have "\<forall>n \<in> {0..<64}. (of_char (b64_char n) :: nat) =
    (if n < 26 then n + 65 else if n < 52 then n + 71 else if n < 62 then n - 4 else if n = 62 then 43 else 47)"
    by (simp add: atLeastLessThan_nat_numeral b64_char_def b64_alphabet_def)
  with assms show ?thesis by simp
qed

lemma b64_value_char [simp]: "n < 64 \<Longrightarrow> b64_value (b64_char n) = Some n"
  by (auto simp: b64_value_def b64_char_cases Let_def)

lemma b64_char_plain: "n < 64 \<Longrightarrow> b64_char n \<noteq> CHR ''='' \<and> b64_char n \<noteq> CR \<and> b64_char n \<noteq> LF"
  using b64_char_cases [of n] by (auto split: if_splits)

lemma of_char_byte: "(of_char (c::char) :: nat) < 256"
  by (rule nat_of_char_less_256)

text \<open>The arithmetic of one group.\<close>

lemma group_bounds:
  assumes "x < 256" and "y < 256" and "z < 256"
  shows "x div 4 < (64::nat)" and "x mod 4 * 16 + y div 16 < 64" and "y mod 16 * 4 + z div 64 < 64"
    and "x mod 4 * 16 < 64" and "y mod 16 * 4 < 64" and "z mod 64 < 64"
  using assms by arith+

lemma pack_div: "(k::nat) < n \<Longrightarrow> (m * n + k) div n = m"
  by simp

lemma pack_mod: "(k::nat) < n \<Longrightarrow> (m * n + k) mod n = k"
  by simp

lemma group_values:
  assumes "x < 256" and "y < 256" and "z < (256::nat)"
  shows "x div 4 * 4 + (x mod 4 * 16 + y div 16) div 16 = x" and "x div 4 * 4 + x mod 4 * 16 div 16 = x"
    and "(x mod 4 * 16 + y div 16) mod 16 * 16 + (y mod 16 * 4 + z div 64) div 4 = y"
    and "(x mod 4 * 16 + y div 16) mod 16 * 16 + y mod 16 * 4 div 4 = y"
    and "(y mod 16 * 4 + z div 64) mod 4 * 64 + z mod 64 = z"
proof -
  have y: "y div 16 < 16" and z: "z div 64 < 4" using assms by simp_all
  show "x div 4 * 4 + (x mod 4 * 16 + y div 16) div 16 = x"
    using pack_div [OF y, of "x mod 4"] by simp
  show "x div 4 * 4 + x mod 4 * 16 div 16 = x" by simp
  show "(x mod 4 * 16 + y div 16) mod 16 * 16 + (y mod 16 * 4 + z div 64) div 4 = y"
    using pack_mod [OF y, of "x mod 4"] pack_div [OF z, of "y mod 16"] by simp
  show "(x mod 4 * 16 + y div 16) mod 16 * 16 + y mod 16 * 4 div 4 = y"
    using pack_mod [OF y, of "x mod 4"] by simp
  show "(y mod 16 * 4 + z div 64) mod 4 * 64 + z mod 64 = z"
    using pack_mod [OF z, of "y mod 16"] by simp
qed

lemma b64_groups_encode: "b64_groups (b64_encode bs) = (bs, True)"
proof (induction bs rule: b64_encode.induct)
  case (2 a)
  let ?x = "of_char a :: nat"
  have "?x < 256" by (rule of_char_byte)
  then show ?case using group_bounds [of ?x 0 0] group_values [of ?x 0 0] by (simp add: Let_def)
next
  case (3 a b)
  let ?x = "of_char a :: nat" and ?y = "of_char b :: nat"
  have "?x < 256" "?y < 256" by (rule of_char_byte)+
  then show ?case using group_bounds [of ?x ?y 0] group_values [of ?x ?y 0] b64_char_plain
    by (simp add: Let_def)
next
  case (4 a b c r)
  let ?x = "of_char a :: nat" and ?y = "of_char b :: nat" and ?z = "of_char c :: nat"
  have "?x < 256" "?y < 256" "?z < 256" by (rule of_char_byte)+
  then show ?case using 4 group_bounds [of ?x ?y ?z] group_values [of ?x ?y ?z] b64_char_plain
    by (simp add: Let_def)
qed simp

lemma b64_encode_plain: "list_all (\<lambda>c. c \<noteq> CR \<and> c \<noteq> LF) (b64_encode bs)"
proof (induction bs rule: b64_encode.induct)
  case (2 a)
  then show ?case using group_bounds [of "of_char a" 0 0] of_char_byte [of a]
    by (simp add: Let_def b64_char_plain)
next
  case (3 a b)
  then show ?case using group_bounds [of "of_char a" "of_char b" 0] of_char_byte [of a] of_char_byte [of b]
    by (simp add: Let_def b64_char_plain)
next
  case (4 a b c r)
  then show ?case
    using group_bounds [of "of_char a" "of_char b" "of_char c"] of_char_byte [of a] of_char_byte [of b]
      of_char_byte [of c]
    by (simp add: Let_def b64_char_plain)
qed simp

lemma b64_roundtrip: "b64_decode (b64_encode bs) = (bs, True)"
proof -
  have "filter (\<lambda>c. c \<noteq> CR \<and> c \<noteq> LF) (b64_encode bs) = b64_encode bs"
    using b64_encode_plain [of bs] by (intro filter_True) (simp add: list_all_iff)
  then show ?thesis by (simp add: b64_decode_def b64_groups_encode)
qed

lemma looks_base64_encode: "looks_base64 (b64_encode bs)"
proof (induction bs rule: b64_encode.induct)
  case (2 a)
  then show ?case using group_bounds [of "of_char a" 0 0] of_char_byte [of a] by (simp add: Let_def)
next
  case (3 a b)
  then show ?case using group_bounds [of "of_char a" "of_char b" 0] of_char_byte [of a] of_char_byte [of b]
    by (simp add: Let_def)
next
  case (4 a b c r)
  then show ?case
    using group_bounds [of "of_char a" "of_char b" "of_char c"] of_char_byte [of a] of_char_byte [of b]
      of_char_byte [of c]
    by (simp add: Let_def)
qed simp

end
