(* ===== verification/Multipart.thy ===== *)
theory Multipart
  imports GoHttp
begin

text \<open>
  What the program uses of \<open>mime/multipart\<close>: the writer of form fields and files. The state is what was
  written, the boundary and whether a part was begun. The random boundary of a new writer is a parameter.
\<close>

record form_writer =
  fw_out :: bytes
  fw_boundary :: string
  fw_part :: bool

definition new_form_writer :: "string \<Rightarrow> form_writer" where
  "new_form_writer random = \<lparr>fw_out = [], fw_boundary = random, fw_part = False\<rparr>"

definition boundary_chars :: string where
  "boundary_chars = ''ABCDEFGHIJKLMNOPQRSTUVWXYZabcdefghijklmnopqrstuvwxyz0123456789'' @ [QUOTE] @ ''()+_,-./:=?''"

definition valid_boundary :: "string \<Rightarrow> bool" where
  "valid_boundary b \<longleftrightarrow>
     0 < length b \<and> length b \<le> 70 \<and> list_all (\<lambda>c. c \<in> set boundary_chars \<or> c = SP) b \<and> last b \<noteq> SP"

text \<open>\<open>SetBoundary\<close>, whose error the program drops: the boundary stays what it was.\<close>

definition set_boundary :: "string \<Rightarrow> form_writer \<Rightarrow> form_writer" where
  "set_boundary b w = (if \<not> fw_part w \<and> valid_boundary b then w\<lparr>fw_boundary := b\<rparr> else w)"

definition escape_quotes :: "string \<Rightarrow> string" where
  "escape_quotes s = concat (map (\<lambda>c. if c = CHR 0x5C \<or> c = CHR 0x22 then [CHR 0x5C, c] else [c]) s)"

text \<open>\<open>CreatePart\<close>, on a header in the order of its keys, and what is written to the part.\<close>

definition create_part :: "(string \<times> string) list \<Rightarrow> form_writer \<Rightarrow> form_writer" where
  "create_part h w =
     w\<lparr>fw_out := fw_out w @ (if fw_part w then crlf else []) @ ''--'' @ fw_boundary w @ crlf @
         concat (map (\<lambda>(k, v). k @ '': '' @ v @ crlf) h) @ crlf,
       fw_part := True\<rparr>"

definition part_write :: "bytes \<Rightarrow> form_writer \<Rightarrow> form_writer" where
  "part_write bs w = w\<lparr>fw_out := fw_out w @ bs\<rparr>"

definition in_quotes :: "string \<Rightarrow> string" where
  "in_quotes s = [CHR 0x22] @ escape_quotes s @ [CHR 0x22]"

definition field_header :: "string \<Rightarrow> (string \<times> string) list" where
  "field_header name = [(''Content-Disposition'', ''form-data; name='' @ in_quotes name)]"

definition file_header :: "string \<Rightarrow> string \<Rightarrow> (string \<times> string) list" where
  "file_header name file_name =
     [(''Content-Disposition'', ''form-data; name='' @ in_quotes name @ ''; filename='' @ in_quotes file_name),
      (''Content-Type'', ''application/octet-stream'')]"

definition write_field :: "string \<Rightarrow> bytes \<Rightarrow> form_writer \<Rightarrow> form_writer" where
  "write_field name val w = part_write val (create_part (field_header name) w)"

definition write_form_file :: "string \<Rightarrow> string \<Rightarrow> bytes \<Rightarrow> form_writer \<Rightarrow> form_writer" where
  "write_form_file name file_name content w = part_write content (create_part (file_header name file_name) w)"

definition close_form :: "form_writer \<Rightarrow> form_writer" where
  "close_form w = w\<lparr>fw_out := fw_out w @ crlf @ ''--'' @ fw_boundary w @ ''--'' @ crlf, fw_part := False\<rparr>"

section \<open>What is written\<close>

lemma form_writer_simps [simp]:
  "fw_boundary (create_part h w) = fw_boundary w" "fw_boundary (part_write bs w) = fw_boundary w"
  "fw_boundary (write_field n v w) = fw_boundary w" "fw_boundary (write_form_file n f c w) = fw_boundary w"
  "fw_part (create_part h w) = True" "fw_part (part_write bs w) = fw_part w"
  "fw_part (write_field n v w) = True" "fw_part (write_form_file n f c w) = True"
  "fw_out (part_write bs w) = fw_out w @ bs"
  by (simp_all add: create_part_def part_write_def write_field_def write_form_file_def)

lemma set_boundary_new:
  "set_boundary b (new_form_writer random) =
     \<lparr>fw_out = [], fw_boundary = (if valid_boundary b then b else random), fw_part = False\<rparr>"
  by (simp add: set_boundary_def new_form_writer_def)

end
