(* ===== verification/ServiceUtils.thy ===== *)
theory ServiceUtils
  imports IcapResponse Base64 Multipart
begin

text \<open>
  \<open>service/services-utilities\<close>: the order in which a service checks its extension lists, the content
  types of a request body, and \<open>GeneralFunc\<close>, the operations all services share.

  The state of these operations is the HTTP message pair of the service (\<open>http_message\<close>) and, where a
  body is read, the connection. JSON, the parser of multipart forms, the file type matcher, HTML templates, gzip and
  SHA-256 are parameters, collected in \<open>svc_lib\<close>; logging is left out.
\<close>

section \<open>Messages and library code\<close>

record http_message =
  hm_request :: "http_request option"
  hm_response :: "http_response option"

datatype json =
    JNull
  | JBool bool
  | JNumber string
  | JString string
  | JArray "json list"
  | JObject "(string \<times> json) list"

record form_part =
  fp_form_name :: string
  fp_file_name :: string
  fp_content :: bytes

record error_page =
  ep_reason :: string
  ep_service_name :: string
  ep_requested_url :: string
  ep_identifier :: string
  ep_exception_page :: string
  ep_size :: string
  ep_metadata :: string

record svc_lib =
  sl_http :: http_lib
  sl_json_unmarshal :: "bytes \<Rightarrow> (string \<times> json) list option"
  sl_json_marshal :: "(string \<times> json) list \<Rightarrow> string"
  sl_json_print :: "json \<Rightarrow> string"
  sl_parse_form :: "string \<Rightarrow> bytes \<Rightarrow> form_part list \<times> string"
  sl_random_boundary :: string
  sl_file_kind :: "bytes \<Rightarrow> string option"
  sl_template :: "string \<Rightarrow> (error_page \<Rightarrow> bytes) option"
  sl_page_json :: "error_page \<Rightarrow> go_error + bytes"
  sl_page_decode :: "bytes \<Rightarrow> error_page"
  sl_gzip :: "bytes \<Rightarrow> go_error + bytes"
  sl_gunzip :: "bytes \<Rightarrow> (go_error + bytes) option"
  sl_sha256_hex :: "bytes \<Rightarrow> string"
  sl_web_host :: string
  sl_web_endpoint :: string
  sl_epoch :: string

section \<open>Extension lists\<close>

record extension =
  ext_name :: string
  ext_exts :: "string list"

text \<open>One of the three \<open>if\<close>s of \<open>InitExtsArr\<close>: the list with just the asterisk goes last.\<close>

definition place_ext :: "extension \<Rightarrow> extension list \<times> nat \<Rightarrow> extension list \<times> nat" where
  "place_ext e st =
     (case st of (arr, ind) \<Rightarrow>
        if ext_exts e = [''*''] then (arr[2 := e], ind) else (arr[ind := e], ind + 1))"

definition init_exts_arr :: "string list \<Rightarrow> string list \<Rightarrow> string list \<Rightarrow> extension list" where
  "init_exts_arr process_exts reject_exts bypass_exts =
     (let zero = \<lparr>ext_name = [], ext_exts = []\<rparr>
      in fst (place_ext \<lparr>ext_name = ''bypass'', ext_exts = bypass_exts\<rparr>
           (place_ext \<lparr>ext_name = ''reject'', ext_exts = reject_exts\<rparr>
             (place_ext \<lparr>ext_name = ''process'', ext_exts = process_exts\<rparr> ([zero, zero, zero], 0)))))"

definition if_file_ext_is_x :: "string \<Rightarrow> string list \<Rightarrow> bool" where
  "if_file_ext_is_x file_extension arr \<longleftrightarrow> arr = [''*''] \<or> file_extension \<in> set arr"

text \<open>The loop of \<open>CheckTheExtension\<close>: the name of the list that decides, if any.\<close>

fun ext_decision :: "string \<Rightarrow> string list \<Rightarrow> string list \<Rightarrow> string list \<Rightarrow> extension list \<Rightarrow> string option" where
  "ext_decision fe pe re be [] = None"
| "ext_decision fe pe re be (e # es) =
     (if ext_name e = ''process'' then
        (if if_file_ext_is_x fe pe then Some ''process'' else ext_decision fe pe re be es)
      else if ext_name e = ''reject'' then
        (if if_file_ext_is_x fe re then Some ''reject'' else ext_decision fe pe re be es)
      else if ext_name e = ''bypass'' then
        (if if_file_ext_is_x fe be then Some ''bypass'' else ext_decision fe pe re be es)
      else ext_decision fe pe re be es)"

section \<open>Content types\<close>

datatype content_type =
    RegularFile bytes bool
  | EncodedFile "(string \<times> json) list"
  | MultipartForm "form_part list" form_part string

text \<open>\<open>fmt.Sprint\<close> of a value of a JSON object; a missing key prints like null.\<close>

definition json_sprint :: "svc_lib \<Rightarrow> json option \<Rightarrow> string" where
  "json_sprint lib v =
     (case v of
        None \<Rightarrow> ''<nil>''
      | Some JNull \<Rightarrow> ''<nil>''
      | Some (JBool b) \<Rightarrow> (if b then ''true'' else ''false'')
      | Some (JString s) \<Rightarrow> s
      | Some j \<Rightarrow> sl_json_print lib j)"

text \<open>\<open>ParsingRequest\<close>: the parts, the first part with a file name, the boundary.\<close>

definition zero_part :: form_part where
  "zero_part = \<lparr>fp_form_name = [], fp_file_name = [], fp_content = []\<rparr>"

definition parsing_request :: "svc_lib \<Rightarrow> string \<Rightarrow> bytes \<Rightarrow> content_type" where
  "parsing_request lib ctype bd =
     (case sl_parse_form lib ctype bd of (parts, boundary) \<Rightarrow>
        MultipartForm parts
          (case find (\<lambda>p. fp_file_name p \<noteq> []) parts of Some p \<Rightarrow> p | None \<Rightarrow> zero_part) boundary)"

text \<open>
  \<open>GetContentType\<close>: every branch reads the body to its end; read errors are dropped.
\<close>

definition get_content_type :: "svc_lib \<Rightarrow> http_request \<Rightarrow> conn_io \<Rightarrow>
    (content_type \<times> http_request \<times> conn_io) outcome" where
  "get_content_type lib req c =
     bind_outcome (read_body (sl_http lib) (rq_body req) c) (\<lambda>(bs, err, left, c').
       let ctype = hget (rq_header req) ''Content-Type'';
           req' = req\<lparr>rq_body := left\<rparr>
       in Done ((if has_prefix ctype ''multipart/'' then parsing_request lib ctype bs
                 else if has_prefix ctype ''application/json'' \<and> \<not> contains ctype ''+''
                 then (if hget (rq_header req) ''Content-Encoding'' \<noteq> [] then RegularFile bs False
                       else (case sl_json_unmarshal lib bs of
                               None \<Rightarrow> RegularFile bs False
                             | Some obj \<Rightarrow>
                                 if map_of obj ''Base64'' \<noteq> None then EncodedFile obj
                                 else RegularFile bs False))
                 else RegularFile bs False), req', c'))"

text \<open>\<open>GetFileFromRequest\<close>: the file to scan, and the content type that remembers how it came.\<close>

fun get_file_from_request :: "svc_lib \<Rightarrow> content_type \<Rightarrow> bytes \<times> content_type" where
  "get_file_from_request lib (RegularFile buf enc) =
     (if looks_base64 buf
      then (let file = fst (b64_decode buf) in (file, RegularFile file True))
      else (buf, RegularFile buf False))"
| "get_file_from_request lib (EncodedFile obj) =
     (fst (b64_decode (json_sprint lib (map_of obj ''Base64''))), EncodedFile obj)"
| "get_file_from_request lib (MultipartForm parts file boundary) =
     (fp_content file, MultipartForm parts file boundary)"

text \<open>The first part with the names of the file gets its new content.\<close>

fun replace_part :: "form_part \<Rightarrow> form_part list \<Rightarrow> form_part list" where
  "replace_part file [] = []"
| "replace_part file (p # ps) =
     (if fp_file_name p = fp_file_name file \<and> fp_form_name p = fp_form_name file then file # ps
      else p # replace_part file ps)"

text \<open>\<open>creatingMultipartForm\<close>: the type of a file is not kept.\<close>

definition write_form_part :: "form_part \<Rightarrow> form_writer \<Rightarrow> form_writer" where
  "write_form_part p w =
     (if fp_file_name p = [] then write_field (fp_form_name p) (fp_content p) w
      else write_form_file (fp_form_name p) (fp_file_name p) (fp_content p) w)"

definition creating_multipart_form :: "svc_lib \<Rightarrow> string \<Rightarrow> form_part list \<Rightarrow> string" where
  "creating_multipart_form lib boundary parts =
     fw_out (close_form (fold write_form_part parts (set_boundary boundary (new_form_writer (sl_random_boundary lib)))))"

fun body_after_scanning :: "svc_lib \<Rightarrow> content_type \<Rightarrow> bytes \<Rightarrow> bytes" where
  "body_after_scanning lib (RegularFile buf enc) file = (if enc then b64_encode file else file)"
| "body_after_scanning lib (EncodedFile obj) file =
     sl_json_marshal lib (AList.update ''Base64'' (JString (b64_encode file)) obj)"
| "body_after_scanning lib (MultipartForm parts old boundary) file =
     creating_multipart_form lib boundary (replace_part (old\<lparr>fp_content := file\<rparr>) parts)"

section \<open>Reading the file\<close>

definition copying_file_req :: "svc_lib \<Rightarrow> http_message \<Rightarrow> conn_io \<Rightarrow>
    (bytes \<times> content_type \<times> http_message \<times> conn_io) outcome" where
  "copying_file_req lib hm c =
     (case hm_request hm of
        None \<Rightarrow> Panic ''nil request''
      | Some req \<Rightarrow>
          bind_outcome (get_content_type lib req c) (\<lambda>(ct, req', c').
            case get_file_from_request lib ct of (file, ct') \<Rightarrow>
              Done (file, ct', hm\<lparr>hm_request := Some req'\<rparr>, c')))"

definition copying_file_resp :: "svc_lib \<Rightarrow> http_message \<Rightarrow> conn_io \<Rightarrow>
    ((go_error + bytes) \<times> http_message \<times> conn_io) outcome" where
  "copying_file_resp lib hm c =
     (case hm_response hm of
        None \<Rightarrow> Panic ''nil response''
      | Some resp \<Rightarrow>
          bind_outcome (read_body (sl_http lib) (rs_body resp) c) (\<lambda>(bs, err, left, c').
            Done (case err of None \<Rightarrow> Inr bs | Some e \<Rightarrow> Inl e,
                  hm\<lparr>hm_response := Some (resp\<lparr>rs_body := left\<rparr>)\<rparr>, c')))"

definition copying_file_to_the_buffer :: "svc_lib \<Rightarrow> string \<Rightarrow> http_message \<Rightarrow> conn_io \<Rightarrow>
    ((go_error + bytes \<times> content_type option) \<times> http_message \<times> conn_io) outcome" where
  "copying_file_to_the_buffer lib meth hm c =
     (if meth = ''REQMOD''
      then bind_outcome (copying_file_req lib hm c) (\<lambda>(file, ct, hm', c'). Done (Inr (file, Some ct), hm', c'))
      else if meth = ''RESPMOD''
      then bind_outcome (copying_file_resp lib hm c) (\<lambda>(res, hm', c').
             Done (map_sum (\<lambda>e. e) (\<lambda>file. (file, None)) res, hm', c'))
      else Done (Inr ([], None), hm, c))"

section \<open>File names and types\<close>

text \<open>\<open>path.Base\<close>\<close>

definition path_base :: "string \<Rightarrow> string" where
  "path_base p =
     (if p = [] then ''.''
      else (let q = trim_right_func (\<lambda>c. c = CHR ''/'') p
            in if q = [] then ''/'' else rev (takeWhile (\<lambda>c. c \<noteq> CHR ''/'') (rev q))))"

definition get_file_name :: "http_message \<Rightarrow> string" where
  "get_file_name hm =
     (let from = (\<lambda>r. if rq_uri r \<noteq> [] then path_base (u_path (rq_url r)) else []);
          filename = (case hm_response hm of
                        Some resp \<Rightarrow>
                          (case rs_request resp of
                             Some r \<Rightarrow> from r
                           | None \<Rightarrow> (case hm_request hm of Some r \<Rightarrow> from r | None \<Rightarrow> ''unnamed_file''))
                      | None \<Rightarrow> (case hm_request hm of Some r \<Rightarrow> from r | None \<Rightarrow> ''unnamed_file''))
      in if length filename < 2 then ''unnamed_file'' else filename)"

definition mime_extensions :: "(string \<times> string) list" where
  "mime_extensions =
     [(''application/xml'', ''xml''), (''application/html'', ''html''), (''text/html'', ''html''),
      (''text/json'', ''html''), (''application/json'', ''json''), (''text/plain'', ''txt'')]"

definition get_mime_extension :: "svc_lib \<Rightarrow> bytes \<Rightarrow> string \<Rightarrow> string \<Rightarrow> string" where
  "get_mime_extension lib data ctype filename =
     (case sl_file_kind lib data of
        Some ext \<Rightarrow> ext
      | None \<Rightarrow>
          (case map_of mime_extensions (hd (split ctype '';'')) of
             Some ext \<Rightarrow> ext
           | None \<Rightarrow>
               (let parts = split filename ''.''
                in if 1 < length parts then last parts else ''unknown'')))"

section \<open>Compression\<close>

definition is_body_gzip_compressed :: "string \<Rightarrow> http_message \<Rightarrow> bool outcome" where
  "is_body_gzip_compressed meth hm =
     (if meth = ''REQMOD''
      then (case hm_request hm of
              None \<Rightarrow> Panic ''nil request''
            | Some r \<Rightarrow> Done (hget (rq_header r) ''Content-Encoding'' = ''gzip''))
      else if meth = ''RESPMOD''
      then (case hm_response hm of
              None \<Rightarrow> Panic ''nil response''
            | Some r \<Rightarrow> Done (hget (rs_header r) ''Content-Encoding'' = ''gzip''))
      else Done False)"

text \<open>A body without a gzip header has no reader (\<open>None\<close>); the error is overwritten and the reader used.\<close>

definition decompress_gzip_body :: "svc_lib \<Rightarrow> bytes \<Rightarrow> (go_error + bytes) outcome" where
  "decompress_gzip_body lib file =
     (case sl_gunzip lib file of None \<Rightarrow> Panic ''nil reader'' | Some res \<Rightarrow> Done res)"

definition compress_file_gzip :: "svc_lib \<Rightarrow> bytes \<Rightarrow> go_error + bytes" where
  "compress_file_gzip lib scanned = sl_gzip lib scanned"

definition init_secure :: "bool \<Rightarrow> bool" where
  "init_secure verify_server_cert \<longleftrightarrow> \<not> verify_server_cert"

section \<open>Pages and messages\<close>

definition gen_html_page :: "svc_lib \<Rightarrow> string \<Rightarrow> error_page \<Rightarrow> bytes outcome" where
  "gen_html_page lib path page =
     (case sl_template lib path of
        Some t \<Rightarrow> Done (t page)
      | None \<Rightarrow> (case sl_template lib ''block-page.html'' of
                   Some t \<Rightarrow> Done (t page)
                 | None \<Rightarrow> Panic ''nil template''))"

definition err_page_resp :: "nat \<Rightarrow> nat \<Rightarrow> http_response" where
  "err_page_resp status len =
     \<lparr>rs_code = status, rs_status = itoa status @ SP # http_status_text status, rs_proto = [],
      rs_header = [(''Content-Type'', [''text/html'']), (''Content-Length'', [itoa len])],
      rs_body = NilBody, rs_request = None\<rparr>"

text \<open>
  \<open>ReqModErrPage\<close>: the request of the service is turned into a GET of the page's address, and a new
  request with the same URL and header is returned with the page as JSON.
\<close>

definition del_all_keys :: "header \<Rightarrow> header" where
  "del_all_keys h = foldl hdel h (map fst h)"

definition req_mod_err_page :: "svc_lib \<Rightarrow> string \<Rightarrow> string \<Rightarrow> string \<Rightarrow> string \<Rightarrow> http_message \<Rightarrow>
    ((go_error + bytes \<times> http_request) \<times> http_message) outcome" where
  "req_mod_err_page lib reason service identifier sz hm =
     (case hm_request hm of
        None \<Rightarrow> Panic ''nil request''
      | Some r \<Rightarrow>
          (let url = sl_web_host lib @ sl_web_endpoint lib;
               r' = r\<lparr>rq_url := (rq_url r)\<lparr>u_scheme := [], u_opaque := url, u_path := [], u_host := sl_web_host lib\<rparr>,
                      rq_header := hset (del_all_keys (rq_header r)) ''Host'' (sl_web_host lib),
                      rq_method := ''GET'', rq_uri := url, rq_body := BytesBody []\<rparr>;
               page = \<lparr>ep_reason = reason, ep_service_name = service, ep_requested_url = rq_uri r,
                       ep_identifier = identifier, ep_exception_page = [], ep_size = sz, ep_metadata = []\<rparr>;
               req = r'\<lparr>rq_body := NilBody, rq_tls := False\<rparr>;
               hm' = hm\<lparr>hm_request := Some r'\<rparr>
           in Done (case sl_page_json lib page of
                      Inl e \<Rightarrow> (Inl e, hm')
                    | Inr body \<Rightarrow> (Inr (body, req), hm'))))"

definition preparing_file_after_scanning :: "svc_lib \<Rightarrow> bytes \<Rightarrow> content_type option \<Rightarrow> string \<Rightarrow> bytes outcome" where
  "preparing_file_after_scanning lib scanned ct meth =
     (if meth = ''REQMOD''
      then (case ct of None \<Rightarrow> Panic ''nil content type'' | Some t \<Rightarrow> Done (body_after_scanning lib t scanned))
      else Done scanned)"

datatype svc_msg = SvcNil | SvcRequest http_request | SvcResponse http_response | SvcHttpMsg

text \<open>\<open>ReturningHttpMessageWithFile\<close> and \<open>returningHttpMessage\<close>.\<close>

definition returning_http_message_with_file :: "string \<Rightarrow> bytes \<Rightarrow> http_message \<Rightarrow>
    (svc_msg \<times> http_message) outcome" where
  "returning_http_message_with_file meth file hm =
     (if meth = ''REQMOD''
      then (case hm_request hm of
              None \<Rightarrow> Panic ''nil request''
            | Some r \<Rightarrow>
                (let u = rq_url r;
                     r' = r\<lparr>rq_header := hset (rq_header r) ''Content-Length'' (itoa (length file)),
                            rq_body := BytesBody file,
                            rq_url := (if u_scheme u = [] then u\<lparr>u_opaque := u_host u\<rparr> else u)\<rparr>
                 in Done (SvcRequest r', hm\<lparr>hm_request := Some r'\<rparr>)))
      else if meth = ''RESPMOD''
      then (case hm_response hm of
              None \<Rightarrow> Panic ''nil response''
            | Some r \<Rightarrow>
                (let r' = r\<lparr>rs_header := hset (rs_header r) ''Content-Length'' (itoa (length file)),
                            rs_body := BytesBody file\<rparr>
                 in Done (SvcResponse r', hm\<lparr>hm_response := Some r'\<rparr>)))
      else Done (SvcNil, hm))"

definition returning_http_message :: "string \<Rightarrow> bytes \<Rightarrow> http_message \<Rightarrow> (svc_msg \<times> http_message) outcome" where
  "returning_http_message meth file hm =
     (if meth = ''REQMOD''
      then (case hm_request hm of
              None \<Rightarrow> Panic ''nil request''
            | Some r \<Rightarrow>
                (let r' = r\<lparr>rq_header := hset (rq_header r) ''Content-Length'' (itoa (length file)),
                            rq_body := BytesBody file\<rparr>
                 in Done (SvcRequest r', hm\<lparr>hm_request := Some r'\<rparr>)))
      else if meth = ''RESPMOD''
      then (case hm_response hm of
              None \<Rightarrow> Panic ''nil response''
            | Some r \<Rightarrow>
                (let r' = r\<lparr>rs_header := hset (rs_header r) ''Content-Length'' (itoa (length file)),
                            rs_body := BytesBody file\<rparr>
                 in Done (SvcResponse r', hm\<lparr>hm_response := Some r'\<rparr>)))
      else Done (SvcNil, hm))"

text \<open>
  \<open>IfMaxFileSizeExc\<close>: the ICAP status, the file and the message. When the page cannot be made the file
  is a nil buffer.
\<close>

definition if_max_file_size_exc :: "svc_lib \<Rightarrow> bool \<Rightarrow> string \<Rightarrow> string \<Rightarrow> bytes \<Rightarrow> string \<Rightarrow> string \<Rightarrow> string \<Rightarrow>
    http_message \<Rightarrow> (nat \<times> bytes option \<times> svc_msg \<times> http_message) outcome" where
  "if_max_file_size_exc lib return_orig service meth file page_path sz metadata hm =
     (if return_orig then Done (204, Some file, SvcNil, hm)
      else if meth = ''RESPMOD''
      then (case hm_request hm of
              None \<Rightarrow> Panic ''nil request''
            | Some rq \<Rightarrow>
                bind_outcome (gen_html_page lib page_path
                    \<lparr>ep_reason = ''maxFileSizeExceeded'', ep_service_name = service, ep_requested_url = rq_uri rq,
                     ep_identifier = ''-'', ep_exception_page = [], ep_size = sz, ep_metadata = metadata\<rparr>) (\<lambda>page.
                  let resp = err_page_resp 403 (length page)
                  in Done (200, Some page, SvcResponse resp, hm\<lparr>hm_response := Some resp\<rparr>)))
      else bind_outcome (req_mod_err_page lib ''maxFileSizeExceeded'' service ''-'' sz hm) (\<lambda>(res, hm').
             case res of
               Inl e \<Rightarrow> Done (500, None, SvcNil, hm')
             | Inr (page, req) \<Rightarrow> Done (200, Some page, SvcRequest req, hm')))"

text \<open>
  \<open>IfStatusIs204WithFile\<close>: the prepared file, nil only when compressing fails, and the message.
\<close>

definition if_status_is_204_with_file :: "svc_lib \<Rightarrow> string \<Rightarrow> nat \<Rightarrow> bytes option \<Rightarrow> bool \<Rightarrow> content_type option \<Rightarrow>
    svc_msg \<Rightarrow> bool \<Rightarrow> http_message \<Rightarrow> (bytes option \<times> svc_msg \<times> http_message) outcome" where
  "if_status_is_204_with_file lib meth status file gzip ct msg is_err hm =
     (case file of
        None \<Rightarrow> Panic ''nil buffer''
      | Some bs \<Rightarrow>
          (if gzip \<and> isl (compress_file_gzip lib bs) then Done (None, SvcNil, hm)
           else
             bind_outcome
               (if meth = ''REQMOD''
                then preparing_file_after_scanning lib bs (if is_err then Some (RegularFile bs False) else ct) meth
                else Done bs) (\<lambda>prep.
             if status = 204
             then bind_outcome (returning_http_message_with_file meth prep hm) (\<lambda>(m, hm').
                    Done (Some prep, m, hm'))
             else Done (Some prep, msg, hm))))"

definition if_icap_status_is_204 :: "svc_lib \<Rightarrow> string \<Rightarrow> nat \<Rightarrow> bytes \<Rightarrow> bool \<Rightarrow> content_type option \<Rightarrow>
    svc_msg \<Rightarrow> http_message \<Rightarrow> (bytes option \<times> svc_msg \<times> http_message) outcome" where
  "if_icap_status_is_204 lib meth status file gzip ct msg hm =
     (if gzip \<and> isl (compress_file_gzip lib file) then Done (None, SvcNil, hm)
      else
        bind_outcome
          (if meth = ''REQMOD'' then preparing_file_after_scanning lib file ct meth else Done file) (\<lambda>prep.
        if status = 204
        then bind_outcome (returning_http_message meth prep hm) (\<lambda>(m, hm'). Done (Some prep, m, hm'))
        else Done (Some prep, msg, hm)))"

text \<open>Setting the body of a returned message, which is also the message the service holds.\<close>

definition set_msg_body :: "svc_msg \<Rightarrow> bytes \<Rightarrow> http_message \<Rightarrow> svc_msg \<times> http_message" where
  "set_msg_body msg bs hm =
     (case msg of
        SvcRequest r \<Rightarrow> (SvcRequest (r\<lparr>rq_body := BytesBody bs\<rparr>), hm)
      | SvcResponse r \<Rightarrow>
          (SvcResponse (r\<lparr>rs_body := BytesBody bs\<rparr>), hm\<lparr>hm_response := Some (r\<lparr>rs_body := BytesBody bs\<rparr>)\<rparr>)
      | _ \<Rightarrow> (msg, hm))"

text \<open>
  \<open>CheckTheExtension\<close>: go on with scanning (\<open>True\<close>), or stop with a status and a message.
\<close>

definition check_the_extension :: "svc_lib \<Rightarrow> string \<Rightarrow> extension list \<Rightarrow> string list \<Rightarrow> string list \<Rightarrow>
    string list \<Rightarrow> bool \<Rightarrow> bool \<Rightarrow> string \<Rightarrow> string \<Rightarrow> string \<Rightarrow> string \<Rightarrow> content_type option \<Rightarrow> bytes \<Rightarrow>
    string \<Rightarrow> string \<Rightarrow> string \<Rightarrow> http_message \<Rightarrow> (bool \<times> nat \<times> svc_msg \<times> http_message) outcome" where
  "check_the_extension lib fe arrs pe re be return400 gzip service meth identifier uri ct file page_path sz
       metadata hm =
     (case ext_decision fe pe re be arrs of
        None \<Rightarrow> Done (True, 0, SvcNil, hm)
      | Some d \<Rightarrow>
          (if d = ''process'' then Done (True, 0, SvcNil, hm)
           else if d = ''reject''
           then (if return400 then Done (False, 400, SvcNil, hm)
                 else if meth = ''RESPMOD''
                 then bind_outcome (gen_html_page lib page_path
                        \<lparr>ep_reason = ''fileRejected'', ep_service_name = service, ep_requested_url = uri,
                         ep_identifier = identifier, ep_exception_page = [], ep_size = sz, ep_metadata = metadata\<rparr>) (\<lambda>page.
                        let resp = (err_page_resp 403 (length page))\<lparr>rs_body := BytesBody page\<rparr>
                        in Done (False, 200, SvcResponse resp, hm\<lparr>hm_response := Some resp\<rparr>))
                 else bind_outcome (req_mod_err_page lib ''fileRejected'' service ''-'' sz hm) (\<lambda>(res, hm').
                        case res of
                          Inl e \<Rightarrow> Done (False, 500, SvcNil, hm')
                        | Inr (page, req) \<Rightarrow>
                            bind_outcome (preparing_file_after_scanning lib page (Some (RegularFile file False)) meth)
                              (\<lambda>prep. Done (False, 200, SvcRequest (req\<lparr>rq_body := BytesBody prep\<rparr>), hm'))))
           else
             bind_outcome (if_icap_status_is_204 lib meth 204 file gzip ct SvcHttpMsg hm) (\<lambda>(prep, msg, hm').
               case prep of
                 None \<Rightarrow> Done (False, 500, SvcNil, hm')
               | Some bs \<Rightarrow>
                   (case msg of
                      SvcRequest r \<Rightarrow> Done (False, 204, SvcRequest (r\<lparr>rq_body := BytesBody bs\<rparr>), hm')
                    | SvcResponse r \<Rightarrow> Done (False, 204, SvcResponse (r\<lparr>rs_body := BytesBody bs\<rparr>), hm')
                    | _ \<Rightarrow> Done (False, 204, SvcNil, hm')))))"

section \<open>Headers for the log\<close>

text \<open>
  \<open>LogHTTPMsgHeaders\<close>: the values of a key, as the code joins them: the first value once for each value.
\<close>

definition log_values :: "string list \<Rightarrow> string" where
  "log_values vs = join (map (\<lambda>v. hd vs) vs) '', ''"

definition log_http_msg_headers :: "string \<Rightarrow> http_message \<Rightarrow> (string \<times> string) list outcome" where
  "log_http_msg_headers meth hm =
     (if meth = ''REQMOD''
      then (case hm_request hm of
              None \<Rightarrow> Panic ''nil request''
            | Some r \<Rightarrow> Done (map (\<lambda>(k, vs). (k, log_values vs)) (rq_header r)))
      else (case hm_response hm of
              None \<Rightarrow> Panic ''nil response''
            | Some r \<Rightarrow> Done (map (\<lambda>(k, vs). (k, log_values vs)) (rs_header r))))"

section \<open>A library for running the model\<close>

definition sample_svc :: svc_lib where
  "sample_svc = \<lparr>sl_http = sample_lib, sl_json_unmarshal = (\<lambda>b. None), sl_json_marshal = (\<lambda>m. []),
     sl_json_print = (\<lambda>j. []), sl_parse_form = (\<lambda>t b. ([], [])), sl_random_boundary = ''0a'',
     sl_file_kind = (\<lambda>b. None), sl_template = (\<lambda>p. Some (\<lambda>page. ''blocked: '' @ ep_reason page)),
     sl_page_json = (\<lambda>page. Inr (ep_reason page)), sl_page_decode = (\<lambda>b. \<lparr>ep_reason = b, ep_service_name = [], ep_requested_url = [], ep_identifier = [],
       ep_exception_page = [], ep_size = [], ep_metadata = []\<rparr>),
     sl_gzip = Inr, sl_gunzip = (\<lambda>b. None), sl_sha256_hex = (\<lambda>b. ''00''),
     sl_web_host = ''host'', sl_web_endpoint = ''/service/message'',
     sl_epoch = ''0''\<rparr>"

section \<open>Properties\<close>

text \<open>A configuration as \<open>config.Init\<close> accepts it: the asterisk stands alone in exactly one list, and
  no extension is in two lists.\<close>

definition valid_ext_config :: "string list \<Rightarrow> string list \<Rightarrow> string list \<Rightarrow> bool" where
  "valid_ext_config pe re be \<longleftrightarrow>
     distinct (pe @ re @ be) \<and>
     (pe = [''*''] \<or> re = [''*''] \<or> be = [''*'']) \<and> (\<forall>l \<in> set [pe, re, be]. ''*'' \<in> set l \<longrightarrow> l = [''*''])"

lemma init_exts_arr_cases:
  "pe = [''*''] \<Longrightarrow> re \<noteq> [''*''] \<Longrightarrow> be \<noteq> [''*''] \<Longrightarrow> init_exts_arr pe re be =
     [\<lparr>ext_name = ''reject'', ext_exts = re\<rparr>, \<lparr>ext_name = ''bypass'', ext_exts = be\<rparr>,
      \<lparr>ext_name = ''process'', ext_exts = pe\<rparr>]"
  "pe \<noteq> [''*''] \<Longrightarrow> re = [''*''] \<Longrightarrow> be \<noteq> [''*''] \<Longrightarrow> init_exts_arr pe re be =
     [\<lparr>ext_name = ''process'', ext_exts = pe\<rparr>, \<lparr>ext_name = ''bypass'', ext_exts = be\<rparr>,
      \<lparr>ext_name = ''reject'', ext_exts = re\<rparr>]"
  "pe \<noteq> [''*''] \<Longrightarrow> re \<noteq> [''*''] \<Longrightarrow> be = [''*''] \<Longrightarrow> init_exts_arr pe re be =
     [\<lparr>ext_name = ''process'', ext_exts = pe\<rparr>, \<lparr>ext_name = ''reject'', ext_exts = re\<rparr>,
      \<lparr>ext_name = ''bypass'', ext_exts = be\<rparr>]"
  by (simp_all add: init_exts_arr_def place_ext_def Let_def)

text \<open>The extension of a file is decided by the list that names it; a file no list names is decided
  by the list with the asterisk, which is checked last wherever it stands in the configuration.\<close>

theorem extension_decision:
  assumes "valid_ext_config pe re be" and "fe \<noteq> ''*''"
  shows "ext_decision fe pe re be (init_exts_arr pe re be) =
    Some (if fe \<in> set pe then ''process'' else if fe \<in> set re then ''reject''
          else if fe \<in> set be then ''bypass''
          else if pe = [''*''] then ''process'' else if re = [''*''] then ''reject'' else ''bypass'')"
proof -
  have d: "distinct (pe @ re @ be)" and "pe = [''*''] \<or> re = [''*''] \<or> be = [''*'']"
    using assms(1) by (simp_all add: valid_ext_config_def)
  from this(2) show ?thesis
  proof (elim disjE)
    assume pe: "pe = [''*'']"
    with d have "re \<noteq> [''*'']" "be \<noteq> [''*'']" by force+
    with pe assms(2) show ?thesis
      by (simp add: init_exts_arr_cases if_file_ext_is_x_def)
  next
    assume re: "re = [''*'']"
    with d have "pe \<noteq> [''*'']" "be \<noteq> [''*'']" by force+
    with re assms(2) show ?thesis
      by (simp add: init_exts_arr_cases if_file_ext_is_x_def)
  next
    assume be: "be = [''*'']"
    with d have "pe \<noteq> [''*'']" "re \<noteq> [''*'']" by force+
    with be assms(2) show ?thesis
      by (simp add: init_exts_arr_cases if_file_ext_is_x_def)
  qed
qed

lemma extension_decision_witness:
  "ext_decision ''exe'' [''*''] [''exe''] [''pdf''] (init_exts_arr [''*''] [''exe''] [''pdf'']) = Some ''reject'' \<and>
   ext_decision ''zip'' [''pdf''] [''exe''] [''*''] (init_exts_arr [''pdf''] [''exe''] [''*'']) = Some ''bypass''"
  using extension_decision [of "[''*'']" "[''exe'']" "[''pdf'']" "''exe''"]
    extension_decision [of "[''pdf'']" "[''exe'']" "[''*'']" "''zip''"]
  by (simp add: valid_ext_config_def)

text \<open>C30: What a service scans is what the client sent: a plain body is scanned as it is and written back
  unchanged, a base64 body is decoded for the scan and encoded again, so that a body nothing was found
  in goes back byte for byte; a base64 text that is not in the encoder's own form comes back changed.\<close>

theorem regular_file_roundtrip:
  "(\<not> looks_base64 bd \<longrightarrow> get_file_from_request lib (RegularFile bd e) = (bd, RegularFile bd False) \<and>
           body_after_scanning lib (RegularFile bd False) bd = bd) \<and>
   (bd = b64_encode file \<longrightarrow> get_file_from_request lib (RegularFile bd e) = (file, RegularFile file True) \<and>
           body_after_scanning lib (RegularFile file True) file = bd) \<and>
   body_after_scanning lib (snd (get_file_from_request lib (RegularFile ''QR=='' e)))
           (fst (get_file_from_request lib (RegularFile ''QR=='' e))) = ''QQ==''"
proof -
  have d: "b64_decode ''QR=='' = (''A'', True)" by code_simp
  have e: "b64_encode ''A'' = ''QQ==''" by code_simp
  have l: "looks_base64 ''QR==''" by code_simp
  have "body_after_scanning lib (snd (get_file_from_request lib (RegularFile ''QR=='' e)))
           (fst (get_file_from_request lib (RegularFile ''QR=='' e))) = ''QQ==''"
    using d e l by (simp add: Let_def)
  then show ?thesis by (auto simp: Let_def b64_roundtrip looks_base64_encode)
qed

lemma regular_file_roundtrip_witness:
  "get_file_from_request sample_svc (RegularFile ''plain text'' False) = (''plain text'', RegularFile ''plain text'' False) \<and>
   fst (get_file_from_request sample_svc (RegularFile (b64_encode ''virus'') False)) = ''virus''"
proof -
  have "\<not> looks_base64 ''plain text''" by code_simp
  with regular_file_roundtrip [of "''plain text''" sample_svc False]
    regular_file_roundtrip [of "b64_encode ''virus''" sample_svc False "''virus''"]
  show ?thesis by simp
qed

text \<open>The header log of a message repeats the first value of a key once for each of its values: with
  several values the others never appear.\<close>

theorem log_values_first:
  "log_values (v # vs) = join (replicate (Suc (length vs)) v) '', ''"
  by (simp add: log_values_def map_replicate_const)

section \<open>Multipart forms\<close>

definition form_part_bytes :: "string \<Rightarrow> form_part \<Rightarrow> bytes" where
  "form_part_bytes boundary p =
     ''--'' @ boundary @ crlf @
     concat (map (\<lambda>(k, v). k @ '': '' @ v @ crlf)
       (if fp_file_name p = [] then field_header (fp_form_name p) else file_header (fp_form_name p) (fp_file_name p))) @
     crlf @ fp_content p"

lemma write_form_part_out:
  "fw_out (write_form_part p w) =
     fw_out w @ (if fw_part w then crlf else []) @ form_part_bytes (fw_boundary w) p"
  "fw_boundary (write_form_part p w) = fw_boundary w" "fw_part (write_form_part p w)"
  by (simp_all add: write_form_part_def write_field_def write_form_file_def create_part_def form_part_bytes_def)

lemma fold_write_form_part:
  "fw_out (fold write_form_part ps w) =
     fw_out w @ concat (map (\<lambda>p. crlf @ form_part_bytes (fw_boundary w) p) ps)" if "fw_part w"
  using that
  by (induction ps arbitrary: w) (simp_all add: write_form_part_out)

lemma fold_write_form_part_boundary [simp]: "fw_boundary (fold write_form_part ps w) = fw_boundary w"
  by (induction ps arbitrary: w) (simp_all add: write_form_part_out)

text \<open>The parts, separated by line ends, between the delimiters.\<close>

lemma multipart_form_bytes:
  assumes "parts \<noteq> []"
  shows "creating_multipart_form lib boundary parts =
    (let b = (if valid_boundary boundary then boundary else sl_random_boundary lib)
     in join (map (form_part_bytes b) parts) crlf @ crlf @ ''--'' @ b @ ''--'' @ crlf)"
proof -
  obtain p ps where parts: "parts = p # ps" using assms by (cases parts) auto
  have j: "join (x # map f ps) sep = x @ concat (map (\<lambda>p. sep @ f p) ps)" for x f and sep :: string
    by (induction ps arbitrary: x) simp_all
  show ?thesis
    by (simp add: parts creating_multipart_form_def close_form_def set_boundary_new fold_write_form_part
        write_form_part_out j Let_def)
qed

lemma replace_part_first:
  assumes "\<forall>p \<in> set pre. fp_file_name p = []" and "fp_file_name f \<noteq> []"
  shows "replace_part (f\<lparr>fp_content := bs\<rparr>) (pre @ f # post) = pre @ f\<lparr>fp_content := bs\<rparr> # post"
  using assms by (induction pre) auto

lemma find_first_file:
  assumes "\<forall>p \<in> set pre. fp_file_name p = []" and "fp_file_name f \<noteq> []"
  shows "find (\<lambda>p. fp_file_name p \<noteq> []) (pre @ f # post) = Some f"
  using assms by (induction pre) auto

text \<open>C19: Of a multipart form only the first file is scanned: the service gets the content of the first
  part with a file name, whatever follows, and when the form is put together again that content alone is
  replaced; every later part, files included, goes on to the server unseen and unchanged. What is lost is
  the type of every file and, if it cannot be written, the boundary.\<close>

theorem multipart_first_file_only:
  assumes "sl_parse_form lib ctype bd = (pre @ f # post, boundary)"
    and "\<forall>p \<in> set pre. fp_file_name p = []" and "fp_file_name f \<noteq> []"
  shows "fst (get_file_from_request lib (parsing_request lib ctype bd)) = fp_content f \<and>
    body_after_scanning lib (snd (get_file_from_request lib (parsing_request lib ctype bd))) scanned =
      (let b = (if valid_boundary boundary then boundary else sl_random_boundary lib)
       in join (map (form_part_bytes b) (pre @ [f\<lparr>fp_content := scanned\<rparr>] @ post)) crlf @
          crlf @ ''--'' @ b @ ''--'' @ crlf)"
  using assms(1) find_first_file [OF assms(2,3)] replace_part_first [OF assms(2,3)]
  by (simp add: parsing_request_def multipart_form_bytes)

lemma multipart_first_file_only_witness:
  "let lib = sample_svc\<lparr>sl_parse_form := \<lambda>t b. ([\<lparr>fp_form_name = ''a'', fp_file_name = ''x'', fp_content = ''clean''\<rparr>,
           \<lparr>fp_form_name = ''b'', fp_file_name = ''y'', fp_content = ''virus''\<rparr>], ''sep'')\<rparr>
   in fst (get_file_from_request lib (parsing_request lib ''multipart/form-data'' [])) = ''clean''"
  using multipart_first_file_only [of "sample_svc\<lparr>sl_parse_form := \<lambda>t b.
      ([\<lparr>fp_form_name = ''a'', fp_file_name = ''x'', fp_content = ''clean''\<rparr>,
        \<lparr>fp_form_name = ''b'', fp_file_name = ''y'', fp_content = ''virus''\<rparr>], ''sep'')\<rparr>" _ _ "[]" _ _ "''sep''"]
  by (simp add: Let_def)

end
