(* ===== verification/Progress.thy ===== *)
theory Progress
  imports IcapRequest
begin

text \<open>
  Every reading operation of the server makes progress: whatever bytes the peer sends, no operation
  gives back more than it takes, a read without an error delivers something, and so every loop over the
  input ends. The contract is stated for any reader with a measure of what is still to come and holds
  for the connection, the buffers and the chunked reader on top of it.
\<close>

section \<open>The contract\<close>

locale measured_reader =
  fixes rd :: "nat \<Rightarrow> 's \<Rightarrow> bytes \<times> go_error option \<times> 's"
    and m :: "'s \<Rightarrow> nat"
  assumes read_le: "rd n s = (ch, e, s') \<Longrightarrow> length ch + m s' \<le> m s"
    and read_progress: "rd n s = (ch, None, s') \<Longrightarrow> 0 < n \<Longrightarrow> ch \<noteq> []"

context measured_reader
begin

text \<open>\<open>ReadAll\<close> ends, with one unit of fuel for each byte to come and one for the error.\<close>

lemma read_all_ends:
  assumes "\<And>l. 0 < room l" and "m s < fuel"
  shows "\<exists>v e s'. read_all rd room fuel acc s = Some (v, e, s') \<and> m s' \<le> m s"
  using assms(2)
proof (induction fuel arbitrary: acc s)
  case 0
  then show ?case by simp
next
  case (Suc fuel)
  obtain ch e s1 where r: "rd (room (length acc)) s = (ch, e, s1)" by (cases "rd (room (length acc)) s")
  show ?case
  proof (cases e)
    case None
    with read_progress [OF r [unfolded None] assms(1)] read_le [OF r] have "m s1 < m s"
      by (cases ch) auto
    with Suc.prems Suc.IH [of s1 "acc @ ch"] r None show ?thesis by force
  next
    case (Some x)
    with r read_le [OF r] show ?thesis by simp
  qed
qed

definition bm :: "'s breader \<Rightarrow> nat" where
  "bm b = length (rbuf b) + m (under b)"

lemma buffered_measured: "measured_reader (bufio_read rd) bm"
proof
  fix n b ch e b'
  assume r: "bufio_read rd n b = (ch, e, b')"
  show "length ch + bm b' \<le> bm b"
    using r read_le [of n "under b"] read_le [of buf_size "under b"]
    by (force simp: bufio_read_def bm_def split: if_splits prod.splits)
next
  fix n b ch b'
  assume r: "bufio_read rd n b = (ch, None, b')" and n: "0 < n"
  show "ch \<noteq> []"
    using r n read_progress [of n "under b"] read_progress [of buf_size "under b"]
    by (auto simp: bufio_read_def buf_size_def split: if_splits prod.splits)
qed

lemma read_slice_le:
  assumes "read_slice rd d b = (l, e, b')"
  shows "length l + bm b' \<le> bm b \<and> (e = None \<longrightarrow> l \<noteq> [])"
  using assms
proof (induction "buf_size - length (rbuf b)" arbitrary: b rule: less_induct)
  case less
  show ?case
  proof (cases "d \<in> set (rbuf b)")
    case True
    then obtain ys zs where "rbuf b = ys @ d # zs" "d \<notin> set ys" by (rule split_first_occurrence)
    then have "length (takeWhile (\<lambda>c. c \<noteq> d) (rbuf b) @ [d]) \<le> length (rbuf b)" by auto
    with True less.prems show ?thesis
      by (subst (asm) read_slice.simps) (auto simp: Let_def bm_def)
  next
    case nd: False
    show ?thesis
    proof (cases "buf_size \<le> length (rbuf b)")
      case True
      with nd less.prems show ?thesis by (subst (asm) read_slice.simps) (auto simp: bm_def)
    next
      case False
      obtain ch x u where r: "rd (buf_size - length (rbuf b)) (under b) = (ch, x, u)"
        by (cases "rd (buf_size - length (rbuf b)) (under b)")
      show ?thesis
      proof (cases "ch = []")
        case True
        with nd False less.prems r read_le [OF r] show ?thesis
          by (subst (asm) read_slice.simps) (auto simp: bm_def)
      next
        case ne: False
        let ?b = "\<lparr>rbuf = rbuf b @ ch, under = u\<rparr>"
        have "read_slice rd d ?b = (l, e, b')"
          using nd False ne less.prems r by (subst (asm) read_slice.simps) simp
        moreover have "buf_size - length (rbuf ?b) < buf_size - length (rbuf b)"
          using False ne by (cases ch) simp_all
        ultimately have "length l + bm b' \<le> bm ?b \<and> (e = None \<longrightarrow> l \<noteq> [])" using less.hyps by blast
        with read_le [OF r] show ?thesis by (simp add: bm_def)
      qed
    qed
  qed
qed

lemma read_full_le:
  assumes "read_full rd n acc b = (bs, e, b')"
  shows "bm b' \<le> bm b"
  using assms
proof (induction n arbitrary: acc b rule: less_induct)
  case (less n)
  obtain ch x b1 where r: "bufio_read rd n b = (ch, x, b1)" by (cases "bufio_read rd n b")
  then have le: "length ch + bm b1 \<le> bm b" by (rule measured_reader.read_le [OF buffered_measured])
  show ?case
  proof (cases "n = 0 \<or> ch = [] \<or> n \<le> length ch \<or> x \<noteq> None")
    case True
    with less.prems r le show ?thesis
      by (subst (asm) read_full.simps) (auto split: if_splits option.splits)
  next
    case False
    then have "read_full rd (n - length ch) (acc @ ch) b1 = (bs, e, b')"
      using less.prems r by (subst (asm) read_full.simps) simp
    moreover have "n - length ch < n" using False by simp
    ultimately have "bm b' \<le> bm b1" using less.IH by blast
    with le show ?thesis by simp
  qed
qed

section \<open>Lines and headers\<close>

lemma buf_read_line_le:
  "buf_read_line rd b = (l, pfx, e, b') \<Longrightarrow> bm b' \<le> bm b \<and> (e = None \<longrightarrow> \<not> pfx \<longrightarrow> bm b' < bm b)"
proof -
  assume a: "buf_read_line rd b = (l, pfx, e, b')"
  obtain line err b1 where s: "read_slice rd LF b = (line, err, b1)" by (cases "read_slice rd LF b")
  from read_slice_le [OF s] have "length line + bm b1 \<le> bm b" "err = None \<longrightarrow> line \<noteq> []" by simp_all
  moreover have "bm (b1\<lparr>rbuf := CR # rbuf b1\<rparr>) = Suc (bm b1)" by (simp add: bm_def)
  ultimately show ?thesis
    using a s by (cases line) (auto simp: buf_read_line_def split: if_splits)
qed

lemma tp_read_line_le:
  "tp_read_line rd fuel acc b = (r, b') \<Longrightarrow> bm b' \<le> bm b \<and> (\<forall>l. r = Inr l \<longrightarrow> bm b' < bm b)"
proof (induction fuel arbitrary: acc b)
  case 0
  then show ?case by auto
next
  case (Suc fuel)
  obtain l pfx e b1 where s: "buf_read_line rd b = (l, pfx, e, b1)" by (cases "buf_read_line rd b")
  from buf_read_line_le [OF s] Suc.prems Suc.IH [of "acc @ l" b1] s show ?case
    by (auto split: option.splits if_splits)
qed

lemma fill_buf_le: "fill_buf rd b = (ok, b') \<Longrightarrow> bm b' \<le> bm b"
  using read_le [of buf_size "under b"]
  by (auto simp: fill_buf_def bm_def split: if_splits prod.splits)

lemma skip_space_le: "skip_space rd fuel n b = (k, b') \<Longrightarrow> bm b' \<le> bm b"
proof (induction fuel arbitrary: n b)
  case 0
  then show ?case by simp
next
  case (Suc fuel)
  obtain ok b1 where f: "fill_buf rd b = (ok, b1)" by (cases "fill_buf rd b")
  have "bm (b1\<lparr>rbuf := tl (rbuf b1)\<rparr>) \<le> bm b1" by (simp add: bm_def)
  with fill_buf_le [OF f] f Suc.prems Suc.IH [of "Suc n" "b1\<lparr>rbuf := tl (rbuf b1)\<rparr>"] show ?case
    by (auto split: bool.splits if_splits)
qed

lemma continuation_lines_le: "continuation_lines rd fuel acc b = (r, b') \<Longrightarrow> bm b' \<le> bm b"
proof (induction fuel arbitrary: acc b)
  case 0
  then show ?case by simp
next
  case (Suc fuel)
  obtain n b1 where s: "skip_space rd (Suc fuel) 0 b = (n, b1)" by (cases "skip_space rd (Suc fuel) 0 b")
  obtain res b2 where t: "tp_read_line rd (Suc fuel) [] b1 = (res, b2)"
    by (cases "tp_read_line rd (Suc fuel) [] b1")
  have "bm b1 \<le> bm b" by (rule skip_space_le [OF s])
  moreover have "bm b2 \<le> bm b1" using tp_read_line_le [OF t] by simp
  moreover have "b' = b1 \<or> b' = b2 \<or> (\<exists>acc'. continuation_lines rd fuel acc' b2 = (r, b'))"
    using Suc.prems t by (auto simp: s split: if_splits sum.splits simp del: tp_read_line.simps skip_space.simps)
  ultimately show ?case using Suc.IH by fastforce
qed

lemma read_continued_line_le: "read_continued_line rd fuel b = (r, b') \<Longrightarrow> bm b' \<le> bm b"
proof -
  assume a: "read_continued_line rd fuel b = (r, b')"
  obtain res b1 where t: "tp_read_line rd fuel [] b = (res, b1)" by (cases "tp_read_line rd fuel [] b")
  then have "bm b1 \<le> bm b" using tp_read_line_le by blast
  with a t show ?thesis
    by (auto simp: read_continued_line_def split: sum.splits if_splits prod.splits
        dest: continuation_lines_le)
qed

lemma mime_lines_le: "mime_lines rd fuel h b = (r, b') \<Longrightarrow> bm b' \<le> bm b"
proof (induction fuel arbitrary: h b)
  case 0
  then show ?case by simp
next
  case (Suc fuel)
  obtain res b1 where t: "read_continued_line rd (Suc fuel) b = (res, b1)"
    by (cases "read_continued_line rd (Suc fuel) b")
  have le: "bm b1 \<le> bm b" by (rule read_continued_line_le [OF t])
  have "b' = b1 \<or> (\<exists>h'. mime_lines rd fuel h' b1 = (r, b'))"
    using Suc.prems by (simp only: mime_lines.simps t Let_def) (auto split: if_splits sum.splits option.splits)
  with le Suc.IH show ?case by fastforce
qed

lemma read_mime_header_le: "read_mime_header rd fuel b = (r, b') \<Longrightarrow> bm b' \<le> bm b"
proof -
  assume a: "read_mime_header rd fuel b = (r, b')"
  obtain ok b1 where f: "fill_buf rd b = (ok, b1)" by (cases "fill_buf rd b")
  obtain res b2 where t: "tp_read_line rd fuel [] b1 = (res, b2)" by (cases "tp_read_line rd fuel [] b1")
  have "bm b2 \<le> bm b1" using tp_read_line_le [OF t] by simp
  moreover have "bm b1 \<le> bm b" by (rule fill_buf_le [OF f])
  moreover have "b' = b2 \<or> mime_lines rd fuel [] b1 = (r, b')"
    using a t by (auto simp: read_mime_header_def f split: if_splits sum.splits)
  ultimately show ?thesis using mime_lines_le by fastforce
qed

section \<open>Chunked bodies\<close>

definition cm :: "'s chunked_reader \<Rightarrow> nat" where
  "cm c = bm (cr_r c)"

lemma begin_chunk_le: "cm (begin_chunk rd c) \<le> cm c"
proof -
  obtain p e b1 where s: "read_slice rd LF (cr_r c) = (p, e, b1)" by (cases "read_slice rd LF (cr_r c)")
  from read_slice_le [OF s] s show ?thesis
    by (auto simp: begin_chunk_def read_line_def cm_def split: option.splits sum.splits if_splits)
qed

lemma end_chunk_le: "cm (end_chunk rd c) \<le> cm c"
proof -
  obtain p e b1 where s: "read_full rd 2 [] (cr_r c) = (p, e, b1)" by (cases "read_full rd 2 [] (cr_r c)")
  from read_full_le [OF s] s show ?thesis
    by (auto simp: end_chunk_def cm_def split: option.splits)
qed

lemma chunked_measured: "measured_reader (chunked_read rd) cm"
proof
  fix k c d e c'
  assume r: "chunked_read rd k c = (d, e, c')"
  define c1 where "c1 = (if cr_n c = 0 then begin_chunk rd c else c)"
  have le1: "cm c1 \<le> cm c" using begin_chunk_le by (simp add: c1_def)
  obtain d0 e0 r0 where b: "bufio_read rd (if unat (cr_n c1) < k then unat (cr_n c1) else k) (cr_r c1) = (d0, e0, r0)"
    by (cases "bufio_read rd (if unat (cr_n c1) < k then unat (cr_n c1) else k) (cr_r c1)")
  define c2 where "c2 = c1\<lparr>cr_r := r0, cr_err := e0, cr_n := cr_n c1 - word_of_nat (length d0)\<rparr>"
  have le2: "length d0 + cm c2 \<le> cm c1"
    using measured_reader.read_le [OF buffered_measured b] by (simp add: c2_def cm_def)
  show "length d + cm c' \<le> cm c"
    using r le1 le2 end_chunk_le [of c2]
    unfolding chunked_read_def c1_def [symmetric] Let_def b prod.case c2_def [symmetric]
    by (auto split: option.splits if_splits)
next
  fix k c d c'
  assume r: "chunked_read rd k c = (d, None, c')" and k: "0 < k"
  define c1 where "c1 = (if cr_n c = 0 then begin_chunk rd c else c)"
  define n where "n = (if unat (cr_n c1) < k then unat (cr_n c1) else k)"
  obtain d0 e0 r0 where b: "bufio_read rd n (cr_r c1) = (d0, e0, r0)"
    by (cases "bufio_read rd n (cr_r c1)")
  define c2 where "c2 = c1\<lparr>cr_r := r0, cr_err := e0, cr_n := cr_n c1 - word_of_nat (length d0)\<rparr>"
  define c3 where "c3 = (if cr_n c2 = 0 \<and> cr_err c2 = None then end_chunk rd c2 else c2)"
  have "cr_err c1 = None" "cr_err c3 = None" "d = d0"
    using r unfolding chunked_read_def c1_def [symmetric] n_def [symmetric] Let_def b prod.case
      c2_def [symmetric] c3_def [symmetric]
    by (auto split: option.splits)
  have "cr_n c1 \<noteq> 0"
  proof
    assume "cr_n c1 = 0"
    then have "c1 = begin_chunk rd c" by (auto simp: c1_def)
    with \<open>cr_n c1 = 0\<close> \<open>cr_err c1 = None\<close> show False
      by (auto simp: begin_chunk_def split: prod.splits sum.splits if_splits)
  qed
  then have n: "0 < n" using k by (simp add: n_def unat_gt_0)
  have "e0 = None"
    using \<open>cr_err c3 = None\<close> by (auto simp: c3_def c2_def split: if_splits)
  with measured_reader.read_progress [OF buffered_measured _ n] b \<open>d = d0\<close> show "d \<noteq> []" by blast
qed

end

section \<open>The connection\<close>

definition net_size :: "net \<Rightarrow> nat" where
  "net_size c = length (concat (segs c))"

interpretation net_m: measured_reader net_read net_size
proof
  fix n c ch e c'
  assume r: "net_read n c = (ch, e, c')"
  have "net_size c = length (concat (dropWhile (\<lambda>s. s = []) (segs c)))"
    by (simp add: net_size_def concat_dropWhile_Nil)
  with r show "length ch + net_size c' \<le> net_size c"
    by (auto simp: net_read_def net_size_def min_def split: list.splits)
next
  fix n c ch c'
  assume r: "net_read n c = (ch, None, c')" and n: "0 < n"
  then obtain s ss where d: "dropWhile (\<lambda>s. s = []) (segs c) = s # ss"
    by (auto simp: net_read_def split: list.splits)
  then have "s \<noteq> []" using hd_dropWhile [of "\<lambda>s. s = []" "segs c"] by simp
  with r n d show "ch \<noteq> []" by (auto simp: net_read_def)
qed

interpretation conn_m: measured_reader "bufio_read net_read" net_m.bm
  by (rule net_m.buffered_measured)

interpretation body_m: measured_reader conn_chunked_read conn_m.cm
  by (rule conn_m.chunked_measured)

lemma conn_size: "net_m.bm b = length (conn_pending b)"
  by (simp add: net_m.bm_def net_size_def conn_pending_def)

lemma body_size: "conn_m.cm c = length (rbuf (cr_r c)) + length (conn_pending (under (cr_r c)))"
  by (simp add: conn_m.cm_def conn_m.bm_def conn_size)

section \<open>Requests\<close>

lemma read_section_le:
  "read_section n b = Done (r, b') \<Longrightarrow> length (conn_pending b') \<le> length (conn_pending b)"
proof -
  assume a: "read_section n b = Done (r, b')"
  obtain bs e b1 where f: "read_full net_read (nat n) [] b = (bs, e, b1)"
    by (cases "read_full net_read (nat n) [] b")
  from net_m.read_full_le [OF f] a f show ?thesis
    by (auto simp: read_section_def conn_size split: if_splits option.splits)
qed

text \<open>\<open>ReadAll\<close> on a chunked body of the connection ends whatever the bytes are.\<close>

lemma read_all_body:
  assumes "\<forall>l. 0 < room l" and "length (rbuf (cr_r c)) + length (conn_pending (under (cr_r c))) < fuel"
  shows "\<exists>v e c'. read_all conn_chunked_read room fuel acc c = Some (v, e, c') \<and>
           length (rbuf (cr_r c')) + length (conn_pending (under (cr_r c'))) \<le>
           length (rbuf (cr_r c)) + length (conn_pending (under (cr_r c)))"
  using body_m.read_all_ends [of room c fuel acc] assms by (simp add: body_size)

lemma read_body_part_le:
  assumes "read_body_part lib hb req b = (r, b')" and "\<forall>l. 0 < lib_room lib l"
  shows "length (conn_pending b') \<le> length (conn_pending b)"
proof -
  have "length (rbuf (cr_r (new_chunked_reader b))) + length (conn_pending (under (cr_r (new_chunked_reader b)))) <
      in_fuel b" by (simp add: new_chunked_reader_def in_fuel_def)
  from read_all_body [OF assms(2) this, of "[]"] assms(1) show ?thesis
    by (auto simp: read_body_part_def read_preview_def Let_def new_chunked_reader_def
        split: if_splits option.splits)
qed

lemma read_sections_le:
  assumes "read_sections lib st req b = Done (r, b')" and room: "\<forall>l. 0 < lib_room lib l"
  shows "length (conn_pending b') \<le> length (conn_pending b)"
proof -
  obtain r1 b1 where 1: "read_section (initial_offset st) b = Done (r1, b1)"
    using assms(1) by (cases "read_section (initial_offset st) b") (auto simp: read_sections_def)
  show ?thesis
  proof (cases r1)
    case (Inl e)
    with 1 assms(1) read_section_le [OF 1] show ?thesis by (simp add: read_sections_def)
  next
    case r1: (Inr x1)
    obtain r2 b2 where 2: "read_section (req_hdr_len st) b1 = Done (r2, b2)"
      using assms(1) 1 r1 by (cases "read_section (req_hdr_len st) b1") (auto simp: read_sections_def)
    show ?thesis
    proof (cases r2)
      case (Inl e)
      with 1 2 r1 assms(1) read_section_le [OF 1] read_section_le [OF 2] show ?thesis
        by (simp add: read_sections_def)
    next
      case r2: (Inr x2)
      obtain r3 b3 where 3: "read_section (resp_hdr_len st) b2 = Done (r3, b3)"
        using assms(1) 1 2 r1 r2 by (cases "read_section (resp_hdr_len st) b2") (auto simp: read_sections_def)
      obtain r4 b4 where 4: "read_body_part lib (has_body st) req b3 = (r4, b4)"
        by (cases "read_body_part lib (has_body st) req b3")
      have "b' = b3 \<or> b' = b4"
        using assms(1) 1 2 3 4 r1 r2
        by (auto simp: read_sections_def split: sum.splits)
      with read_section_le [OF 1] read_section_le [OF 2] read_section_le [OF 3]
        read_body_part_le [OF 4 room] show ?thesis by auto
    qed
  qed
qed

text \<open>A request that is read has taken at least one byte.\<close>

lemma read_icap_request_le:
  assumes "read_icap_request lib b = Done (r, b')" and room: "\<forall>l. 0 < lib_room lib l"
  shows "length (conn_pending b') \<le> length (conn_pending b) \<and>
         (\<forall>req. r = Inr req \<longrightarrow> length (conn_pending b') < length (conn_pending b))"
proof -
  obtain res b1 where t: "tp_read_line net_read (in_fuel b) [] b = (res, b1)"
    by (cases "tp_read_line net_read (in_fuel b) [] b")
  obtain h b2 where m: "read_mime_header net_read (in_fuel b1) b1 = (h, b2)"
    by (cases "read_mime_header net_read (in_fuel b1) b1")
  have b2: "length (conn_pending b2) \<le> length (conn_pending b1)"
    using net_m.read_mime_header_le [OF m] by (simp add: conn_size)
  show ?thesis
  proof (cases res)
    case (Inl e)
    with t assms(1) net_m.tp_read_line_le [OF t] show ?thesis
      by (auto simp: read_icap_request_def conn_size)
  next
    case (Inr s)
    have b1: "length (conn_pending b1) < length (conn_pending b)"
      using net_m.tp_read_line_le [OF t] Inr by (simp add: conn_size)
    have "b' = b1 \<or> b' = b2 \<or> (\<exists>st req. read_sections lib st req b2 = Done (r, b'))"
      using assms(1) t m Inr
      by (auto simp: read_icap_request_def Let_def split: list.splits sum.splits if_splits)
    with b1 b2 read_sections_le [OF _ room, of _ _ b2 r b'] show ?thesis by fastforce
  qed
qed

section \<open>Properties\<close>

text \<open>C28: Reading a body to its end terminates for every input, however malformed: one unit of fuel for
  each pending byte and one for the end are enough, and nothing is read twice.\<close>

theorem body_read_terminates:
  assumes "\<forall>l. 0 < room l" and "length buf + length (conn_pending b) < fuel"
  shows "\<exists>bs err c'. read_all conn_chunked_read room fuel []
           \<lparr>cr_r = \<lparr>rbuf = buf, under = b\<rparr>, cr_n = n, cr_err = e\<rparr> = Some (bs, err, c') \<and>
         length (pending2 (cr_r c')) \<le> length buf + length (conn_pending b)"
  using read_all_body [OF assms(1), of "\<lparr>cr_r = \<lparr>rbuf = buf, under = b\<rparr>, cr_n = n, cr_err = e\<rparr>" fuel "[]"] assms(2)
  by (auto simp: pending2_def)

lemma body_read_terminates_witness:
  "\<exists>bs err c'. read_all conn_chunked_read (\<lambda>l. 1) 20 []
       \<lparr>cr_r = \<lparr>rbuf = ''zz'', under = \<lparr>rbuf = [LF], under = \<lparr>segs = [''garbage''], net_err = EOF\<rparr>\<rparr>\<rparr>,
         cr_n = 7, cr_err = None\<rparr> = Some (bs, err, c') \<and> length (pending2 (cr_r c')) \<le> length (''zz'' @ [LF] @ ''garbage'')"
  using body_read_terminates [of "\<lambda>l. 1" "''zz''" "\<lparr>rbuf = [LF], under = \<lparr>segs = [''garbage''], net_err = EOF\<rparr>\<rparr>"
      20 7 None] by (simp add: conn_pending_def)

end
