(* ===== verification/Steady.thy ===== *)
theory Steady
  imports Progress
begin

text \<open>
  Reading through buffers never puts anything back: whatever a read keeps of the reader below, a buffered
  reader, a chunked reader and \<open>ReadAll\<close> keep as well. For the connection this says that reading a body
  leaves at most as many bytes pending as there were, whatever the body has buffered itself.
\<close>

section \<open>What a read keeps\<close>

locale steady_reader =
  fixes rd :: "nat \<Rightarrow> 's \<Rightarrow> bytes \<times> go_error option \<times> 's"
    and I :: "'s \<Rightarrow> bool"
  assumes keeps: "rd n s = (ch, e, s') \<Longrightarrow> I s \<Longrightarrow> I s'"

context steady_reader
begin

lemma bufio_read_keeps: "bufio_read rd n b = (ch, e, b') \<Longrightarrow> I (under b) \<Longrightarrow> I (under b')"
  using keeps [of n "under b"] keeps [of buf_size "under b"]
  by (auto simp: bufio_read_def split: if_splits prod.splits)

lemma read_slice_keeps:
  "read_slice rd d b = (l, e, b') \<Longrightarrow> I (under b) \<Longrightarrow> I (under b')"
proof (induction "buf_size - length (rbuf b)" arbitrary: b rule: less_induct)
  case less
  show ?case
  proof (cases "d \<in> set (rbuf b) \<or> buf_size \<le> length (rbuf b)")
    case True
    with less.prems show ?thesis by (subst (asm) read_slice.simps) (auto simp: Let_def split: if_splits)
  next
    case False
    obtain ch x u where r: "rd (buf_size - length (rbuf b)) (under b) = (ch, x, u)"
      by (cases "rd (buf_size - length (rbuf b)) (under b)")
    have u: "I u" using keeps [OF r] less.prems(2) by simp
    show ?thesis
    proof (cases "ch = []")
      case True
      with False less.prems(1) r u show ?thesis by (subst (asm) read_slice.simps) auto
    next
      case ne: False
      let ?b = "\<lparr>rbuf = rbuf b @ ch, under = u\<rparr>"
      have "read_slice rd d ?b = (l, e, b')"
        using False ne less.prems(1) r by (subst (asm) read_slice.simps) simp
      moreover have "buf_size - length (rbuf ?b) < buf_size - length (rbuf b)"
        using False ne by (cases ch) auto
      ultimately show ?thesis using less.hyps [of ?b] u by simp
    qed
  qed
qed

lemma read_full_keeps:
  "read_full rd n acc b = (bs, e, b') \<Longrightarrow> I (under b) \<Longrightarrow> I (under b')"
proof (induction n arbitrary: acc b rule: less_induct)
  case (less n)
  obtain ch x b1 where r: "bufio_read rd n b = (ch, x, b1)" by (cases "bufio_read rd n b")
  note k = bufio_read_keeps [OF r less.prems(2)]
  show ?case
  proof (cases "n = 0 \<or> ch = [] \<or> n \<le> length ch \<or> x \<noteq> None")
    case True
    with less.prems r k show ?thesis
      by (subst (asm) read_full.simps) (auto split: if_splits option.splits)
  next
    case False
    then have "read_full rd (n - length ch) (acc @ ch) b1 = (bs, e, b')"
      using less.prems r by (subst (asm) read_full.simps) simp
    moreover have "n - length ch < n" using False by simp
    ultimately show ?thesis using less.IH k by blast
  qed
qed

lemma begin_chunk_keeps: "I (under (cr_r c)) \<Longrightarrow> I (under (cr_r (begin_chunk rd c)))"
proof -
  assume a: "I (under (cr_r c))"
  obtain p e b1 where s: "read_slice rd LF (cr_r c) = (p, e, b1)" by (cases "read_slice rd LF (cr_r c)")
  from read_slice_keeps [OF s a] s show ?thesis
    by (auto simp: begin_chunk_def read_line_def split: option.splits sum.splits if_splits)
qed

lemma end_chunk_keeps: "I (under (cr_r c)) \<Longrightarrow> I (under (cr_r (end_chunk rd c)))"
proof -
  assume a: "I (under (cr_r c))"
  obtain p e b1 where s: "read_full rd 2 [] (cr_r c) = (p, e, b1)" by (cases "read_full rd 2 [] (cr_r c)")
  from read_full_keeps [OF s a] s show ?thesis
    by (auto simp: end_chunk_def split: option.splits)
qed

lemma chunked_steady: "steady_reader (chunked_read rd) (\<lambda>c. I (under (cr_r c)))"
proof
  fix k c d e c'
  assume r: "chunked_read rd k c = (d, e, c')" and a: "I (under (cr_r c))"
  define c1 where "c1 = (if cr_n c = 0 then begin_chunk rd c else c)"
  have a1: "I (under (cr_r c1))" using a begin_chunk_keeps by (simp add: c1_def)
  obtain d0 e0 r0 where b: "bufio_read rd (if unat (cr_n c1) < k then unat (cr_n c1) else k) (cr_r c1) = (d0, e0, r0)"
    by (cases "bufio_read rd (if unat (cr_n c1) < k then unat (cr_n c1) else k) (cr_r c1)")
  define c2 where "c2 = c1\<lparr>cr_r := r0, cr_err := e0, cr_n := cr_n c1 - word_of_nat (length d0)\<rparr>"
  have a2: "I (under (cr_r c2))" using bufio_read_keeps [OF b a1] by (simp add: c2_def)
  show "I (under (cr_r c'))"
    using r a a1 a2 end_chunk_keeps [OF a2]
    unfolding chunked_read_def c1_def [symmetric] Let_def b prod.case c2_def [symmetric]
    by (auto split: option.splits if_splits)
qed

lemma read_all_keeps: "read_all rd room fuel acc s = Some (v, e, s') \<Longrightarrow> I s \<Longrightarrow> I s'"
proof (induction fuel arbitrary: acc s)
  case (Suc fuel)
  obtain ch x s1 where r: "rd (room (length acc)) s = (ch, x, s1)" by (cases "rd (room (length acc)) s")
  from keeps [OF r Suc.prems(2)] Suc.prems(1) Suc.IH r show ?case by (cases x) auto
qed simp

end

section \<open>The connection\<close>

text \<open>Reading goes on: nothing has been written, and no more is pending than before.\<close>

definition reads_on :: "conn_io \<Rightarrow> conn_io \<Rightarrow> bool" where
  "reads_on c c' \<longleftrightarrow> c_out c' = c_out c \<and> length (conn_pending (c_in c')) \<le> length (conn_pending (c_in c))"

lemma reads_on_refl [simp]: "reads_on c c"
  by (simp add: reads_on_def)

lemma reads_on_trans: "reads_on c c1 \<Longrightarrow> reads_on c1 c2 \<Longrightarrow> reads_on c c2"
  by (simp add: reads_on_def)

interpretation conn_steady: steady_reader "bufio_read net_read" "\<lambda>b. length (conn_pending b) \<le> k" for k
  by unfold_locales (use conn_m.read_le in \<open>fastforce simp: conn_size\<close>)

interpretation body_steady: steady_reader conn_chunked_read "\<lambda>c. length (conn_pending (under (cr_r c))) \<le> k" for k
  by (rule conn_steady.chunked_steady)

lemma read_all_pending:
  assumes "read_all conn_chunked_read room fuel acc cr = Some (bs, e, cr')"
  shows "length (conn_pending (under (cr_r cr'))) \<le> length (conn_pending (under (cr_r cr)))"
proof -
  have "length (conn_pending (under (cr_r cr))) \<le> k \<Longrightarrow> length (conn_pending (under (cr_r cr'))) \<le> k" for k
    using body_steady.read_all_keeps [OF assms, of k] by simp
  then show ?thesis by simp
qed

lemma read_body_reads_on: "read_body lib bd c = Done (bs, err, left, c') \<Longrightarrow> reads_on c c'"
  by (auto simp: read_body_def reads_on_def simp del: read_all.simps split: body.splits option.splits
      dest!: read_all_pending)

lemma read_the_rest_pending:
  assumes "read_the_rest lib req c = (bs, req', c')"
  shows "length (conn_pending (c_in c')) \<le> length (conn_pending (c_in c))"
proof (cases "read_all conn_chunked_read (lib_room lib) (in_fuel (c_in c)) [] (new_chunked_reader (c_in c))")
  case None
  with assms show ?thesis by (auto simp: read_the_rest_def Let_def)
next
  case (Some x)
  obtain v e s where "x = (v, e, s)" by (cases x)
  with Some assms show ?thesis
    by (auto simp: read_the_rest_def Let_def new_chunked_reader_def simp del: read_all.simps dest!: read_all_pending)
qed

lemma read_body_output: "read_body lib bd c = Done (bs, err, left, c') \<Longrightarrow> c_out c' = c_out c"
  using read_body_reads_on by (simp add: reads_on_def)

end
