(* ===== verification/Services.thy ===== *)
theory Services
  imports ServiceUtils Steady
begin

text \<open>
  The services of \<open>service/services\<close> (echo, clamav, clhashlookup), their configuration, and
  \<open>service/service.go\<close>, which selects one by the vendor.

  A call of \<open>Processing\<close> takes the message pair, the connection and the ICAP header of the request,
  which it may extend, and returns the ICAP status, the message to answer with, the headers to add and
  the headers of the message before and after for the log. The ClamAV daemon and the hash lookup server
  are parameters; the vendor messages are always empty and left out.
\<close>

section \<open>Configuration\<close>

text \<open>The timeout is a \<open>time.Duration\<close>: nanoseconds, in 64 bits.\<close>

definition second :: "64 word" where
  "second = 10 ^ 9"

record svc_config =
  sc_max_file_size :: int
  sc_bypass_exts :: "string list"
  sc_process_exts :: "string list"
  sc_reject_exts :: "string list"
  sc_ext_arrs :: "extension list"
  sc_return_orig :: bool
  sc_return_400 :: bool
  sc_bypass_on_api_error :: bool
  sc_block_code :: nat
  sc_block_body :: bool
  sc_exception_page :: string
  sc_scan_url :: string
  sc_timeout :: "64 word"

record scan_result =
  sr_status :: string
  sr_description :: string

text \<open>
  What the ClamAV client returns for a stream: an error, or whether the channel was closed within the
  five seconds the service waits, with the results received; and what the hash lookup returns for a URL
  within a timeout: no request for an invalid URL, an error of the exchange, or the decoded object
  (empty when decoding fails).
\<close>

datatype lookup_result = BadUrl | LookupError go_error | Looked "(string \<times> json) list"

record scan_lib =
  scl_svc :: svc_lib
  scl_clamd :: "bytes \<Rightarrow> go_error + bool \<times> scan_result list"
  scl_lookup :: "string \<Rightarrow> int \<Rightarrow> lookup_result"

section \<open>Calls\<close>

record svc_state =
  ss_msg :: http_message
  ss_conn :: conn_io
  ss_icap :: header

record svc_out =
  so_status :: nat
  so_msg :: svc_msg
  so_headers :: "(string \<times> string) list"
  so_before :: "(string \<times> string) list"
  so_after :: "(string \<times> string) list"

type_synonym processing = "bool \<Rightarrow> svc_state \<Rightarrow> (svc_out \<times> svc_state) outcome"

text \<open>Who is called: the service name, the ICAP method and the metadata of the request.\<close>

record svc_call =
  ca_service :: string
  ca_method :: string
  ca_metadata :: string

abbreviation stop :: "nat \<Rightarrow> svc_msg \<Rightarrow> (string \<times> string) list \<Rightarrow> (string \<times> string) list \<Rightarrow>
    (string \<times> string) list \<Rightarrow> svc_state \<Rightarrow> (svc_out \<times> svc_state) outcome" where
  "stop status msg headers before after st \<equiv>
     Done (\<lparr>so_status = status, so_msg = msg, so_headers = headers, so_before = before, so_after = after\<rparr>, st)"

text \<open>Stopping after the headers of the message have been logged once more.\<close>

definition stop_logged :: "svc_call \<Rightarrow> nat \<Rightarrow> svc_msg \<Rightarrow> (string \<times> string) list \<Rightarrow> (string \<times> string) list \<Rightarrow>
    svc_state \<Rightarrow> (svc_out \<times> svc_state) outcome" where
  "stop_logged ca status msg headers before st =
     bind_outcome (log_http_msg_headers (ca_method ca) (ss_msg st)) (\<lambda>after.
       stop status msg headers before after st)"

section \<open>Steps the services share\<close>

definition content_type_of :: "svc_call \<Rightarrow> http_message \<Rightarrow> string outcome" where
  "content_type_of ca hm =
     (let first = (\<lambda>h. case map_of h ''Content-Type'' of Some (v # vs) \<Rightarrow> v | _ \<Rightarrow> [])
      in if ca_method ca = ''REQMOD''
         then (case hm_request hm of None \<Rightarrow> Panic ''nil request'' | Some r \<Rightarrow> Done (first (rq_header r)))
         else (case hm_response hm of None \<Rightarrow> Panic ''nil response'' | Some r \<Rightarrow> Done (first (rs_header r))))"

definition request_of :: "http_message \<Rightarrow> http_request outcome" where
  "request_of hm = (case hm_request hm of None \<Rightarrow> Panic ''nil request'' | Some r \<Rightarrow> Done r)"

text \<open>The answer when the file is larger than the service accepts.\<close>

definition max_size_stop :: "svc_lib \<Rightarrow> svc_config \<Rightarrow> svc_call \<Rightarrow> bytes \<Rightarrow> content_type option \<Rightarrow> string \<Rightarrow>
    string \<Rightarrow> (string \<times> string) list \<Rightarrow> (string \<times> string) list \<Rightarrow> svc_state \<Rightarrow> (svc_out \<times> svc_state) outcome" where
  "max_size_stop lib cfg ca file ct page_path sz headers before st =
     bind_outcome (if_max_file_size_exc lib (sc_return_orig cfg) (ca_service ca) (ca_method ca) file page_path sz
         (ca_metadata ca) (ss_msg st)) (\<lambda>(status, file1, msg, hm1).
     bind_outcome (if_status_is_204_with_file lib (ca_method ca) status file1 False ct msg True hm1)
       (\<lambda>(prep, msg1, hm2).
       case (prep, msg1) of
         (None, SvcNil) \<Rightarrow> stop 500 SvcNil headers before [] (st\<lparr>ss_msg := hm2\<rparr>)
       | (_, SvcRequest r) \<Rightarrow>
           (case set_msg_body msg1 (case prep of None \<Rightarrow> [] | Some bs \<Rightarrow> bs) hm2 of
              (msg2, hm3) \<Rightarrow> stop_logged ca status msg2 [] before (st\<lparr>ss_msg := hm3\<rparr>))
       | (_, SvcResponse r) \<Rightarrow>
           (case set_msg_body msg1 (case prep of None \<Rightarrow> [] | Some bs \<Rightarrow> bs) hm2 of
              (msg2, hm3) \<Rightarrow> stop_logged ca status msg2 [] before (st\<lparr>ss_msg := hm3\<rparr>))
       | _ \<Rightarrow> stop_logged ca status SvcNil [] before (st\<lparr>ss_msg := hm2\<rparr>)))"

text \<open>The answer for an unsafe file.\<close>

definition block_stop :: "svc_lib \<Rightarrow> svc_config \<Rightarrow> svc_call \<Rightarrow> string \<Rightarrow> string \<Rightarrow> string \<Rightarrow>
    (string \<times> string) list \<Rightarrow> (string \<times> string) list \<Rightarrow> (string \<times> string) list \<Rightarrow> svc_state \<Rightarrow>
    (svc_out \<times> svc_state) outcome" where
  "block_stop lib cfg ca file_hash page_path sz headers req_headers before st =
     (if ca_method ca = ''RESPMOD''
      then bind_outcome (request_of (ss_msg st)) (\<lambda>rq.
           bind_outcome (gen_html_page lib page_path
               \<lparr>ep_reason = ''fileIsNotSafe'', ep_service_name = ca_service ca, ep_requested_url = rq_uri rq,
                ep_identifier = file_hash, ep_exception_page = [], ep_size = sz, ep_metadata = ca_metadata ca\<rparr>) (\<lambda>page.
             let resp = err_page_resp (sc_block_code cfg) (length page);
                 resp1 = (if sc_block_body cfg then resp\<lparr>rs_body := BytesBody page\<rparr>
                          else resp\<lparr>rs_body := BytesBody [],
                                 rs_header := AList.delete ''Content-Length''
                                                (AList.delete ''Content-Type'' (rs_header resp))\<rparr>)
             in stop_logged ca 200 (SvcResponse resp1) headers before
                  (st\<lparr>ss_msg := (ss_msg st)\<lparr>hm_response := Some resp1\<rparr>\<rparr>)))
      else bind_outcome (req_mod_err_page lib ''fileIsNotSafe'' (ca_service ca) file_hash sz (ss_msg st))
             (\<lambda>(res, hm1).
             case res of
               Inl e \<Rightarrow> stop 500 SvcNil [] before [] (st\<lparr>ss_msg := hm1\<rparr>)
             | Inr (page, req) \<Rightarrow>
                 stop_logged ca 200 (SvcRequest (req\<lparr>rq_body := BytesBody page\<rparr>)) (headers @ req_headers) before
                   (st\<lparr>ss_msg := hm1\<rparr>)))"

definition page_path_of :: "svc_config \<Rightarrow> string" where
  "page_path_of cfg = (if sc_exception_page cfg \<noteq> [] then sc_exception_page cfg else ''block-page.html'')"

definition metadata_headers :: "svc_call \<Rightarrow> (string \<times> string) list" where
  "metadata_headers ca = [(''X-ICAP-Metadata'', ca_metadata ca)]"

section \<open>Echo\<close>

definition echo_processing :: "svc_lib \<Rightarrow> svc_config \<Rightarrow> svc_call \<Rightarrow> processing" where
  "echo_processing lib cfg ca partial st =
     (let headers = metadata_headers ca in
      bind_outcome (log_http_msg_headers (ca_method ca) (ss_msg st)) (\<lambda>before.
      if partial then stop 100 SvcNil [] before [] st
      else
      bind_outcome (copying_file_to_the_buffer lib (ca_method ca) (ss_msg st) (ss_conn st)) (\<lambda>(res, hm1, c1).
      let st1 = st\<lparr>ss_msg := hm1, ss_conn := c1\<rparr> in
      case res of
        Inl e \<Rightarrow> stop 500 SvcNil headers before [] st1
      | Inr (file, ct) \<Rightarrow>
      bind_outcome (request_of hm1) (\<lambda>rq.
      if rq_method rq = ''CONNECT''
      then bind_outcome (returning_http_message_with_file (ca_method ca) file hm1) (\<lambda>(msg, hm2).
             stop 200 msg headers before [] (st1\<lparr>ss_msg := hm2\<rparr>))
      else
      bind_outcome (content_type_of ca hm1) (\<lambda>ctype.
      let fe = get_mime_extension lib file ctype (get_file_name hm1);
          sz = itoa (length file div 1000) @ '' kb''
      in
      bind_outcome (check_the_extension lib fe (sc_ext_arrs cfg) (sc_process_exts cfg) (sc_reject_exts cfg)
          (sc_bypass_exts cfg) (sc_return_400 cfg) False (ca_service ca) (ca_method ca) ''ECHO ID'' (rq_uri rq)
          ct file ''block-page.html'' sz (ca_metadata ca) hm1) (\<lambda>(go, status, msg, hm2).
      let st2 = st1\<lparr>ss_msg := hm2\<rparr> in
      if \<not> go then stop_logged ca status msg headers before st2
      else if sc_max_file_size cfg \<noteq> 0 \<and> sc_max_file_size cfg < int (length file)
      then max_size_stop lib cfg ca file ct ''block-page.html'' sz headers before st2
      else
      bind_outcome (preparing_file_after_scanning lib file ct (ca_method ca)) (\<lambda>scanned.
      bind_outcome (log_http_msg_headers (ca_method ca) hm2) (\<lambda>after.
      bind_outcome (returning_http_message_with_file (ca_method ca) scanned hm2) (\<lambda>(msg1, hm3).
      stop 200 msg1 headers before after (st2\<lparr>ss_msg := hm3\<rparr>))))))))))"

section \<open>The scanning services\<close>

text \<open>The opening of both scanners: partial bodies and byte ranges are not scanned.\<close>

definition byte_range :: "svc_call \<Rightarrow> http_message \<Rightarrow> bool" where
  "byte_range ca hm \<longleftrightarrow> ca_method ca = ''RESPMOD'' \<and>
     (case hm_response hm of None \<Rightarrow> False | Some r \<Rightarrow> rs_code r = 206)"

text \<open>
  The part of \<open>Processing\<close> the scanners have in common, up to the scan itself: \<open>scan file ct sz before
  st\<close> is what follows.
\<close>

definition scan_processing :: "svc_lib \<Rightarrow> svc_config \<Rightarrow> svc_call \<Rightarrow>
    (bytes \<Rightarrow> content_type option \<Rightarrow> string \<Rightarrow> (string \<times> string) list \<Rightarrow> svc_state \<Rightarrow>
       (svc_out \<times> svc_state) outcome) \<Rightarrow> processing" where
  "scan_processing lib cfg ca scan partial st0 =
     (let headers = metadata_headers ca in
      bind_outcome (log_http_msg_headers (ca_method ca) (ss_msg st0)) (\<lambda>before.
      let st = st0\<lparr>ss_icap := hadd (ss_icap st0) ''X-ICAP-Metadata'' (ca_metadata ca)\<rparr> in
      if partial then stop 100 SvcNil [] before [] st
      else if byte_range ca (ss_msg st) then stop 204 SvcHttpMsg headers before [] st
      else
      bind_outcome (copying_file_to_the_buffer lib (ca_method ca) (ss_msg st) (ss_conn st)) (\<lambda>(res, hm1, c1).
      let st1 = st\<lparr>ss_msg := hm1, ss_conn := c1\<rparr> in
      case res of
        Inl e \<Rightarrow> stop 500 SvcNil headers before [] st1
      | Inr (file, ct) \<Rightarrow>
      if ca_method ca = ''REQMOD'' \<and> (case hm_request hm1 of None \<Rightarrow> False | Some r \<Rightarrow> rq_method r = ''CONNECT'')
      then bind_outcome (returning_http_message_with_file (ca_method ca) file hm1) (\<lambda>(msg, hm2).
             stop 200 msg headers before [] (st1\<lparr>ss_msg := hm2\<rparr>))
      else
      bind_outcome (content_type_of ca hm1) (\<lambda>ctype.
      let fe = get_mime_extension lib file ctype (get_file_name hm1);
          sz = itoa (length file)
      in
      bind_outcome (request_of hm1) (\<lambda>rq.
      bind_outcome (check_the_extension lib fe (sc_ext_arrs cfg) (sc_process_exts cfg) (sc_reject_exts cfg)
          (sc_bypass_exts cfg) (sc_return_400 cfg) False (ca_service ca) (ca_method ca) (sl_sha256_hex lib file)
          (rq_uri rq) ct file (page_path_of cfg) sz (ca_metadata ca) hm1) (\<lambda>(go, status, msg, hm2).
      let st2 = st1\<lparr>ss_msg := hm2\<rparr> in
      if \<not> go then stop_logged ca status msg headers before st2
      else if sc_max_file_size cfg \<noteq> 0 \<and> sc_max_file_size cfg < int (length file)
      then max_size_stop lib cfg ca file ct (page_path_of cfg) sz headers before st2
      else scan file ct sz before st2))))))"

text \<open>
  The scan of \<open>clamav.go\<close>. A scan that is not over after five seconds reads the text of an error that
  is nil.
\<close>

definition clamav_scan :: "scan_lib \<Rightarrow> svc_config \<Rightarrow> svc_call \<Rightarrow> bytes \<Rightarrow> content_type option \<Rightarrow> string \<Rightarrow>
    (string \<times> string) list \<Rightarrow> svc_state \<Rightarrow> (svc_out \<times> svc_state) outcome" where
  "clamav_scan sl cfg ca file ct sz before st =
     (let lib = scl_svc sl; headers = metadata_headers ca in
      case scl_clamd sl file of
        Inl e \<Rightarrow> stop 500 SvcNil headers before [] st
      | Inr (finished, results) \<Rightarrow>
          (if \<not> finished then Panic ''nil error''
           else
             (let result = (if results = [] then \<lparr>sr_status = [], sr_description = []\<rparr> else last results) in
              if sr_status result = ''FOUND''
              then block_stop lib cfg ca [] (page_path_of cfg) sz headers
                     [(''X-Virus-ID'', sr_description result)] before st
              else
                bind_outcome (if_icap_status_is_204 lib (ca_method ca) 204 file False ct SvcHttpMsg (ss_msg st))
                  (\<lambda>(prep, msg, hm1).
                  case (prep, msg) of
                    (None, SvcNil) \<Rightarrow> stop 500 SvcNil [] before [] (st\<lparr>ss_msg := hm1\<rparr>)
                  | (_, SvcRequest r) \<Rightarrow>
                      stop_logged ca 204
                        (fst (set_msg_body msg (case prep of None \<Rightarrow> [] | Some bs \<Rightarrow> bs) hm1))
                        headers before (st\<lparr>ss_msg := hm1\<rparr>)
                  | (_, SvcResponse r) \<Rightarrow>
                      stop_logged ca 204
                        (fst (set_msg_body msg (case prep of None \<Rightarrow> [] | Some bs \<Rightarrow> bs) hm1))
                        headers before (st\<lparr>ss_msg := hm1\<rparr>)
                  | _ \<Rightarrow> stop_logged ca 204 SvcNil headers before (st\<lparr>ss_msg := hm1\<rparr>)))))"

definition clamav_processing :: "scan_lib \<Rightarrow> svc_config \<Rightarrow> svc_call \<Rightarrow> processing" where
  "clamav_processing sl cfg ca = scan_processing (scl_svc sl) cfg ca (clamav_scan sl cfg ca)"

text \<open>\<open>sendFileToScan\<close>: any printed value of \<open>KnownMalicious\<close> other than that of a missing one is a hit.\<close>

definition send_file_to_scan :: "scan_lib \<Rightarrow> svc_config \<Rightarrow> bytes \<Rightarrow> (go_error + bool) outcome" where
  "send_file_to_scan sl cfg file =
     (case scl_lookup sl (sc_scan_url cfg @ sl_sha256_hex (scl_svc sl) file) (sint (sc_timeout cfg)) of
        BadUrl \<Rightarrow> Panic ''nil request''
      | LookupError e \<Rightarrow> Done (Inl e)
      | Looked obj \<Rightarrow>
          (let y = json_sprint (scl_svc sl) (map_of obj ''KnownMalicious'')
           in Done (Inr (y \<noteq> [] \<and> y \<noteq> ''<nil>''))))"

definition hashlookup_scan :: "scan_lib \<Rightarrow> svc_config \<Rightarrow> svc_call \<Rightarrow> bytes \<Rightarrow> content_type option \<Rightarrow> string \<Rightarrow>
    (string \<times> string) list \<Rightarrow> svc_state \<Rightarrow> (svc_out \<times> svc_state) outcome" where
  "hashlookup_scan sl cfg ca file ct sz before st =
     (let lib = scl_svc sl; headers = metadata_headers ca in
      bind_outcome (send_file_to_scan sl cfg file) (\<lambda>res.
      case res of
        Inl e \<Rightarrow>
          (if \<not> sc_bypass_on_api_error cfg
           then (if contains (err_text e) ''context deadline exceeded''
                 then stop 408 SvcNil [] before [] st else stop 400 SvcNil [] before [] st)
           else
             bind_outcome (log_http_msg_headers (ca_method ca) (ss_msg st)) (\<lambda>after.
             bind_outcome (preparing_file_after_scanning lib file ct (ca_method ca)) (\<lambda>scanned.
             bind_outcome (returning_http_message_with_file (ca_method ca) scanned (ss_msg st)) (\<lambda>(msg, hm1).
             stop 204 msg headers before after (st\<lparr>ss_msg := hm1\<rparr>)))))
      | Inr mal \<Rightarrow>
          (if mal
           then block_stop lib cfg ca (sl_sha256_hex lib file) (page_path_of cfg) sz headers [] before st
           else
             bind_outcome (log_http_msg_headers (ca_method ca) (ss_msg st)) (\<lambda>after.
             bind_outcome (preparing_file_after_scanning lib file ct (ca_method ca)) (\<lambda>scanned.
             bind_outcome (returning_http_message_with_file (ca_method ca) scanned (ss_msg st)) (\<lambda>(msg, hm1).
             stop 204 msg headers before after (st\<lparr>ss_msg := hm1\<rparr>)))))))"

definition hashlookup_processing :: "scan_lib \<Rightarrow> svc_config \<Rightarrow> svc_call \<Rightarrow> processing" where
  "hashlookup_processing sl cfg ca = scan_processing (scl_svc sl) cfg ca (hashlookup_scan sl cfg ca)"

definition istag_value :: "svc_lib \<Rightarrow> string" where
  "istag_value lib = ''epoch-'' @ sl_epoch lib"

section \<open>Selecting a service\<close>

text \<open>The package variables that hold each vendor's configuration, set once.\<close>

record svc_globals =
  sg_echo :: "svc_config option"
  sg_hashlookup :: "svc_config option"
  sg_clamav :: "svc_config option"

definition init_config :: "(string \<Rightarrow> svc_config) \<Rightarrow> string \<Rightarrow> svc_config" where
  "init_config read name =
     (let c = read name
      in c\<lparr>sc_ext_arrs := init_exts_arr (sc_process_exts c) (sc_reject_exts c) (sc_bypass_exts c)\<rparr>)"

definition do_once :: "'a option \<Rightarrow> 'a \<Rightarrow> 'a option" where
  "do_once v new = (case v of None \<Rightarrow> Some new | Some old \<Rightarrow> Some old)"

definition init_service_config :: "(string \<Rightarrow> svc_config) \<Rightarrow> string \<Rightarrow> string \<Rightarrow> svc_globals \<Rightarrow> svc_globals" where
  "init_service_config read vendor name g =
     (if vendor = ''echo'' then g\<lparr>sg_echo := do_once (sg_echo g) (init_config read name)\<rparr>
      else if vendor = ''clhashlookup'' then g\<lparr>sg_hashlookup := do_once (sg_hashlookup g) (init_config read name)\<rparr>
      else if vendor = ''clamav'' then g\<lparr>sg_clamav := do_once (sg_clamav g) (init_config read name)\<rparr>
      else g)"

text \<open>
  The constructors take the configuration of the vendor, which must be there, and who is called. The two
  scanners multiply the timeout by a second once more.
\<close>

definition new_echo_service :: "svc_config option \<Rightarrow> svc_call \<Rightarrow> (svc_config \<times> svc_call) outcome" where
  "new_echo_service cfg ca = (case cfg of None \<Rightarrow> Panic ''nil config'' | Some c \<Rightarrow> Done (c, ca))"

definition new_hashlookup_service :: "svc_config option \<Rightarrow> svc_call \<Rightarrow> (svc_config \<times> svc_call) outcome" where
  "new_hashlookup_service cfg ca =
     (case cfg of
        None \<Rightarrow> Panic ''nil config''
      | Some c \<Rightarrow> Done (c\<lparr>sc_timeout := sc_timeout c * second\<rparr>, ca))"

definition new_clamav_service :: "svc_config option \<Rightarrow> svc_call \<Rightarrow> (svc_config \<times> svc_call) outcome" where
  "new_clamav_service cfg ca =
     (case cfg of
        None \<Rightarrow> Panic ''nil config''
      | Some c \<Rightarrow> Done (c\<lparr>sc_timeout := sc_timeout c * second\<rparr>, ca))"

text \<open>\<open>GetService\<close>: the nil service for an unknown vendor.\<close>

definition get_service :: "scan_lib \<Rightarrow> svc_globals \<Rightarrow> string \<Rightarrow> svc_call \<Rightarrow> processing option outcome" where
  "get_service sl g vendor ca =
     (if vendor = ''echo''
      then bind_outcome (new_echo_service (sg_echo g) ca) (\<lambda>(c, ca1). Done (Some (echo_processing (scl_svc sl) c ca1)))
      else if vendor = ''clhashlookup''
      then bind_outcome (new_hashlookup_service (sg_hashlookup g) ca) (\<lambda>(c, ca1). Done (Some (hashlookup_processing sl c ca1)))
      else if vendor = ''clamav''
      then bind_outcome (new_clamav_service (sg_clamav g) ca) (\<lambda>(c, ca1). Done (Some (clamav_processing sl c ca1)))
      else Done None)"

lemmas new_service_defs = new_echo_service_def new_hashlookup_service_def new_clamav_service_def

lemma get_service_Some:
  assumes "get_service sl g vendor ca = Done (Some proc)"
  shows "\<exists>c. (vendor = ''echo'' \<and> proc = echo_processing (scl_svc sl) c ca) \<or>
    (vendor = ''clhashlookup'' \<and> proc = hashlookup_processing sl c ca) \<or>
    (vendor = ''clamav'' \<and> proc = clamav_processing sl c ca)"
  using assms by (auto simp: get_service_def new_service_defs bind_outcome_Done_iff split: if_splits option.splits)

section \<open>What every service promises\<close>

text \<open>
  The contract of \<open>Processing\<close> the request handler relies on: a partial body makes the service ask for
  the rest, without touching the message or the connection; a full one never does.
\<close>

definition final_statuses :: "nat set" where
  "final_statuses = {200, 204, 400, 408, 500}"

locale icap_service =
  fixes proc :: processing
  assumes partial_continue: "proc True st = Done (r, st') \<Longrightarrow>
      so_status r = 100 \<and> so_msg r = SvcNil \<and> ss_msg st' = ss_msg st \<and> ss_conn st' = ss_conn st"
    and full_status: "proc False st = Done (r, st') \<Longrightarrow> so_status r \<in> final_statuses"

context icap_service
begin

lemma continue_iff_partial: "proc p st = Done (r, st') \<Longrightarrow> so_status r = 100 \<longleftrightarrow> p"
  using partial_continue [of st r st'] full_status [of st r st'] by (cases p) (auto simp: final_statuses_def)

end

text \<open>All results of a computation have a final status.\<close>

definition ends_final :: "(svc_out \<times> svc_state) outcome \<Rightarrow> bool" where
  "ends_final m \<longleftrightarrow> (\<forall>r st. m = Done (r, st) \<longrightarrow> so_status r \<in> final_statuses)"

lemma ends_final_bind: "(\<And>x. m = Done x \<Longrightarrow> ends_final (f x)) \<Longrightarrow> ends_final (bind_outcome m f)"
  by (cases m) (auto simp: ends_final_def)

lemma ends_final_stop: "status \<in> final_statuses \<Longrightarrow> ends_final (stop status msg hs b a st)"
  by (simp add: ends_final_def)

lemma ends_final_panic: "ends_final (Panic s)"
  by (simp add: ends_final_def)

lemma ends_final_logged: "status \<in> final_statuses \<Longrightarrow> ends_final (stop_logged ca status msg hs b st)"
  unfolding stop_logged_def by (intro ends_final_bind ends_final_stop)

lemma final_statuses [simp]:
  "200 \<in> final_statuses" "204 \<in> final_statuses" "400 \<in> final_statuses" "408 \<in> final_statuses"
  "500 \<in> final_statuses"
  by (simp_all add: final_statuses_def)

lemmas ends_final_rules = ends_final_bind ends_final_stop ends_final_panic ends_final_logged

lemma if_max_status:
  "if_max_file_size_exc lib ro sv m file pp sz md hm = Done (status, f, msg, hm') \<Longrightarrow> status \<in> final_statuses"
  by (auto simp: if_max_file_size_exc_def bind_outcome_def Let_def
      split: if_splits option.splits outcome.splits sum.splits prod.splits)

lemma max_size_final: "ends_final (max_size_stop lib cfg ca file ct pp sz hs b st)"
  unfolding max_size_stop_def
  by (intro ends_final_bind) (auto split: option.splits svc_msg.splits prod.splits
      intro!: ends_final_rules dest: if_max_status)

lemma block_final: "ends_final (block_stop lib cfg ca fh pp sz hs rhs b st)"
  unfolding block_stop_def Let_def
  by (auto intro!: ends_final_rules split: sum.splits)

lemma check_the_extension_status:
  "check_the_extension lib fe arrs pe re be r4 gz sv m ident uri ct file pp sz md hm = Done (False, status, msg, hm')
   \<Longrightarrow> status \<in> final_statuses"
  by (auto simp: check_the_extension_def bind_outcome_def Let_def
      split: if_splits option.splits outcome.splits sum.splits prod.splits svc_msg.splits)

lemma echo_final: "ends_final (echo_processing lib cfg ca False st)"
  unfolding echo_processing_def Let_def
  by (auto intro!: ends_final_rules max_size_final dest!: check_the_extension_status split: sum.splits)

lemma scan_processing_final:
  assumes "\<And>file ct sz b st. ends_final (scan file ct sz b st)"
  shows "ends_final (scan_processing lib cfg ca scan False st)"
  unfolding scan_processing_def Let_def
  by (auto intro!: ends_final_rules max_size_final assms dest!: check_the_extension_status split: sum.splits)

lemma clamav_scan_final: "ends_final (clamav_scan sl cfg ca file ct sz b st)"
  unfolding clamav_scan_def Let_def
  by (auto intro!: ends_final_rules block_final split: sum.splits option.splits svc_msg.splits)

lemma hashlookup_scan_final: "ends_final (hashlookup_scan sl cfg ca file ct sz b st)"
  unfolding hashlookup_scan_def Let_def
  by (auto intro!: ends_final_rules block_final split: sum.splits)

lemma echo_partial:
  "echo_processing lib cfg ca True st = Done (r, st') \<Longrightarrow>
     so_status r = 100 \<and> so_msg r = SvcNil \<and> ss_msg st' = ss_msg st \<and> ss_conn st' = ss_conn st"
  by (auto simp: echo_processing_def bind_outcome_def split: outcome.splits)

lemma scan_partial:
  "scan_processing lib cfg ca scan True st = Done (r, st') \<Longrightarrow>
     so_status r = 100 \<and> so_msg r = SvcNil \<and> ss_msg st' = ss_msg st \<and> ss_conn st' = ss_conn st"
  by (auto simp: scan_processing_def bind_outcome_def Let_def split: outcome.splits)

lemma ends_finalD: "ends_final m \<Longrightarrow> m = Done (r, st) \<Longrightarrow> so_status r \<in> final_statuses"
  by (simp add: ends_final_def)

interpretation echo_svc: icap_service "echo_processing lib cfg ca"
  by unfold_locales (fact echo_partial, rule ends_finalD [OF echo_final])

interpretation clamav_svc: icap_service "clamav_processing sl cfg ca"
  unfolding clamav_processing_def
  by unfold_locales (fact scan_partial, rule ends_finalD [OF scan_processing_final [OF clamav_scan_final]])

interpretation hashlookup_svc: icap_service "hashlookup_processing sl cfg ca"
  unfolding hashlookup_processing_def
  by unfold_locales (fact scan_partial, rule ends_finalD [OF scan_processing_final [OF hashlookup_scan_final]])

lemma get_service_contract:
  assumes "get_service sl g vendor ca = Done (Some proc)"
  shows "icap_service proc"
  using assms echo_svc.icap_service_axioms clamav_svc.icap_service_axioms hashlookup_svc.icap_service_axioms
  by (auto dest!: get_service_Some)

section \<open>Services do not write\<close>

text \<open>A service that reads from the connection but leaves the answer to its caller.\<close>

locale quiet_service = icap_service +
  assumes only_reads: "proc p st = Done (r, st') \<Longrightarrow> reads_on (ss_conn st) (ss_conn st')"

definition quiet :: "conn_io \<Rightarrow> (svc_out \<times> svc_state) outcome \<Rightarrow> bool" where
  "quiet c m \<longleftrightarrow> (\<forall>r st. m = Done (r, st) \<longrightarrow> reads_on c (ss_conn st))"

lemma quiet_bind: "(\<And>x. m = Done x \<Longrightarrow> quiet c (f x)) \<Longrightarrow> quiet c (bind_outcome m f)"
  by (cases m) (auto simp: quiet_def)

lemma quiet_stop: "reads_on c (ss_conn st) \<Longrightarrow> quiet c (stop status msg hs b a st)"
  by (simp add: quiet_def)

lemma quiet_panic: "quiet c (Panic s)"
  by (simp add: quiet_def)

lemma quiet_logged: "reads_on c (ss_conn st) \<Longrightarrow> quiet c (stop_logged ca status msg hs b st)"
  unfolding stop_logged_def by (intro quiet_bind quiet_stop)

lemmas quiet_rules = quiet_bind quiet_stop quiet_panic quiet_logged

lemma copying_file_reads_on:
  "copying_file_to_the_buffer lib m hm c = Done (res, hm', c') \<Longrightarrow> reads_on c c'"
  by (auto simp: copying_file_to_the_buffer_def copying_file_req_def copying_file_resp_def get_content_type_def
      bind_outcome_Done_iff Let_def split: if_splits option.splits prod.splits dest!: read_body_reads_on)

lemma max_size_quiet: "reads_on c (ss_conn st) \<Longrightarrow> quiet c (max_size_stop lib cfg ca file ct pp sz hs b st)"
  unfolding max_size_stop_def
  by (intro quiet_bind) (auto split: option.splits svc_msg.splits prod.splits intro!: quiet_rules)

lemma block_quiet: "reads_on c (ss_conn st) \<Longrightarrow> quiet c (block_stop lib cfg ca fh pp sz hs rhs b st)"
  unfolding block_stop_def Let_def by (auto intro!: quiet_rules split: sum.splits)

lemma echo_quiet: "quiet (ss_conn st) (echo_processing lib cfg ca p st)"
  unfolding echo_processing_def Let_def
  by (auto intro!: quiet_rules max_size_quiet split: sum.splits dest!: copying_file_reads_on)

lemma scan_processing_quiet:
  assumes "\<And>file ct sz b st. quiet (ss_conn st) (scan file ct sz b st)"
  shows "quiet (ss_conn st) (scan_processing lib cfg ca scan p st)"
proof -
  have "reads_on c (ss_conn st') \<Longrightarrow> quiet c (scan f ct sz b st')" for c f ct sz b st'
    using assms [of st' f ct sz b] reads_on_trans by (auto simp: quiet_def)
  then show ?thesis
    unfolding scan_processing_def Let_def
    by (auto intro!: quiet_rules max_size_quiet split: sum.splits dest!: copying_file_reads_on)
qed

lemma clamav_scan_quiet: "quiet (ss_conn st) (clamav_scan sl cfg ca file ct sz b st)"
  unfolding clamav_scan_def Let_def
  by (auto intro!: quiet_rules block_quiet split: sum.splits option.splits svc_msg.splits)

lemma hashlookup_scan_quiet: "quiet (ss_conn st) (hashlookup_scan sl cfg ca file ct sz b st)"
  unfolding hashlookup_scan_def Let_def
  by (auto intro!: quiet_rules block_quiet split: sum.splits)

lemma quietD: "quiet (ss_conn st) m \<Longrightarrow> m = Done (r, st') \<Longrightarrow> reads_on (ss_conn st) (ss_conn st')"
  by (simp add: quiet_def)

interpretation echo_quiet: quiet_service "echo_processing lib cfg ca"
  by unfold_locales (rule quietD [OF echo_quiet])

lemma scanners_quiet:
  "quiet (ss_conn st) (clamav_processing sl cfg ca p st)"
  "quiet (ss_conn st) (hashlookup_processing sl cfg ca p st)"
  unfolding clamav_processing_def hashlookup_processing_def
  by (intro scan_processing_quiet clamav_scan_quiet hashlookup_scan_quiet)+

interpretation clamav_quiet: quiet_service "clamav_processing sl cfg ca"
  by unfold_locales (rule quietD [OF scanners_quiet(1)])

interpretation hashlookup_quiet: quiet_service "hashlookup_processing sl cfg ca"
  by unfold_locales (rule quietD [OF scanners_quiet(2)])

lemma get_service_quiet:
  assumes "get_service sl g vendor ca = Done (Some proc)"
  shows "quiet_service proc"
  using assms echo_quiet.quiet_service_axioms clamav_quiet.quiet_service_axioms hashlookup_quiet.quiet_service_axioms
  by (auto dest!: get_service_Some)

section \<open>A response on its way to the scanner\<close>

text \<open>
  A RESPMOD call in the ordinary case: request and response are there, the body is in memory, the
  extension is one to process and the size is accepted.
\<close>

definition resp_case :: "svc_lib \<Rightarrow> svc_config \<Rightarrow> svc_call \<Rightarrow> http_request \<Rightarrow> http_response \<Rightarrow> bytes \<Rightarrow>
    svc_state \<Rightarrow> bool" where
  "resp_case lib cfg ca rq rs bs st \<longleftrightarrow>
     ca_method ca = ''RESPMOD'' \<and> hm_request (ss_msg st) = Some rq \<and> hm_response (ss_msg st) = Some rs \<and>
     rs_body rs = BytesBody bs \<and> rs_code rs \<noteq> 206 \<and> rq_method rq \<noteq> ''CONNECT'' \<and>
     ext_decision (get_mime_extension lib bs
         (case map_of (rs_header rs) ''Content-Type'' of Some (v # vs) \<Rightarrow> v | _ \<Rightarrow> [])
         (get_file_name (ss_msg st)))
       (sc_process_exts cfg) (sc_reject_exts cfg) (sc_bypass_exts cfg) (sc_ext_arrs cfg) = Some ''process'' \<and>
     (sc_max_file_size cfg = 0 \<or> int (length bs) \<le> sc_max_file_size cfg)"

lemma get_file_name_body:
  "hm_response hm = Some rs \<Longrightarrow> get_file_name (hm\<lparr>hm_response := Some (rs\<lparr>rs_body := b\<rparr>)\<rparr>) = get_file_name hm"
  by (cases "rs_request rs"; cases "hm_request hm") (simp_all add: get_file_name_def Let_def)

text \<open>The state in which such a body is scanned.\<close>

definition scanned_state :: "svc_call \<Rightarrow> http_response \<Rightarrow> svc_state \<Rightarrow> svc_state" where
  "scanned_state ca rs st =
     st\<lparr>ss_msg := (ss_msg st)\<lparr>hm_response := Some (rs\<lparr>rs_body := BytesBody []\<rparr>)\<rparr>,
        ss_icap := hadd (ss_icap st) ''X-ICAP-Metadata'' (ca_metadata ca)\<rparr>"

lemma scan_reached:
  assumes "resp_case lib cfg ca rq rs bs st"
  shows "scan_processing lib cfg ca scan False st =
     scan bs None (itoa (length bs)) (map (\<lambda>(k, vs). (k, log_values vs)) (rs_header rs)) (scanned_state ca rs st)"
  using assms get_file_name_body [of "ss_msg st" rs]
  by (cases st) (auto simp: resp_case_def scan_processing_def Let_def log_http_msg_headers_def byte_range_def
      copying_file_to_the_buffer_def copying_file_resp_def read_body_def content_type_of_def request_of_def
      check_the_extension_def scanned_state_def)

section \<open>Properties\<close>

text \<open>C17: Whatever service is configured, it answers \<open>100\<close> exactly to a partial body, and then leaves the
  message and the connection as they were; on a full body its status is one of 200, 204, 400, 408, 500.\<close>

theorem service_statuses:
  assumes "get_service sl g vendor ca = Done (Some proc)" and "proc p st = Done (r, st')"
  shows "(so_status r = 100 \<longleftrightarrow> p) \<and>
         (p \<longrightarrow> so_msg r = SvcNil \<and> ss_msg st' = ss_msg st \<and> ss_conn st' = ss_conn st) \<and>
         (\<not> p \<longrightarrow> so_status r \<in> {200, 204, 400, 408, 500})"
proof -
  have c: "icap_service proc" by (rule get_service_contract [OF assms(1)])
  show ?thesis
    using icap_service.continue_iff_partial [OF c assms(2)] icap_service.partial_continue [OF c, of st r st']
      icap_service.full_status [OF c, of st r st'] assms(2)
    by (cases p) (simp_all add: final_statuses_def)
qed

text \<open>The echo service gives a response back with exactly the body it came with and the Content-Length
  of that body.\<close>

theorem echo_returns_response:
  assumes "resp_case lib cfg ca rq rs bs st"
  shows "\<exists>r st'. echo_processing lib cfg ca False st = Done (r, st') \<and> so_status r = 200 \<and>
    so_msg r = SvcResponse (rs\<lparr>rs_header := hset (rs_header rs) ''Content-Length'' (itoa (length bs)),
                                rs_body := BytesBody bs\<rparr>) \<and>
    ss_conn st' = ss_conn st"
  using assms get_file_name_body [of "ss_msg st" rs]
  by (auto simp: resp_case_def echo_processing_def Let_def log_http_msg_headers_def
      copying_file_to_the_buffer_def copying_file_resp_def read_body_def content_type_of_def request_of_def
      check_the_extension_def preparing_file_after_scanning_def returning_http_message_with_file_def)

text \<open>C18: A response in which ClamAV finds something never reaches the client: the answer is the block page
  with the configured status, or an empty body without content headers, whatever the file holds.\<close>

theorem clamav_found_blocks:
  assumes "resp_case (scl_svc sl) cfg ca rq rs bs st"
    and "scl_clamd sl bs = Inr (True, results)" and "results \<noteq> []" and "sr_status (last results) = ''FOUND''"
    and "sl_template (scl_svc sl) (page_path_of cfg) = Some page_of"
  shows "\<exists>r st' resp. clamav_processing sl cfg ca False st = Done (r, st') \<and> so_status r = 200 \<and>
    so_msg r = SvcResponse resp \<and> rs_code resp = sc_block_code cfg \<and>
    (\<exists>page. rs_body resp = (if sc_block_body cfg then BytesBody (page_of page) else BytesBody []) \<and>
            ep_reason page = ''fileIsNotSafe'' \<and> ep_requested_url page = rq_uri rq) \<and>
    (\<not> sc_block_body cfg \<longrightarrow> rs_header resp = [])"
proof -
  have c: "clamav_processing sl cfg ca False st = clamav_scan sl cfg ca bs None (itoa (length bs))
      (map (\<lambda>(k, vs). (k, log_values vs)) (rs_header rs)) (scanned_state ca rs st)"
    unfolding clamav_processing_def by (rule scan_reached [OF assms(1)])
  have m: "ca_method ca = ''RESPMOD''" "hm_request (ss_msg (scanned_state ca rs st)) = Some rq"
    using assms(1) by (simp_all add: resp_case_def scanned_state_def)
  define page where "page = \<lparr>ep_reason = ''fileIsNotSafe'', ep_service_name = ca_service ca,
      ep_requested_url = rq_uri rq, ep_identifier = [], ep_exception_page = [], ep_size = itoa (length bs), ep_metadata = ca_metadata ca\<rparr>"
  have "ep_reason page = ''fileIsNotSafe''" "ep_requested_url page = rq_uri rq"
    by (simp_all add: page_def)
  with c m show ?thesis
    using assms(2-5)
    by (cases "sc_block_body cfg")
      (auto simp: clamav_scan_def block_stop_def request_of_def gen_html_page_def stop_logged_def
        log_http_msg_headers_def err_page_resp_def Let_def page_def [symmetric] intro!: exI [of _ page])
qed

text \<open>A ClamAV scan that takes longer than five seconds makes the service panic instead of answering with
  a timeout: it reads the text of an error that is nil.\<close>

theorem clamav_slow_scan_panics:
  assumes "resp_case (scl_svc sl) cfg ca rq rs bs st" and "scl_clamd sl bs = Inr (False, results)"
  shows "clamav_processing sl cfg ca False st = Panic ''nil error''"
  unfolding clamav_processing_def scan_reached [OF assms(1)]
  by (simp add: clamav_scan_def assms(2))

text \<open>The hash lookup blocks every file for which the server gives any value of \<open>KnownMalicious\<close> but the
  empty string and null, the value \<open>false\<close> included; an answer that cannot be decoded lets the file
  through.\<close>

theorem hashlookup_verdict:
  assumes "scl_lookup sl (sc_scan_url cfg @ sl_sha256_hex (scl_svc sl) bs) (sint (sc_timeout cfg)) = Looked obj"
  shows "(map_of obj ''KnownMalicious'' = Some (JBool False) \<longrightarrow> send_file_to_scan sl cfg bs = Done (Inr True)) \<and>
         (map_of obj ''KnownMalicious'' = Some (JString s) \<longrightarrow>
           send_file_to_scan sl cfg bs = Done (Inr (s \<noteq> [] \<and> s \<noteq> ''<nil>''))) \<and>
         (obj = [] \<longrightarrow> send_file_to_scan sl cfg bs = Done (Inr False))"
  using assms by (simp_all add: send_file_to_scan_def json_sprint_def)

text \<open>The configuration of a vendor is that of the first of its services to be initialised: a second
  service of the same vendor runs with the limits, lists and pages of the first.\<close>

theorem first_service_config_wins:
  assumes "vendor \<in> {''echo'', ''clamav'', ''clhashlookup''}" and "g = \<lparr>sg_echo = None, sg_hashlookup = None, sg_clamav = None\<rparr>"
    and "g2 = init_service_config read vendor n2 (init_service_config read vendor n1 g)"
  shows "get_service sl g2 vendor ca = get_service sl (init_service_config read vendor n1 g) vendor ca \<and>
         (\<exists>proc. get_service sl g2 vendor ca = Done (Some proc))"
  using assms by (auto simp: init_service_config_def do_once_def get_service_def new_service_defs)

section \<open>Concrete calls\<close>

definition sample_config :: svc_config where
  "sample_config = \<lparr>sc_max_file_size = 0, sc_bypass_exts = [], sc_process_exts = [''*''], sc_reject_exts = [],
     sc_ext_arrs = init_exts_arr [''*''] [] [], sc_return_orig = False, sc_return_400 = False,
     sc_bypass_on_api_error = False, sc_block_code = 403, sc_block_body = True, sc_exception_page = [],
     sc_scan_url = ''https://host/lookup/sha1/'', sc_timeout = 300\<rparr>"

definition sample_call :: svc_call where
  "sample_call = \<lparr>ca_service = ''scan'', ca_method = ''RESPMOD'', ca_metadata = ''id''\<rparr>"

definition sample_state :: "bytes \<Rightarrow> svc_state" where
  "sample_state bs = \<lparr>ss_msg = \<lparr>hm_request = Some zero_request,
       hm_response = Some (sample_response\<lparr>rs_body := BytesBody bs\<rparr>)\<rparr>,
     ss_conn = \<lparr>c_in = \<lparr>rbuf = [], under = \<lparr>segs = [], net_err = EOF\<rparr>\<rparr>, c_out = []\<rparr>, ss_icap = []\<rparr>"

definition sample_scan :: "(go_error + bool \<times> scan_result list) \<Rightarrow> lookup_result \<Rightarrow> scan_lib" where
  "sample_scan av hl = \<lparr>scl_svc = sample_svc, scl_clamd = (\<lambda>bs. av), scl_lookup = (\<lambda>u t. hl)\<rparr>"

lemma sample_ext_arrs:
  "sc_ext_arrs sample_config = [\<lparr>ext_name = ''reject'', ext_exts = []\<rparr>, \<lparr>ext_name = ''bypass'', ext_exts = []\<rparr>,
     \<lparr>ext_name = ''process'', ext_exts = [''*'']\<rparr>]"
  by (simp add: sample_config_def init_exts_arr_cases)

lemma sample_case:
  "resp_case sample_svc sample_config sample_call zero_request (sample_response\<lparr>rs_body := BytesBody bs\<rparr>) bs
     (sample_state bs)"
  unfolding resp_case_def sample_ext_arrs
  by (simp add: if_file_ext_is_x_def sample_config_def sample_call_def sample_state_def
      sample_response_def zero_request_def)

lemma service_statuses_witness:
  "\<exists>proc r st'. get_service (sample_scan (Inr (True, [])) BadUrl)
       (init_service_config (\<lambda>n. sample_config) ''clamav'' ''scan'' \<lparr>sg_echo = None, sg_hashlookup = None, sg_clamav = None\<rparr>)
       ''clamav'' sample_call = Done (Some proc) \<and>
     proc True (sample_state ''x'') = Done (r, st') \<and> so_status r = 100 \<and> ss_msg st' = ss_msg (sample_state ''x'')"
proof -
  let ?g = "init_service_config (\<lambda>n. sample_config) ''clamav'' ''scan'' \<lparr>sg_echo = None, sg_hashlookup = None, sg_clamav = None\<rparr>"
  let ?cfg = "(init_config (\<lambda>n. sample_config) ''scan'')\<lparr>sc_timeout := 300 * second\<rparr>"
  let ?proc = "clamav_processing (sample_scan (Inr (True, [])) BadUrl) ?cfg sample_call"
  have g: "get_service (sample_scan (Inr (True, [])) BadUrl) ?g ''clamav'' sample_call = Done (Some ?proc)"
    by (simp add: get_service_def new_clamav_service_def init_service_config_def do_once_def init_config_def
        sample_config_def Let_def)
  obtain r st' where p: "?proc True (sample_state ''x'') = Done (r, st')"
    by (simp add: clamav_processing_def scan_processing_def log_http_msg_headers_def sample_call_def
        sample_state_def Let_def)
  have s: "(so_status r = 100 \<longleftrightarrow> True) \<and> (True \<longrightarrow> so_msg r = SvcNil \<and>
      ss_msg st' = ss_msg (sample_state ''x'') \<and> ss_conn st' = ss_conn (sample_state ''x'')) \<and>
      (\<not> True \<longrightarrow> so_status r \<in> {200, 204, 400, 408, 500})"
    by (rule service_statuses [where proc = ?proc and p = True and st = "sample_state ''x''", OF g p])
  then have "so_status r = 100" by simp
  moreover from s have "ss_msg st' = ss_msg (sample_state ''x'')" by simp
  ultimately show ?thesis using g p by (intro exI conjI)
qed

lemma echo_returns_response_witness:
  "\<exists>r st'. echo_processing sample_svc sample_config sample_call False (sample_state ''hello'') = Done (r, st') \<and>
     so_status r = 200 \<and> (\<exists>rs. so_msg r = SvcResponse rs \<and> rs_body rs = BytesBody ''hello'')"
proof -
  let ?rs = "sample_response\<lparr>rs_body := BytesBody ''hello''\<rparr>"
  obtain r st' where "echo_processing sample_svc sample_config sample_call False (sample_state ''hello'') = Done (r, st')"
    and "so_status r = 200"
    and "so_msg r = SvcResponse (?rs\<lparr>rs_header := hset (rs_header ?rs) ''Content-Length''
           (itoa (length ''hello'')), rs_body := BytesBody ''hello''\<rparr>)"
    using echo_returns_response [OF sample_case, of "''hello''"] by (elim exE conjE) (rule that)
  then show ?thesis by (intro exI conjI) (assumption+, simp)
qed

lemma clamav_found_blocks_witness:
  "\<exists>r st' resp. clamav_processing (sample_scan (Inr (True, [\<lparr>sr_status = ''FOUND'', sr_description = ''Eicar''\<rparr>])) BadUrl)
       sample_config sample_call False (sample_state ''virus'') = Done (r, st') \<and>
     so_msg r = SvcResponse resp \<and> rs_code resp = 403 \<and> rs_body resp = BytesBody ''blocked: fileIsNotSafe''"
proof -
  let ?sl = "sample_scan (Inr (True, [\<lparr>sr_status = ''FOUND'', sr_description = ''Eicar''\<rparr>])) BadUrl"
  have c: "resp_case (scl_svc ?sl) sample_config sample_call zero_request
      (sample_response\<lparr>rs_body := BytesBody ''virus''\<rparr>) ''virus'' (sample_state ''virus'')"
    using sample_case by (simp add: sample_scan_def)
  have a: "scl_clamd ?sl ''virus'' = Inr (True, [\<lparr>sr_status = ''FOUND'', sr_description = ''Eicar''\<rparr>])"
    and p: "sl_template (scl_svc ?sl) (page_path_of sample_config) = Some (\<lambda>page. ''blocked: '' @ ep_reason page)"
    by (simp_all add: sample_scan_def sample_svc_def)
  have n: "[\<lparr>sr_status = ''FOUND'', sr_description = ''Eicar''\<rparr>] \<noteq> []"
    and f: "sr_status (last [\<lparr>sr_status = ''FOUND'', sr_description = ''Eicar''\<rparr>]) = ''FOUND''"
    by simp_all
  obtain r st' resp and page :: error_page where r: "clamav_processing ?sl sample_config sample_call False (sample_state ''virus'') = Done (r, st')"
    and m: "so_msg r = SvcResponse resp" and "rs_code resp = sc_block_code sample_config"
    and "rs_body resp = (if sc_block_body sample_config then BytesBody (''blocked: '' @ ep_reason page) else BytesBody [])"
    and "ep_reason page = ''fileIsNotSafe''"
    using clamav_found_blocks [OF c a n f p] by (elim exE conjE) (rule that)
  then have "rs_code resp = 403" "rs_body resp = BytesBody ''blocked: fileIsNotSafe''"
    by (simp_all add: sample_config_def)
  with r m show ?thesis by (intro exI conjI)
qed

lemma clamav_slow_scan_panics_witness:
  "clamav_processing (sample_scan (Inr (False, [])) BadUrl) sample_config sample_call False (sample_state ''x'') =
     Panic ''nil error''"
  using clamav_slow_scan_panics [where sl = "sample_scan (Inr (False, [])) BadUrl" and bs = "''x''" and results = "[]" and cfg = sample_config and ca = sample_call and rq = zero_request and rs = "sample_response\<lparr>rs_body := BytesBody ''x''\<rparr>" and st = "sample_state ''x''"] sample_case [of "''x''"]
  by (simp add: sample_scan_def)

lemma hashlookup_verdict_witness:
  "send_file_to_scan (sample_scan (Inr (True, [])) (Looked [(''KnownMalicious'', JBool False)])) sample_config ''x'' =
     Done (Inr True)"
  using hashlookup_verdict [where obj = "[(''KnownMalicious'', JBool False)]" and cfg = sample_config and bs = "''x''"
      and sl = "sample_scan (Inr (True, [])) (Looked [(''KnownMalicious'', JBool False)])"]
  by (simp add: sample_scan_def)

text \<open>A timeout that is configured with a unit is multiplied all the same: from nine seconds on the product
  leaves 63 bits, and up to eighteen seconds the hash lookup runs with a deadline in the past.\<close>

lemma second_product:
  "sint ((word_of_int d :: 64 word) * second) = (d * 10 ^ 9 + 2 ^ 63) mod 2 ^ 64 - 2 ^ 63"
proof -
  have "(word_of_int d :: 64 word) * second = word_of_int (d * 10 ^ 9)"
    unfolding second_def by (simp only: of_int_mult of_int_power of_int_numeral)
  then have "sint ((word_of_int d :: 64 word) * second) = signed_take_bit 63 (d * 10 ^ 9)"
    by (simp only: sint_sbintrunc' len_num0 len_num1 len_bit0) simp
  then show ?thesis by (simp add: signed_take_bit_eq_take_bit_shift take_bit_eq_mod)
qed

theorem hashlookup_timeout_wraps:
  assumes "new_hashlookup_service (Some c) ca = Done (c', ca')" and "sc_timeout c = word_of_int d"
    and "9223372037 \<le> d" and "d \<le> 18446744073"
  shows "sint (sc_timeout c') < 0"
proof -
  have c': "c' = c\<lparr>sc_timeout := word_of_int d * second\<rparr>"
    using assms(1,2) by (simp add: new_hashlookup_service_def)
  have "(d * 10 ^ 9 + 2 ^ 63) mod 2 ^ 64 = d * 10 ^ 9 + 2 ^ 63 - 2 ^ 64"
    using assms(3,4) by (subst mod_pos_geq) auto
  then have "sint ((word_of_int d :: 64 word) * second) < 0" using assms(3,4) unfolding second_product by simp
  then show ?thesis by (simp add: c')
qed

lemma hashlookup_timeout_wraps_witness:
  "\<exists>c'. new_hashlookup_service (Some (sample_config\<lparr>sc_timeout := 10000000000\<rparr>)) sample_call = Done (c', sample_call) \<and>
     sint (sc_timeout c') < 0"
proof -
  let ?c = "sample_config\<lparr>sc_timeout := 10000000000\<rparr>"
  have r: "new_hashlookup_service (Some ?c) sample_call = Done (?c\<lparr>sc_timeout := sc_timeout ?c * second\<rparr>, sample_call)"
    by (simp add: new_hashlookup_service_def)
  from hashlookup_timeout_wraps [OF r, of 10000000000] r show ?thesis by auto
qed

lemma first_service_config_wins_witness:
  "\<exists>proc. get_service (sample_scan (Inr (True, [])) BadUrl)
     (init_service_config (\<lambda>n. sample_config\<lparr>sc_exception_page := n\<rparr>) ''echo'' ''second''
       (init_service_config (\<lambda>n. sample_config\<lparr>sc_exception_page := n\<rparr>) ''echo'' ''first''
          \<lparr>sg_echo = None, sg_hashlookup = None, sg_clamav = None\<rparr>)) ''echo'' sample_call = Done (Some proc)"
  by (rule conjunct2 [OF first_service_config_wins [OF _ refl refl]]) simp

end
