(* ===== verification/UrlMatcher.thy ===== *)
theory UrlMatcher
  imports GoHttp
begin

text \<open>
  \<open>business/urlmatcher.go\<close>: the in-memory catalogue of monitored endpoints and the match of a request
  against it.

  The state is the cache, a map from base URLs to endpoints, here an association list in the order in
  which the map is ranged over. Parameters are the rows of the database, the URL parser, the question
  whether a tenant sanctioned a tool, and the regular expressions of Go: \<open>re p\<close> is \<open>None\<close> when \<open>p\<close> does
  not compile, and otherwise gives the leftmost match in a text, if any.
\<close>

section \<open>The catalogue\<close>

record endpoint_row =
  er_endpoint_id :: string
  er_tool_id :: string
  er_name :: string
  er_action :: string
  er_flow :: string
  er_http_method :: string
  er_endpoint_path :: string
  er_domain :: string
  er_protocol :: string
  er_content_paths :: bytes
  er_is_wildcard :: bool

record cached_endpoint =
  ce_endpoint_id :: string
  ce_tool_id :: string
  ce_name :: string
  ce_action :: string
  ce_flow :: string
  ce_http_method :: string
  ce_paths :: "string list"
  ce_base_url :: string
  ce_content_paths :: bytes
  ce_is_wildcard :: bool

record url_config =
  uc_name :: string
  uc_action :: string
  uc_flow :: string
  uc_paths :: "string list"
  uc_id :: string
  uc_tool_id :: string
  uc_is_tool_sanctioned :: "bool option"
  uc_content_paths :: bytes
  uc_is_wildcard :: bool

type_synonym endpoint_cache = "(string \<times> cached_endpoint list) list"

definition row_base_url :: "endpoint_row \<Rightarrow> string" where
  "row_base_url r =
     to_lower (trim_space (er_protocol r)) @ ''://'' @ to_lower (trim_space (er_domain r))"

definition row_entry :: "endpoint_row \<Rightarrow> cached_endpoint" where
  "row_entry r = \<lparr>ce_endpoint_id = er_endpoint_id r, ce_tool_id = er_tool_id r, ce_name = er_name r,
     ce_action = er_action r, ce_flow = er_flow r, ce_http_method = er_http_method r,
     ce_paths = (if er_endpoint_path r \<noteq> [] then [er_endpoint_path r] else []),
     ce_base_url = row_base_url r, ce_content_paths = er_content_paths r, ce_is_wildcard = er_is_wildcard r\<rparr>"

definition cache_get :: "endpoint_cache \<Rightarrow> string \<Rightarrow> cached_endpoint list" where
  "cache_get cache base = (case map_of cache base of None \<Rightarrow> [] | Some es \<Rightarrow> es)"

definition cache_add :: "cached_endpoint \<Rightarrow> endpoint_cache \<Rightarrow> endpoint_cache" where
  "cache_add e cache = AList.update (ce_base_url e) (cache_get cache (ce_base_url e) @ [e]) cache"

text \<open>
  \<open>RefreshEndpointsCache\<close>: no database or a failed query keeps the old cache; a row that cannot be
  scanned (\<open>None\<close>) is skipped.
\<close>

definition load_rows :: "endpoint_row option list \<Rightarrow> endpoint_cache" where
  "load_rows rows =
     foldl (\<lambda>cache r. case r of None \<Rightarrow> cache | Some row \<Rightarrow> cache_add (row_entry row) cache) [] rows"

definition refresh_endpoints_cache ::
    "(go_error + endpoint_row option list) option \<Rightarrow> endpoint_cache \<Rightarrow> endpoint_cache" where
  "refresh_endpoints_cache db cache =
     (case db of
        None \<Rightarrow> cache
      | Some (Inl err) \<Rightarrow> cache
      | Some (Inr rows) \<Rightarrow> load_rows rows)"

section \<open>Matching methods and paths\<close>

definition is_path_placeholder :: "string \<Rightarrow> bool" where
  "is_path_placeholder segment =
     (let s = trim_space segment in 3 \<le> length s \<and> has_prefix s ''{'' \<and> has_suffix s ''}'')"

definition method_matches :: "string \<Rightarrow> string \<Rightarrow> bool" where
  "method_matches configured_method request_method =
     (let cfg = to_upper (trim_space configured_method); req = to_upper (trim_space request_method)
      in if cfg = [] \<or> cfg = ''*'' then True else if req = [] then False else cfg = req)"

definition path_segment_match :: "string \<Rightarrow> string \<Rightarrow> bool" where
  "path_segment_match request_path configured_path =
     (let req_segs = split (trim_chars request_path (CHR ''/'')) ''/'';
          cfg_segs = split (trim_chars configured_path (CHR ''/'')) ''/''
      in list_all2 (\<lambda>r c. if is_path_placeholder c then r \<noteq> [] else r = c) req_segs cfg_segs)"

definition is_regex_pattern :: "string \<Rightarrow> bool" where
  "is_regex_pattern path \<longleftrightarrow> has_prefix path ''^'' \<or> (\<exists>c \<in> set path. c \<in> set ''^$.*+?[](){}|'')"

text \<open>A path with a slash at both ends, as both sides of a comparison are written.\<close>

definition slashed :: "string \<Rightarrow> string" where
  "slashed p = trim_suffix (if has_prefix p ''/'' then p else ''/'' @ p) ''/'' @ ''/''"

type_synonym regexes = "string \<Rightarrow> (string \<Rightarrow> (nat \<times> nat) option) option"

text \<open>The regular expression matches the whole of the request path, with or without its last slash.\<close>

definition regex_full_match :: "(string \<Rightarrow> (nat \<times> nat) option) \<Rightarrow> string \<Rightarrow> bool" where
  "regex_full_match find_index norm_req \<longleftrightarrow>
     (\<exists>s \<in> set [norm_req, trim_suffix norm_req ''/'']. s \<noteq> [] \<and> find_index s = Some (0, length s))"

definition path_matches_one :: "regexes \<Rightarrow> string \<Rightarrow> string \<Rightarrow> string \<Rightarrow> bool" where
  "path_matches_one re norm_req configured_path action =
     (let norm_path = slashed configured_path in
      if is_regex_pattern configured_path
      then (case re configured_path of None \<Rightarrow> False | Some f \<Rightarrow> regex_full_match f norm_req)
      else path_segment_match norm_req norm_path \<or>
           (if action = ''record'' then norm_req = norm_path else has_prefix norm_req norm_path))"

definition path_matches :: "regexes \<Rightarrow> string \<Rightarrow> string list \<Rightarrow> string \<Rightarrow> bool" where
  "path_matches re request_path paths action \<longleftrightarrow>
     paths = [] \<or> list_ex (\<lambda>p. path_matches_one re (slashed request_path) p action) paths"

section \<open>Matching a request\<close>

definition alt_base_url :: "string \<Rightarrow> string" where
  "alt_base_url base =
     (if has_prefix base ''http://'' then replace_first base ''http://'' ''https://''
      else if has_prefix base ''https://'' then replace_first base ''https://'' ''http://''
      else [])"

text \<open>A wildcard key admits a base URL.\<close>

definition wildcard_admits :: "string \<Rightarrow> string \<Rightarrow> bool" where
  "wildcard_admits base key \<longleftrightarrow>
     contains key ''*.'' \<and>
     (let wild = replace_first key ''*.'' []; alt = alt_base_url base
      in has_suffix base wild \<or> (alt \<noteq> [] \<and> has_suffix alt wild))"

definition endpoint_candidates :: "endpoint_cache \<Rightarrow> string \<Rightarrow> cached_endpoint list" where
  "endpoint_candidates cache base =
     (let alt = alt_base_url base;
          exact = cache_get cache base;
          cands = (if alt \<noteq> [] \<and> exact = [] then cache_get cache alt else exact)
      in if cands = []
         then concat (map (\<lambda>key. if wildcard_admits base key then cache_get cache key else []) (map fst cache))
         else cands)"

definition endpoint_matches :: "regexes \<Rightarrow> string \<Rightarrow> string \<Rightarrow> cached_endpoint \<Rightarrow> bool" where
  "endpoint_matches re http_method request_path ep \<longleftrightarrow>
     method_matches (ce_http_method ep) http_method \<and> path_matches re request_path (ce_paths ep) (ce_action ep)"

definition request_base_url :: "url \<Rightarrow> string" where
  "request_base_url u = u_scheme u @ ''://'' @ u_host u"

definition request_path_of :: "url \<Rightarrow> string" where
  "request_path_of u =
     (let p = (if has_prefix (u_path u) ''/'' then u_path u else ''/'' @ u_path u)
      in if has_suffix p ''/'' then p else p @ ''/'')"

text \<open>
  \<open>tenantToolSanctioned\<close>: what the database answers to the query for the row of a tenant and a tool becomes
  an error, nothing, or the flag; it is the parameter \<open>sanctioned\<close> of the lookup.
\<close>

datatype tool_reply = ToolRow bool | NoToolRow | ToolError go_error

definition tenant_tool_sanctioned :: "(string \<Rightarrow> string \<Rightarrow> tool_reply) \<Rightarrow> string \<Rightarrow> string \<Rightarrow> go_error + bool option" where
  "tenant_tool_sanctioned row tenant_id tool_id =
     (case row tenant_id tool_id of
        NoToolRow \<Rightarrow> Inr None
      | ToolError err \<Rightarrow> Inl err
      | ToolRow sanctioned \<Rightarrow> Inr (Some sanctioned))"

definition url_config_of :: "cached_endpoint \<Rightarrow> bool option \<Rightarrow> url_config" where
  "url_config_of ep sanc = \<lparr>uc_name = ce_name ep, uc_action = ce_action ep, uc_flow = ce_flow ep,
     uc_paths = ce_paths ep, uc_id = ce_endpoint_id ep, uc_tool_id = ce_tool_id ep,
     uc_is_tool_sanctioned = sanc, uc_content_paths = ce_content_paths ep, uc_is_wildcard = ce_is_wildcard ep\<rparr>"

definition match_url :: "http_lib \<Rightarrow> regexes \<Rightarrow> (string \<Rightarrow> string \<Rightarrow> go_error + bool option) \<Rightarrow> endpoint_cache \<Rightarrow>
    string \<Rightarrow> string \<Rightarrow> string \<Rightarrow> go_error + url_config option" where
  "match_url lib re sanctioned cache request_url tenant_id http_method =
     (if tenant_id = [] then Inr None
      else case lib_parse_url lib request_url of
        Inl err \<Rightarrow> Inr None
      | Inr u \<Rightarrow>
          (case find (endpoint_matches re http_method (request_path_of u))
                  (endpoint_candidates cache (request_base_url u)) of
             None \<Rightarrow> Inr None
           | Some ep \<Rightarrow>
               (case sanctioned tenant_id (ce_tool_id ep) of
                  Inl err \<Rightarrow> Inl err
                | Inr sanc \<Rightarrow> Inr (Some (url_config_of ep sanc)))))"

section \<open>The cache holds the table\<close>

lemma cache_get_Nil [simp]: "cache_get [] base = []"
  by (simp add: cache_get_def)

lemma cache_get_add:
  "cache_get (cache_add e cache) base = cache_get cache base @ (if ce_base_url e = base then [e] else [])"
  by (auto simp: cache_get_def cache_add_def update_conv')

lemma load_rows_snoc:
  "load_rows (rows @ [r]) = (case r of None \<Rightarrow> load_rows rows | Some row \<Rightarrow> cache_add (row_entry row) (load_rows rows))"
  by (cases r) (simp_all add: load_rows_def)

text \<open>The entries of a base URL are those of its rows, in the order of the query.\<close>

lemma cache_get_load:
  "cache_get (load_rows rows) base =
     map row_entry (filter (\<lambda>r. row_base_url r = base) (List.map_filter id rows))"
proof (induction rows rule: rev_induct)
  case Nil
  then show ?case by (simp add: load_rows_def)
next
  case (snoc r rows)
  show ?case
  proof (cases r)
    case None
    with snoc show ?thesis by (simp add: load_rows_snoc map_filter_def)
  next
    case (Some row)
    with snoc show ?thesis by (simp add: load_rows_snoc cache_get_add map_filter_def row_entry_def)
  qed
qed

lemma keys_load: "fst ` set (load_rows rows) \<subseteq> row_base_url ` set (List.map_filter id rows)"
proof (induction rows rule: rev_induct)
  case Nil
  then show ?case by (simp add: load_rows_def)
next
  case (snoc r rows)
  then show ?case
    by (cases r) (auto simp: load_rows_snoc cache_add_def map_filter_def row_entry_def dom_update image_Un
        dest!: subsetD [OF equalityD1 [OF dom_update]])
qed

section \<open>Base URLs\<close>

lemma suffix_host:
  assumes "CHR ''/'' \<notin> set h" and "CHR ''/'' \<notin> set d"
    and "has_suffix (s @ ''://'' @ h) (p @ ''://'' @ d)"
  shows "h = d"
proof -
  from assms(3) obtain r where "s @ ''://'' @ h = r @ p @ ''://'' @ d" by (auto simp: has_suffix_iff)
  then have "(s @ '':/'') @ CHR ''/'' # h = (r @ p @ '':/'') @ CHR ''/'' # d" by simp
  from split_at_last [OF assms(1,2) this] show ?thesis by simp
qed

lemma index_of_append_first: "x \<notin> set a \<Longrightarrow> index_of (a @ x # p @ b) (x # p) = Some (length a)"
  by (induction a) (auto simp: has_prefix_def)

lemma scheme_prefix:
  assumes "CHR ''/'' \<notin> set s" and "CHR ''/'' \<notin> set t" and "has_prefix (s @ ''://'' @ h) (t @ ''://'')"
  shows "s = t"
proof -
  from assms(3) obtain r where r: "s @ ''://'' @ h = t @ ''://'' @ r" by (auto simp: has_prefix_iff)
  have "takeWhile (\<lambda>c. c \<noteq> CHR ''/'') (s @ ''://'' @ h) = takeWhile (\<lambda>c. c \<noteq> CHR ''/'') (t @ ''://'' @ r)"
    using r by simp
  moreover have "takeWhile (\<lambda>c. c \<noteq> CHR ''/'') (s @ ''://'' @ h) = s @ '':''"
    "takeWhile (\<lambda>c. c \<noteq> CHR ''/'') (t @ ''://'' @ r) = t @ '':''"
    using assms(1,2) by (subst takeWhile_append2; auto)+
  ultimately show ?thesis by simp
qed

text \<open>The other base URL has the same host.\<close>

lemma alt_base_shape:
  assumes "CHR ''/'' \<notin> set s" and "alt_base_url (s @ ''://'' @ h) \<noteq> []"
  shows "\<exists>s'. CHR ''/'' \<notin> set s' \<and> alt_base_url (s @ ''://'' @ h) = s' @ ''://'' @ h"
proof -
  consider "has_prefix (s @ ''://'' @ h) ''http://''"
    | "\<not> has_prefix (s @ ''://'' @ h) ''http://''" "has_prefix (s @ ''://'' @ h) ''https://''"
    using assms(2) by (auto simp: alt_base_url_def split: if_splits)
  then show ?thesis
  proof cases
    case 1
    with scheme_prefix [OF assms(1), of "''http''" h] have s: "s = ''http''" by simp
    have "alt_base_url (s @ ''://'' @ h) = ''https'' @ ''://'' @ h"
      unfolding s by (simp add: alt_base_url_def replace_first_def has_prefix_def)
    then show ?thesis by (intro exI [of _ "''https''"]) simp
  next
    case 2
    with scheme_prefix [OF assms(1), of "''https''" h] have s: "s = ''https''" by simp
    have "alt_base_url (s @ ''://'' @ h) = ''http'' @ ''://'' @ h"
      unfolding s by (simp add: alt_base_url_def replace_first_def has_prefix_def)
    then show ?thesis by (intro exI [of _ "''http''"]) simp
  qed
qed

lemma wildcard_key:
  assumes "CHR ''*'' \<notin> set p"
  shows "replace_first (p @ ''://*.'' @ d) ''*.'' [] = p @ ''://'' @ d"
proof -
  have "index_of ((p @ ''://'') @ CHR ''*'' # ''.'' @ d) (CHR ''*'' # ''.'') = Some (length (p @ ''://''))"
    using assms by (intro index_of_append_first) auto
  then show ?thesis by (simp add: replace_first_def)
qed

text \<open>A wildcard key admits only the domain itself.\<close>

lemma wildcard_admits_host:
  assumes "CHR ''/'' \<notin> set s" and "CHR ''/'' \<notin> set h" and "CHR ''/'' \<notin> set d" and "CHR ''*'' \<notin> set p"
    and "wildcard_admits (s @ ''://'' @ h) (p @ ''://*.'' @ d)"
  shows "h = d"
proof -
  have "has_suffix (s @ ''://'' @ h) (p @ ''://'' @ d) \<or>
      (alt_base_url (s @ ''://'' @ h) \<noteq> [] \<and> has_suffix (alt_base_url (s @ ''://'' @ h)) (p @ ''://'' @ d))"
    using assms(5) unfolding wildcard_admits_def wildcard_key [OF assms(4)] Let_def by blast
  then show ?thesis
    using suffix_host [OF assms(2,3)] alt_base_shape [OF assms(1), of h] by metis
qed

text \<open>Without a key for the base URL and an admitting wildcard there is no candidate.\<close>

lemma no_candidates:
  assumes "base \<notin> fst ` set cache" and "alt_base_url base \<noteq> [] \<Longrightarrow> alt_base_url base \<notin> fst ` set cache"
    and "\<And>key. key \<in> fst ` set cache \<Longrightarrow> \<not> wildcard_admits base key"
  shows "endpoint_candidates cache base = []"
proof -
  have "cache_get cache k = []" if "k \<notin> fst ` set cache" for k
    using that by (simp add: cache_get_def dom_map_of_conv_image_fst [symmetric] domIff)
  with assms show ?thesis by (auto simp: endpoint_candidates_def Let_def)
qed

text \<open>A wildcard domain covers the domain itself and none of its subdomains: with wildcard endpoints
  only, a request to any host that is not one of the bare domains matches nothing and goes unrecorded.\<close>

theorem wildcard_misses_subdomains:
  assumes "lib_parse_url lib request_url = Inr u"
    and "CHR ''/'' \<notin> set (u_scheme u)" and "CHR ''/'' \<notin> set (u_host u)" and "CHR ''*'' \<notin> set (u_host u)"
    and "\<forall>key \<in> fst ` set cache. \<exists>p d. key = p @ ''://*.'' @ d \<and> CHR ''*'' \<notin> set p \<and> CHR ''/'' \<notin> set d \<and> d \<noteq> u_host u"
  shows "match_url lib re sanctioned cache request_url tenant http_method = Inr None"
proof -
  let ?b = "request_base_url u"
  have no_key: "s @ ''://'' @ u_host u \<notin> fst ` set cache" for s
  proof
    assume "s @ ''://'' @ u_host u \<in> fst ` set cache"
    with assms(5) obtain p d where k: "s @ ''://'' @ u_host u = p @ ''://*.'' @ d" "CHR ''/'' \<notin> set d" by auto
    then have "(s @ '':/'') @ CHR ''/'' # u_host u = (p @ '':/'') @ CHR ''/'' # ''*.'' @ d" by simp
    with split_at_last [OF assms(3), of "''*.'' @ d" "s @ '':/''" "p @ '':/''"] k(2)
    have "u_host u = ''*.'' @ d" by simp
    with assms(4) show False by simp
  qed
  have "endpoint_candidates cache ?b = []"
  proof (rule no_candidates)
    show "?b \<notin> fst ` set cache" unfolding request_base_url_def by (rule no_key)
    show "alt_base_url ?b \<notin> fst ` set cache" if "alt_base_url ?b \<noteq> []"
      using alt_base_shape [OF assms(2), of "u_host u"] that no_key unfolding request_base_url_def by metis
    show "\<not> wildcard_admits ?b key" if key: "key \<in> fst ` set cache" for key
    proof -
      from assms(5) key obtain p d where k: "key = p @ ''://*.'' @ d" "CHR ''*'' \<notin> set p" "CHR ''/'' \<notin> set d"
        "d \<noteq> u_host u" by auto
      with wildcard_admits_host [OF assms(2,3) k(3,2)] show ?thesis unfolding request_base_url_def by blast
    qed
  qed
  then show ?thesis using assms(1) by (simp add: match_url_def)
qed

definition sample_row :: endpoint_row where
  "sample_row = \<lparr>er_endpoint_id = ''1'', er_tool_id = ''2'', er_name = ''ai'', er_action = ''record'',
     er_flow = ''both'', er_http_method = ''*'', er_endpoint_path = [], er_domain = ''*.ai.com'',
     er_protocol = ''https'', er_content_paths = [], er_is_wildcard = True\<rparr>"

definition sample_url :: "string \<Rightarrow> string \<Rightarrow> http_lib" where
  "sample_url host path = sample_lib\<lparr>lib_parse_url := \<lambda>s.
     Inr (zero_url\<lparr>u_scheme := ''https'', u_host := host, u_path := path\<rparr>)\<rparr>"

lemma wildcard_misses_subdomains_witness:
  "match_url (sample_url ''api.ai.com'' ''/v1/chat'') (\<lambda>p. None) (\<lambda>t i. Inr None)
     [(''https://*.ai.com'', [row_entry sample_row])] ''https://api.ai.com/v1/chat'' ''tenant'' ''POST'' = Inr None"
proof (rule wildcard_misses_subdomains [where u = "zero_url\<lparr>u_scheme := ''https'', u_host := ''api.ai.com'', u_path := ''/v1/chat''\<rparr>"])
  have "''https://*.ai.com'' = ''https'' @ ''://*.'' @ ''ai.com'' \<and> CHR ''*'' \<notin> set ''https'' \<and> CHR ''/'' \<notin> set ''ai.com'' \<and>
      ''ai.com'' \<noteq> ''api.ai.com''" by simp
  then have "\<exists>p d. ''https://*.ai.com'' = p @ ''://*.'' @ d \<and> CHR ''*'' \<notin> set p \<and> CHR ''/'' \<notin> set d \<and> d \<noteq> ''api.ai.com''"
    by (intro exI)
  then show "\<forall>key \<in> fst ` set [(''https://*.ai.com'', [row_entry sample_row])].
      \<exists>p d. key = p @ ''://*.'' @ d \<and> CHR ''*'' \<notin> set p \<and> CHR ''/'' \<notin> set d \<and>
        d \<noteq> u_host (zero_url\<lparr>u_scheme := ''https'', u_host := ''api.ai.com'', u_path := ''/v1/chat''\<rparr>)"
    by simp
qed (simp_all add: zero_url_def sample_url_def)

section \<open>Upper case in the host\<close>

lemma lower_not_upper: "c \<in> set (to_lower s) \<Longrightarrow> \<not> is_upper c"
  by (auto simp: to_lower_def lower_char_def is_upper_def of_char_of)

lemma key_not_upper: "key \<in> fst ` set (load_rows rows) \<Longrightarrow> c \<in> set key \<Longrightarrow> \<not> is_upper c"
  using keys_load [of rows] by (auto simp: row_base_url_def is_upper_def dest!: lower_not_upper subsetD)

lemma replace_first_set: "set (replace_first s p []) \<subseteq> set s"
  by (auto simp: replace_first_def split: option.splits dest: in_set_takeD in_set_dropD)

lemma key_slash: "key \<in> fst ` set (load_rows rows) \<Longrightarrow> CHR ''/'' \<in> set key"
  using keys_load [of rows] by (auto simp: row_base_url_def)

lemma replace_first_keeps: "c \<notin> set p \<Longrightarrow> c \<in> set s \<Longrightarrow> c \<in> set (replace_first s p [])"
proof (cases "index_of s p")
  case None
  then show "c \<in> set s \<Longrightarrow> ?thesis" by (simp add: replace_first_def)
next
  case (Some i)
  assume c: "c \<notin> set p" "c \<in> set s"
  from index_of_SomeD [OF Some] have "set s = set (take i s) \<union> set p \<union> set (drop (i + length p) s)"
    by (metis set_append sup_assoc)
  with c Some show ?thesis by (auto simp: replace_first_def)
qed

lemma suffix_covers:
  assumes "has_suffix (a @ CHR ''/'' # h) w" and "CHR ''/'' \<notin> set h" and "CHR ''/'' \<in> set w"
  shows "set h \<subseteq> set w"
proof -
  from assms(1) obtain r where r: "a @ CHR ''/'' # h = r @ w" by (auto simp: has_suffix_iff)
  from assms(3) obtain w1 w2 where w: "w = w1 @ CHR ''/'' # w2" "CHR ''/'' \<notin> set w2"
    by (metis in_set_conv_decomp_last)
  with r split_at_last [OF assms(2) w(2), of a "r @ w1"] show ?thesis by auto
qed

text \<open>Hosts are compared as they are spelt: the catalogue is kept in lower case and the host of the
  request is not, so that writing one letter of the host in upper case, which names the same host,
  matches no endpoint of the table, whatever it holds.\<close>

theorem upper_case_host_unmatched:
  assumes "lib_parse_url lib request_url = Inr u"
    and "CHR ''/'' \<notin> set (u_scheme u)" and "CHR ''/'' \<notin> set (u_host u)"
    and "c \<in> set (u_host u)" and "is_upper c"
  shows "match_url lib re sanctioned (refresh_endpoints_cache (Some (Inr rows)) cache) request_url tenant http_method
         = Inr None"
proof -
  let ?b = "request_base_url u" and ?c = "load_rows rows"
  have no_key: "s @ ''://'' @ u_host u \<notin> fst ` set ?c" for s
    using key_not_upper [of "s @ ''://'' @ u_host u" rows c] assms(4,5) by auto
  have no_wild: "\<not> has_suffix (s @ ''://'' @ u_host u) (replace_first key ''*.'' [])"
    if key: "key \<in> fst ` set ?c" for s key
  proof
    assume "has_suffix (s @ ''://'' @ u_host u) (replace_first key ''*.'' [])"
    then have "has_suffix ((s @ '':/'') @ CHR ''/'' # u_host u) (replace_first key ''*.'' [])" by simp
    moreover have "CHR ''/'' \<in> set (replace_first key ''*.'' [])"
      by (rule replace_first_keeps) (use key_slash [OF key] in simp_all)
    ultimately have "set (u_host u) \<subseteq> set (replace_first key ''*.'' [])"
      using suffix_covers assms(3) by blast
    with assms(4) replace_first_set [of key "''*.''"] have "c \<in> set key" by blast
    with key_not_upper [OF key this] assms(5) show False by simp
  qed
  have "endpoint_candidates ?c ?b = []"
  proof (rule no_candidates)
    show "?b \<notin> fst ` set ?c" unfolding request_base_url_def by (rule no_key)
    show "alt_base_url ?b \<notin> fst ` set ?c" if "alt_base_url ?b \<noteq> []"
      using alt_base_shape [OF assms(2), of "u_host u"] that no_key unfolding request_base_url_def by metis
    show "\<not> wildcard_admits ?b key" if "key \<in> fst ` set ?c" for key
      using alt_base_shape [OF assms(2), of "u_host u"] no_wild [OF that]
      unfolding wildcard_admits_def request_base_url_def Let_def by metis
  qed
  then show ?thesis using assms(1) by (simp add: match_url_def refresh_endpoints_cache_def)
qed

lemma upper_case_host_unmatched_witness:
  "match_url (sample_url ''API.ai.com'' ''/'') (\<lambda>p. None) (\<lambda>t i. Inr None)
     (refresh_endpoints_cache (Some (Inr [Some (sample_row\<lparr>er_domain := ''api.ai.com''\<rparr>)])) [])
     ''https://API.ai.com/'' ''tenant'' ''POST'' = Inr None"
  by (rule upper_case_host_unmatched [where u = "zero_url\<lparr>u_scheme := ''https'', u_host := ''API.ai.com'', u_path := ''/''\<rparr>"
        and c = "CHR ''A''"])
    (simp_all add: zero_url_def sample_url_def is_upper_def)

section \<open>The match agrees with the table\<close>

text \<open>The rows for a base URL: its own, or else those of the other scheme.\<close>

definition table_rows :: "endpoint_row option list \<Rightarrow> string \<Rightarrow> endpoint_row list" where
  "table_rows rows base =
     (let rows_of = (\<lambda>b. filter (\<lambda>r. row_base_url r = b) (List.map_filter id rows))
      in if rows_of base \<noteq> [] \<or> alt_base_url base = [] then rows_of base else rows_of (alt_base_url base))"

lemma find_map: "find P (map f xs) = map_option f (find (P \<circ> f) xs)"
  by (induction xs) auto

text \<open>C33: A request is matched against the table as it was read: among the rows of its base URL, or of the
  other scheme when there are none, the first in the order of the query whose method and path admit the
  request gives the configuration, with the sanction of that tool for this tenant. Comments and documentation say that
  a tenant opts out of a tool with \<open>is_monitored\<close>; nothing reads that column, and a row that admits the request
  gives its configuration whatever the tenant has set, unless the lookup of the sanction fails.\<close>

theorem match_url_first_row:
  assumes "lib_parse_url lib request_url = Inr u" and "tenant \<noteq> []"
    and "table_rows rows (request_base_url u) \<noteq> []"
  shows "match_url lib re sanctioned (refresh_endpoints_cache (Some (Inr rows)) cache) request_url tenant http_method =
    (case find (\<lambda>r. method_matches (er_http_method r) http_method \<and>
                    (er_endpoint_path r = [] \<or> path_matches re (request_path_of u) [er_endpoint_path r] (er_action r)))
            (table_rows rows (request_base_url u)) of
       None \<Rightarrow> Inr None
     | Some r \<Rightarrow> (case sanctioned tenant (er_tool_id r) of
                   Inl err \<Rightarrow> Inl err
                 | Inr sanc \<Rightarrow> Inr (Some (url_config_of (row_entry r) sanc))))"
proof -
  have "endpoint_candidates (load_rows rows) (request_base_url u) =
      map row_entry (table_rows rows (request_base_url u))"
    using assms(3) by (auto simp: endpoint_candidates_def table_rows_def cache_get_load Let_def split: if_splits)
  moreover have "endpoint_matches re http_method p \<circ> row_entry =
      (\<lambda>r. method_matches (er_http_method r) http_method \<and>
           (er_endpoint_path r = [] \<or> path_matches re p [er_endpoint_path r] (er_action r)))" for p
    by (auto simp: fun_eq_iff endpoint_matches_def row_entry_def path_matches_def)
  ultimately show ?thesis
    using assms(1,2)
    by (auto simp: match_url_def refresh_endpoints_cache_def find_map row_entry_def split: option.splits)
qed

lemma match_url_first_row_witness:
  "\<exists>cfg. match_url (sample_url ''api.ai.com'' ''/v1/chat'') (\<lambda>p. None) (\<lambda>t i. Inr (Some True))
     (refresh_endpoints_cache (Some (Inr [None, Some (sample_row\<lparr>er_domain := '' API.ai.com'', er_http_method := ''GET''\<rparr>),
        Some (sample_row\<lparr>er_domain := ''api.ai.com'', er_name := ''chat''\<rparr>)])) [])
     ''https://api.ai.com/v1/chat'' ''tenant'' ''POST'' = Inr (Some cfg) \<and> uc_name cfg = ''chat''"
proof -
  let ?r1 = "sample_row\<lparr>er_domain := '' API.ai.com'', er_http_method := ''GET''\<rparr>"
  let ?r2 = "sample_row\<lparr>er_domain := ''api.ai.com'', er_name := ''chat''\<rparr>"
  let ?u = "zero_url\<lparr>u_scheme := ''https'', u_host := ''api.ai.com'', u_path := ''/v1/chat''\<rparr>"
  have b: "row_base_url ?r1 = ''https://api.ai.com'' \<and> row_base_url ?r2 = ''https://api.ai.com''" by code_simp
  have t: "table_rows [None, Some ?r1, Some ?r2] (request_base_url ?u) = [?r1, ?r2]"
    using b by (simp add: table_rows_def request_base_url_def zero_url_def Let_def map_filter_def)
  have m: "\<not> method_matches (er_http_method ?r1) ''POST'' \<and> method_matches (er_http_method ?r2) ''POST''"
    by code_simp
  have p: "lib_parse_url (sample_url ''api.ai.com'' ''/v1/chat'') ''https://api.ai.com/v1/chat'' = Inr ?u"
    by (simp add: sample_url_def zero_url_def)
  have e: "er_endpoint_path ?r2 = []" by (simp add: sample_row_def)
  show ?thesis
    using match_url_first_row [OF p, of "''tenant''" "[None, Some ?r1, Some ?r2]"] t m e
    by (simp add: url_config_of_def row_entry_def)
qed

section \<open>Literal paths and placeholders\<close>

abbreviation trim_slashes :: "string \<Rightarrow> string" where
  "trim_slashes p \<equiv> trim_chars p (CHR ''/'')"

lemma trim_slashes_front: "trim_slashes (''/'' @ p) = trim_slashes p"
  by (simp add: trim_chars_def trim_left_func_def)

lemma trim_slashes_back: "trim_slashes (p @ ''/'') = trim_slashes p"
proof (cases "\<forall>c \<in> set p. c = CHR ''/''")
  case True
  then have "dropWhile (\<lambda>x. x = CHR ''/'') p = []" "dropWhile (\<lambda>x. x = CHR ''/'') (p @ ''/'') = []" by simp_all
  then show ?thesis unfolding trim_chars_def trim_left_func_def by metis
next
  case False
  then obtain c where "c \<in> set p" "c \<noteq> CHR ''/''" by blast
  then have "dropWhile (\<lambda>x. x = CHR ''/'') (p @ ''/'') = dropWhile (\<lambda>x. x = CHR ''/'') p @ ''/''"
    by (rule dropWhile_append1)
  then show ?thesis by (simp add: trim_chars_def trim_left_func_def trim_right_func_def)
qed

lemma trim_slashes_slashed: "trim_slashes (slashed p) = trim_slashes p"
proof -
  have s: "trim_slashes (trim_suffix q ''/'') = trim_slashes q" for q
  proof (cases "has_suffix q ''/''")
    case True
    then obtain r where "q = r @ ''/''" by (auto simp: has_suffix_iff)
    then show ?thesis using trim_slashes_back [of r] by (simp add: trim_suffix_def has_suffix_def)
  qed (simp add: trim_suffix_def)
  show ?thesis
    unfolding slashed_def trim_slashes_back s using trim_slashes_front [of p] by simp
qed

lemma split_set: "x \<in> set (split s sep) \<Longrightarrow> set x \<subseteq> set s"
proof -
  have "x \<in> set (splitN (Suc n) s sep) \<Longrightarrow> set x \<subseteq> set s" for n
  proof (induction n arbitrary: s)
    case 0
    then show ?case by simp
  next
    case (Suc n)
    then show ?case
      by (auto split: option.splits dest: in_set_takeD in_set_dropD)
  qed
  then show "x \<in> set (split s sep) \<Longrightarrow> set x \<subseteq> set s" unfolding split_def .
qed

lemma split_inject: "split s sep = split t sep \<longleftrightarrow> s = t"
  by (metis join_split)

lemma placeholder_brace: "is_path_placeholder s \<Longrightarrow> CHR ''{'' \<in> set s"
proof -
  assume "is_path_placeholder s"
  then have "CHR ''{'' \<in> set (trim_space s)"
    by (auto simp: is_path_placeholder_def Let_def has_prefix_iff)
  then show ?thesis
    by (auto simp: trim_space_def trim_right_func_def trim_left_func_def dest!: set_dropWhileD)
qed

lemma set_trim_slashes: "set (trim_slashes p) \<subseteq> set p"
  by (auto simp: trim_chars_def trim_right_func_def trim_left_func_def dest!: set_dropWhileD)

lemma set_slashed: "set (slashed p) \<subseteq> insert (CHR ''/'') (set p)"
  by (auto simp: slashed_def trim_suffix_def dest: in_set_takeD)

lemma segment_match_literal:
  assumes "CHR ''{'' \<notin> set p"
  shows "path_segment_match req p \<longleftrightarrow> trim_slashes req = trim_slashes p"
proof -
  have "\<not> is_path_placeholder c" if "c \<in> set (split (trim_slashes p) ''/'')" for c
    using split_set [OF that] set_trim_slashes [of p] placeholder_brace [of c] assms by blast
  then have "path_segment_match req p \<longleftrightarrow>
      list_all2 (=) (split (trim_slashes req) ''/'') (split (trim_slashes p) ''/'')"
    unfolding path_segment_match_def Let_def by (intro list.rel_cong) auto
  also have "\<dots> \<longleftrightarrow> trim_slashes req = trim_slashes p"
    by (simp add: list.rel_eq split_inject)
  finally show ?thesis .
qed

text \<open>A configured path without special characters matches literally up to slashes at the ends: for the
  action \<open>record\<close> nothing but the path itself, for any other action also every path below it.\<close>

theorem literal_path_matches:
  assumes "\<not> is_regex_pattern p"
  shows "path_matches re req [p] action \<longleftrightarrow>
    trim_slashes req = trim_slashes p \<or> action \<noteq> ''record'' \<and> has_prefix (slashed req) (slashed p)"
proof -
  have b: "CHR ''{'' \<notin> set (slashed p)"
    using assms set_slashed [of p] by (auto simp: is_regex_pattern_def)
  have "path_segment_match (slashed req) (slashed p) \<longleftrightarrow> trim_slashes req = trim_slashes p"
    by (simp add: segment_match_literal [OF b] trim_slashes_slashed)
  moreover have "slashed req = slashed p \<Longrightarrow> trim_slashes req = trim_slashes p"
    using trim_slashes_slashed [of req] trim_slashes_slashed [of p] by simp
  ultimately show ?thesis
    using assms by (auto simp: path_matches_def path_matches_one_def Let_def)
qed

lemma literal_path_matches_witness:
  "path_matches (\<lambda>p. None) ''/v1/chat/'' [''v1/chat''] ''record'' \<and>
   \<not> path_matches (\<lambda>p. None) ''/v1/chat/7/'' [''v1/chat''] ''record'' \<and>
   path_matches (\<lambda>p. None) ''/v1/chat/7/'' [''v1/chat''] ''block''"
proof -
  have "\<not> is_regex_pattern ''v1/chat''" by code_simp
  note l = literal_path_matches [OF this, of "\<lambda>p. None"]
  have "trim_slashes ''/v1/chat/'' = trim_slashes ''v1/chat''" "trim_slashes ''/v1/chat/7/'' \<noteq> trim_slashes ''v1/chat''"
    "has_prefix (slashed ''/v1/chat/7/'') (slashed ''v1/chat'')"
    by code_simp+
  then show ?thesis unfolding l by simp
qed

text \<open>A path with a placeholder is never matched segment by segment: its braces make it a regular
  expression, and as they are literal text to Go's regular expressions, only a request that spells the
  placeholder itself matches. No request with an actual value in its place is ever recorded.\<close>

theorem placeholder_matches_only_itself:
  assumes "CHR ''{'' \<in> set p" and "re p = Some f"
    and "\<forall>s i j. f s = Some (i, j) \<longrightarrow> i \<le> j \<and> j \<le> length s \<and> take (j - i) (drop i s) = p"
    and "path_matches re req [p] action"
  shows "slashed req = p \<or> trim_suffix (slashed req) ''/'' = p"
proof -
  have "is_regex_pattern p" using assms(1) by (auto simp: is_regex_pattern_def)
  with assms(2,4) have "regex_full_match f (slashed req)"
    by (auto simp: path_matches_def path_matches_one_def Let_def)
  then obtain s where "s = slashed req \<or> s = trim_suffix (slashed req) ''/''" "f s = Some (0, length s)"
    by (auto simp: regex_full_match_def)
  with assms(3) show ?thesis by fastforce
qed

text \<open>A regular expression without special characters, as Go finds it.\<close>

definition literal_regex :: regexes where
  "literal_regex p = Some (\<lambda>s. map_option (\<lambda>i. (i, i + length p)) (index_of s p))"

lemma literal_regex_law:
  "literal_regex p = Some f \<Longrightarrow> f s = Some (i, j) \<Longrightarrow> i \<le> j \<and> j \<le> length s \<and> take (j - i) (drop i s) = p"
  by (auto simp: literal_regex_def dest!: index_of_SomeD)
    (metis add.commute append_eq_conv_conj append_take_drop_id length_take min.absorb2 add_leD1)

lemma placeholder_matches_only_itself_witness:
  "path_matches literal_regex ''/org/{id}/chat'' [''/org/{id}/chat''] ''record'' \<and>
   \<not> path_matches literal_regex ''/org/42/chat'' [''/org/{id}/chat''] ''record''"
proof
  show "path_matches literal_regex ''/org/{id}/chat'' [''/org/{id}/chat''] ''record''" by code_simp
  let ?p = "''/org/{id}/chat''"
  obtain f where f: "literal_regex ?p = Some f" by (simp add: literal_regex_def)
  show "\<not> path_matches literal_regex ''/org/42/chat'' [?p] ''record''"
  proof
    assume a: "path_matches literal_regex ''/org/42/chat'' [?p] ''record''"
    have "slashed ''/org/42/chat'' = ''/org/42/chat/''" "trim_suffix ''/org/42/chat/'' ''/'' = ''/org/42/chat''"
      by code_simp+
    with placeholder_matches_only_itself [OF _ f _ a] literal_regex_law [OF f] show False by simp
  qed
qed

end
