(* ===== verification/TtlCache.thy ===== *)
theory TtlCache
  imports GoStrings
begin

text \<open>
  Caches whose entries expire, as the whois and the LDAP lookups use them: the interface, a lookup through
  such a cache, and what any provider of the interface gives its clients: no answer is older than the
  time to live, and none belongs to another key.

  Times are nanoseconds. A lookup reads the clock when it checks the cache and again when it stores.
\<close>

record 'v cache_call =
  cc_key :: string
  cc_checked :: nat
  cc_stored :: nat
  cc_fetched :: "go_error + 'v"

text \<open>
  A lookup: a live entry answers, otherwise the source is asked (\<open>cc_fetched\<close> is its reply), an error is
  returned uncached and a value is stored.
\<close>

definition cached_call :: "('c \<Rightarrow> string \<Rightarrow> nat \<Rightarrow> 'v option) \<Rightarrow> ('c \<Rightarrow> string \<Rightarrow> 'v \<Rightarrow> nat \<Rightarrow> 'c) \<Rightarrow>
    'v cache_call \<Rightarrow> 'c \<Rightarrow> (go_error + 'v) \<times> 'c" where
  "cached_call get put call c =
     (case get c (cc_key call) (cc_checked call) of
        Some v \<Rightarrow> (Inr v, c)
      | None \<Rightarrow>
          (case cc_fetched call of
             Inl err \<Rightarrow> (Inl err, c)
           | Inr v \<Rightarrow> (Inr v, put c (cc_key call) v (cc_stored call))))"

fun cached_calls :: "('c \<Rightarrow> string \<Rightarrow> nat \<Rightarrow> 'v option) \<Rightarrow> ('c \<Rightarrow> string \<Rightarrow> 'v \<Rightarrow> nat \<Rightarrow> 'c) \<Rightarrow>
    'v cache_call list \<Rightarrow> 'c \<Rightarrow> (go_error + 'v) list \<times> 'c" where
  "cached_calls get put [] c = ([], c)"
| "cached_calls get put (call # calls) c =
     (case cached_call get put call c of
        (r, c1) \<Rightarrow> (case cached_calls get put calls c1 of (rs, c2) \<Rightarrow> (r # rs, c2)))"

lemma length_cached_calls: "cached_calls get put calls c = (rs, c') \<Longrightarrow> length rs = length calls"
  by (induction calls arbitrary: c rs c') (auto split: prod.splits)

locale ttl_cache =
  fixes get :: "'c \<Rightarrow> string \<Rightarrow> nat \<Rightarrow> 'v option"
    and put :: "'c \<Rightarrow> string \<Rightarrow> 'v \<Rightarrow> nat \<Rightarrow> 'c"
    and none :: 'c
    and ttl :: nat
  assumes get_none: "get none k t = None"
    and get_put_same: "get (put c k v s) k t = (if t < s + ttl then Some v else None)"
    and get_put_other: "k \<noteq> l \<Longrightarrow> get (put c k v s) l t = get c l t"

context ttl_cache
begin

text \<open>Every live entry was stored, under its own key and less than the time to live ago.\<close>

definition backed :: "'v cache_call set \<Rightarrow> 'c \<Rightarrow> bool" where
  "backed log c \<longleftrightarrow>
     (\<forall>k t v. get c k t = Some v \<longrightarrow>
        (\<exists>call \<in> log. cc_key call = k \<and> cc_fetched call = Inr v \<and> t < cc_stored call + ttl))"

lemma backed_none: "backed log none"
  by (simp add: backed_def get_none)

lemma backed_mono: "backed log c \<Longrightarrow> log \<subseteq> log' \<Longrightarrow> backed log' c"
  unfolding backed_def by blast

lemma backed_put:
  assumes "backed log c" and "call \<in> log" and "cc_fetched call = Inr v"
  shows "backed log (put c (cc_key call) v (cc_stored call))"
  unfolding backed_def
proof (intro allI impI)
  fix k t w
  assume a: "get (put c (cc_key call) v (cc_stored call)) k t = Some w"
  show "\<exists>call \<in> log. cc_key call = k \<and> cc_fetched call = Inr w \<and> t < cc_stored call + ttl"
  proof (cases "k = cc_key call")
    case True
    with a get_put_same [of c k v "cc_stored call" t] assms(2,3) show ?thesis by (auto split: if_splits)
  next
    case False
    with a get_put_other [of "cc_key call" k c v "cc_stored call" t] assms(1) show ?thesis
      by (auto simp: backed_def)
  qed
qed

lemma cached_call_backed:
  assumes "backed log c" and "cached_call get put call c = (r, c')"
  shows "backed (insert call log) c'"
  using assms backed_mono [OF assms(1), of "insert call log"] backed_put [of "insert call log" c call]
  by (auto simp: cached_call_def split: option.splits sum.splits)

text \<open>An answer is the reply of this call, or that of an earlier one still alive.\<close>

definition answered_by :: "'v cache_call \<Rightarrow> 'v \<Rightarrow> 'v cache_call \<Rightarrow> bool" where
  "answered_by call v src \<longleftrightarrow> cc_key src = cc_key call \<and> cc_fetched src = Inr v \<and>
     (src = call \<or> cc_checked call < cc_stored src + ttl)"

lemma cached_call_answer:
  assumes "backed log c" and "cached_call get put call c = (Inr v, c')"
  shows "\<exists>src \<in> insert call log. answered_by call v src"
  using assms unfolding cached_call_def answered_by_def backed_def
  by (auto split: option.splits sum.splits)

lemma cached_calls_answers:
  assumes "backed log c" and "cached_calls get put calls c = (rs, c')" and "i < length calls" and "rs ! i = Inr v"
  shows "\<exists>src \<in> log \<union> set (take (Suc i) calls). answered_by (calls ! i) v src"
  using assms
proof (induction calls arbitrary: log c rs c' i)
  case Nil
  then show ?case by simp
next
  case (Cons call calls)
  obtain r c1 where r: "cached_call get put call c = (r, c1)" by (cases "cached_call get put call c")
  obtain rs' c2 where rs': "cached_calls get put calls c1 = (rs', c2)" by (cases "cached_calls get put calls c1")
  have rs: "rs = r # rs'" "c2 = c'" using Cons.prems(2) by (simp_all add: r rs')
  show ?case
  proof (cases i)
    case 0
    with cached_call_answer [OF Cons.prems(1), of call v c1] r Cons.prems(4) rs show ?thesis by auto
  next
    case (Suc j)
    have "backed (insert call log) c1" by (rule cached_call_backed [OF Cons.prems(1) r])
    from Cons.IH [OF this rs', of j] Suc Cons.prems(3,4) rs show ?thesis by auto
  qed
qed

text \<open>From the empty cache, every answer is the reply to a call with the same key that is not outdated.\<close>

lemma answers_fresh:
  assumes "cached_calls get put calls none = (rs, c')" and "i < length calls" and "rs ! i = Inr v"
  shows "\<exists>j \<le> i. answered_by (calls ! i) v (calls ! j)"
proof -
  from cached_calls_answers [OF backed_none assms, of "{}"]
  obtain src where "src \<in> set (take (Suc i) calls)" "answered_by (calls ! i) v src" by auto
  with assms(2) show ?thesis by (force simp: in_set_conv_nth less_Suc_eq_le)
qed

text \<open>A reply is kept: the same key asked again before it expires has the same answer, whatever the source
  would say now.\<close>

lemma cached_again:
  assumes "cached_call get put call c = (Inr v, c')" and "get c (cc_key call) (cc_checked call) = None"
    and "cc_key call' = cc_key call" and "cc_checked call' < cc_stored call + ttl"
  shows "cached_call get put call' c' = (Inr v, c')"
  using assms get_put_same [of c "cc_key call" v "cc_stored call"]
  by (auto simp: cached_call_def split: sum.splits)

end

end
