(* ===== verification/Identity.thy ===== *)
theory Identity
  imports TtlCache GoHttp Base64
begin

text \<open>
  Who sent a request: \<open>business/identity.go\<close> (the whois lookup with its cache and the identity taken from
  the headers), \<open>business/ldap_enricher.go\<close> and \<open>business/tenant.go\<close>.

  Parameters are the environment variables, the answers of the whois service, of the directory and of the
  database, and the unverified parser of bearer tokens. State is the two caches.
\<close>

section \<open>The whois lookup\<close>

record whois_result =
  wr_user :: string
  wr_subject :: string
  wr_role :: string
  wr_tenant_id :: string

text \<open>What the whois service answers: no request, no reply, or a status with the decoded body.\<close>

datatype whois_reply =
    WhoisBadRequest go_error
  | WhoisNoReply go_error
  | WhoisReply nat "go_error + whois_result"

record whois_entry =
  we_result :: "whois_result option"
  we_expiry :: nat

type_synonym whois_cache = "(string \<times> whois_entry) list"

definition whois_ttl :: nat where
  "whois_ttl = 5 * 10 ^ 9"

definition whois_get :: "whois_cache \<Rightarrow> string \<Rightarrow> nat \<Rightarrow> whois_result option option" where
  "whois_get c key now =
     (case map_of c key of
        Some entry \<Rightarrow> (if now < we_expiry entry then Some (we_result entry) else None)
      | None \<Rightarrow> None)"

definition whois_put :: "whois_cache \<Rightarrow> string \<Rightarrow> whois_result option \<Rightarrow> nat \<Rightarrow> whois_cache" where
  "whois_put c key res now = AList.update key \<lparr>we_result = res, we_expiry = now + whois_ttl\<rparr> c"

text \<open>The reply as the lookup takes it: 404 is the answer that there is no lease.\<close>

definition whois_fetched :: "whois_reply \<Rightarrow> go_error + whois_result option" where
  "whois_fetched reply =
     (case reply of
        WhoisBadRequest err \<Rightarrow> Inl (ErrText (''identity: whois request build: '' @ err_text err))
      | WhoisNoReply err \<Rightarrow> Inl (ErrText (''identity: whois request: '' @ err_text err))
      | WhoisReply status bd \<Rightarrow>
          (if status = 404 then Inr None
           else if status \<noteq> 200 then Inl (ErrText (''identity: whois returned HTTP '' @ itoa status))
           else case bd of
                  Inl err \<Rightarrow> Inl (ErrText (''identity: whois decode: '' @ err_text err))
                | Inr res \<Rightarrow> Inr (Some res)))"

text \<open>The key: the address and the five-second bucket of the time of the request.\<close>

definition whois_key :: "string \<Rightarrow> nat \<Rightarrow> string" where
  "whois_key ip ts = ip @ '':'' @ itoa (ts div 10 ^ 9 div 5)"

text \<open>The clock as a lookup reads it: the time of the request, at the check, and when storing.\<close>

record clock =
  ck_request :: nat
  ck_check :: nat
  ck_store :: nat

record ident_env =
  ie_backend_url :: string
  ie_whois_token :: string
  ie_tunnel_enforced :: string
  ie_tenant_id :: string
  ie_whois :: "string \<Rightarrow> whois_reply"
  ie_jwt_sub :: "string \<Rightarrow> string option"

definition whois_call :: "string \<Rightarrow> clock \<Rightarrow> whois_reply \<Rightarrow> whois_result option cache_call" where
  "whois_call ip ck reply = \<lparr>cc_key = whois_key ip (ck_request ck), cc_checked = ck_check ck,
     cc_stored = ck_store ck, cc_fetched = whois_fetched reply\<rparr>"

definition lookup_whois :: "ident_env \<Rightarrow> string \<Rightarrow> clock \<Rightarrow> whois_cache \<Rightarrow>
    (go_error + whois_result option) \<times> whois_cache" where
  "lookup_whois env ip ck cache =
     (if trim_right_func (\<lambda>c. c = CHR ''/'') (ie_backend_url env) = [] \<or> ie_whois_token env = []
      then (Inl (ErrText ''identity: URAI_BACKEND_URL or URAI_WHOIS_TOKEN not configured''), cache)
      else cached_call whois_get whois_put (whois_call ip ck (ie_whois env ip)) cache)"

interpretation whois: ttl_cache whois_get whois_put "[]" whois_ttl
  by unfold_locales (auto simp: whois_get_def whois_put_def update_conv')

section \<open>The identity of a request\<close>

record identity_info =
  ii_tenant_id :: string
  ii_user_id :: string
  ii_username :: string
  ii_source_ip :: string

definition strip_client_headers :: "header \<Rightarrow> header" where
  "strip_client_headers h = hdel (hdel (hdel h ''X-Client-Username'') ''X-Authenticated-User'') ''X-Client-IP''"

text \<open>The merged headers; the keys of either map are distinct.\<close>

definition merge_headers :: "header \<Rightarrow> header \<Rightarrow> header" where
  "merge_headers http icap = foldr (\<lambda>(k, vs) m. hput m k vs) icap http"

definition client_username :: "(string \<Rightarrow> string) \<Rightarrow> identity_info \<Rightarrow> identity_info" where
  "client_username hdr info =
     (let user = hdr ''X-Client-Username''
      in if user \<noteq> [] then info\<lparr>ii_user_id := user, ii_username := user\<rparr> else info)"

definition authenticated_user :: "(string \<Rightarrow> string) \<Rightarrow> identity_info \<Rightarrow> identity_info" where
  "authenticated_user hdr info =
     (let auth_user = hdr ''X-Authenticated-User''
      in if auth_user = [] then info
         else case b64_decode auth_user of
                (decoded, ok) \<Rightarrow>
                  if ok \<and> has_prefix decoded ''Local://'' \<and> ii_user_id info = []
                  then info\<lparr>ii_user_id := drop 8 decoded\<rparr> else info)"

definition bearer_user :: "(string \<Rightarrow> string option) \<Rightarrow> (string \<Rightarrow> string) \<Rightarrow> identity_info \<Rightarrow> identity_info" where
  "bearer_user jwt_sub hdr info =
     (let auth = hdr ''Authorization''
      in if auth = [] then info
         else case splitN 2 auth '' '' of
                [scheme, token] \<Rightarrow>
                  (if to_lower scheme = ''bearer''
                   then (case jwt_sub token of
                           Some sub \<Rightarrow> (if ii_user_id info = [] then info\<lparr>ii_user_id := sub\<rparr> else info)
                         | None \<Rightarrow> info)
                   else info)
              | _ \<Rightarrow> info)"

definition forwarded_ip :: "(string \<Rightarrow> string) \<Rightarrow> identity_info \<Rightarrow> identity_info" where
  "forwarded_ip hdr info =
     (if hdr ''X-Forwarded-For'' \<noteq> []
      then info\<lparr>ii_source_ip := trim_space (hd (split (hdr ''X-Forwarded-For'') '',''))\<rparr>
      else if hdr ''X-Real-IP'' \<noteq> [] then info\<lparr>ii_source_ip := hdr ''X-Real-IP''\<rparr>
      else info)"

text \<open>The identity from the proxy's headers, a bearer token being the fallback.\<close>

definition header_identity :: "ident_env \<Rightarrow> (string \<Rightarrow> string) \<Rightarrow> identity_info \<Rightarrow> go_error + identity_info" where
  "header_identity env hdr info =
     (let info1 = forwarded_ip hdr (bearer_user (ie_jwt_sub env) hdr
                    (authenticated_user hdr (client_username hdr info)))
      in if ii_tenant_id info1 = []
         then Inl (ErrText ''tenant_id not set: set TENANT_ID in environment or .env'') else Inr info1)"

definition identity_from :: "ident_env \<Rightarrow> clock \<Rightarrow> (string \<Rightarrow> string) \<Rightarrow> whois_cache \<Rightarrow>
    (go_error + identity_info) \<times> whois_cache" where
  "identity_from env ck hdr cache =
     (let info = \<lparr>ii_tenant_id = trim_space (ie_tenant_id env), ii_user_id = [], ii_username = [], ii_source_ip = []\<rparr>;
          ip = hdr ''X-Client-IP''
      in if ip = [] then (header_identity env hdr info, cache)
         else case lookup_whois env ip ck cache of
           (Inl err, cache1) \<Rightarrow>
             (if ie_tunnel_enforced env = ''true''
              then (Inl (ErrText (''identity: whois lookup failed for '' @ ip @ '' on enforced tunnel path: '' @ err_text err)), cache1)
              else (header_identity env hdr info, cache1))
         | (Inr None, cache1) \<Rightarrow>
             (Inl (ErrText (''identity: no active lease for inner IP '' @ ip @
                [SP, CHR 0xE2, CHR 0x80, CHR 0x94, SP] @ ''request blocked'')), cache1)
         | (Inr (Some w), cache1) \<Rightarrow>
             (Inr (info\<lparr>ii_user_id := wr_user w, ii_username := wr_user w, ii_source_ip := ip,
                ii_tenant_id := (if wr_tenant_id w \<noteq> [] then wr_tenant_id w else ii_tenant_id info)\<rparr>), cache1))"

text \<open>\<open>ExtractIdentity\<close>: the identity, the HTTP headers as they are left, and the cache.\<close>

definition extract_identity :: "ident_env \<Rightarrow> clock \<Rightarrow> header \<Rightarrow> header \<Rightarrow> whois_cache \<Rightarrow>
    (go_error + identity_info) \<times> header \<times> whois_cache" where
  "extract_identity env ck icap_headers http_headers cache =
     (let http = strip_client_headers http_headers
      in case identity_from env ck (hget (merge_headers http icap_headers)) cache of
           (res, cache1) \<Rightarrow> (res, http, cache1))"

section \<open>Directory attributes\<close>

record ldap_entry =
  le_attrs :: "(string \<times> string) list"
  le_expiry :: nat

type_synonym ldap_cache = "(string \<times> ldap_entry) list"

definition ldap_ttl :: nat where
  "ldap_ttl = 5 * 60 * 10 ^ 9"

definition ldap_get :: "ldap_cache \<Rightarrow> string \<Rightarrow> nat \<Rightarrow> (string \<times> string) list option" where
  "ldap_get c key now =
     (case map_of c key of
        Some entry \<Rightarrow> (if now < le_expiry entry then Some (le_attrs entry) else None)
      | None \<Rightarrow> None)"

definition ldap_put :: "ldap_cache \<Rightarrow> string \<Rightarrow> (string \<times> string) list \<Rightarrow> nat \<Rightarrow> ldap_cache" where
  "ldap_put c key attrs now = AList.update key \<lparr>le_attrs = attrs, le_expiry = now + ldap_ttl\<rparr> c"

interpretation ldap: ttl_cache ldap_get ldap_put "[]" ldap_ttl
  by unfold_locales (auto simp: ldap_get_def ldap_put_def update_conv')

text \<open>
  The directory as the LDAP library shows it: dialling, binding, the values of the first entry a search
  finds (one entry is asked for), and the escaping of filters; quoting is that of the error text.
\<close>

record ldap_settings =
  ls_host :: string
  ls_port :: string
  ls_base_dn :: string
  ls_bind_dn :: string
  ls_bind_password :: string

record ldap_dir =
  ld_dial :: "string \<Rightarrow> go_error option"
  ld_bind :: "string \<Rightarrow> string \<Rightarrow> go_error option"
  ld_search :: "string \<Rightarrow> string \<Rightarrow> string list \<Rightarrow> go_error + (string \<Rightarrow> string) option"
  ld_escape_filter :: "string \<Rightarrow> string"
  ld_quote :: "string \<Rightarrow> string"

definition new_ldap_enricher :: "string \<Rightarrow> string \<Rightarrow> string \<Rightarrow> string \<Rightarrow> string \<Rightarrow> ldap_settings \<times> ldap_cache" where
  "new_ldap_enricher host port base_dn bind_dn bind_password =
     (\<lparr>ls_host = host, ls_port = port, ls_base_dn = base_dn, ls_bind_dn = bind_dn,
       ls_bind_password = bind_password\<rparr>, [])"

definition entry_attributes :: "(string \<Rightarrow> string) \<Rightarrow> (string \<times> string) list" where
  "entry_attributes entry =
     List.map_filter (\<lambda>(attr, name). if entry attr \<noteq> [] then Some (name, entry attr) else None)
       [(''mail'', ''email''), (''displayName'', ''display_name''), (''department'', ''department'')]"

definition search_ad :: "ldap_dir \<Rightarrow> ldap_settings \<Rightarrow> string \<Rightarrow> go_error + (string \<times> string) list" where
  "search_ad dir e username =
     (let addr = ls_host e @ '':'' @ ls_port e in
      case ld_dial dir (''ldap://'' @ addr) of
        Some err \<Rightarrow> Inl (ErrText (''ldap dial '' @ addr @ '': '' @ err_text err))
      | None \<Rightarrow>
          (case ld_bind dir (ls_bind_dn e) (ls_bind_password e) of
             Some err \<Rightarrow> Inl (ErrText (''ldap service-account bind: '' @ err_text err))
           | None \<Rightarrow>
               (case ld_search dir (ls_base_dn e) (''(sAMAccountName='' @ ld_escape_filter dir username @ '')'')
                       [''mail'', ''displayName'', ''department''] of
                  Inl err \<Rightarrow> Inl (ErrText (''ldap search for '' @ ld_quote dir username @ '': '' @ err_text err))
                | Inr None \<Rightarrow> Inr []
                | Inr (Some entry) \<Rightarrow> Inr (entry_attributes entry))))"

definition account_name :: "string \<Rightarrow> string" where
  "account_name username = (case index_of username ''@'' of Some i \<Rightarrow> take i username | None \<Rightarrow> username)"

definition enrich :: "ldap_dir \<Rightarrow> ldap_settings \<Rightarrow> string \<Rightarrow> nat \<Rightarrow> nat \<Rightarrow> ldap_cache \<Rightarrow>
    (go_error + (string \<times> string) list) \<times> ldap_cache" where
  "enrich dir e username checked stored cache =
     (if username = [] then (Inr [], cache)
      else let name = account_name username
           in cached_call ldap_get ldap_put \<lparr>cc_key = name, cc_checked = checked, cc_stored = stored,
                cc_fetched = search_ad dir e name\<rparr> cache)"

section \<open>Tenants\<close>

datatype db_reply = DbRow | DbNoRows | DbError go_error

definition validate_tenant :: "(string \<Rightarrow> db_reply) \<Rightarrow> string \<Rightarrow> go_error + unit" where
  "validate_tenant tenant_row tenant_id =
     (if tenant_id = [] then Inl (ErrText ''missing or invalid tenant_id'')
      else case tenant_row tenant_id of
        DbNoRows \<Rightarrow> Inl (ErrText (''tenant '' @ [QUOTE] @ tenant_id @ [QUOTE] @ '' not found''))
      | DbError err \<Rightarrow> Inl (ErrText (''database error: '' @ err_text err))
      | DbRow \<Rightarrow> Inr ())"

text \<open>Whether the pair is valid, and whether the activity of the user is updated.\<close>

definition validate_tenant_and_user :: "(string \<Rightarrow> db_reply) \<Rightarrow> (string \<Rightarrow> string \<Rightarrow> db_reply) \<Rightarrow> string \<Rightarrow> string \<Rightarrow>
    (go_error + unit) \<times> bool" where
  "validate_tenant_and_user tenant_row user_row tenant_id user_id =
     (case validate_tenant tenant_row tenant_id of
        Inl err \<Rightarrow> (Inl err, False)
      | Inr _ \<Rightarrow>
          (if user_id = [] then (Inr (), False)
           else case user_row tenant_id user_id of
                  DbRow \<Rightarrow> (Inr (), True)
                | _ \<Rightarrow> (Inr (), False)))"

section \<open>Headers of the client\<close>

lemma map_of_merge: "map_of (merge_headers http icap) = map_of http ++ map_of icap"
  by (induction icap) (auto simp: merge_headers_def map_of_hput map_add_def fun_eq_iff)

lemma hget_cong: "map_of h = map_of h' \<Longrightarrow> hget h = hget h'"
  by (rule ext) (simp add: hget_def)

definition client_identity_keys :: "string set" where
  "client_identity_keys = canonical_key ` {''X-Client-Username'', ''X-Authenticated-User'', ''X-Client-IP''}"

lemma map_of_stripped:
  "map_of (strip_client_headers h) = map_of h |` (- client_identity_keys)"
  by (auto simp: fun_eq_iff strip_client_headers_def map_of_hdel client_identity_keys_def restrict_map_def)

text \<open>C35: A client cannot name itself: the identity, and what is asked of the whois service, are the same
  whatever the HTTP request says in the three identity headers, and these headers are gone from the
  request afterwards.\<close>

theorem client_identity_headers_ignored:
  assumes "\<forall>k. k \<notin> client_identity_keys \<longrightarrow> map_of http k = map_of http' k"
    and "extract_identity env ck icap http cache = (res, left, cache1)"
    and "extract_identity env ck icap http' cache = (res', left', cache1')"
  shows "res' = res \<and> cache1' = cache1 \<and> (\<forall>k \<in> client_identity_keys. map_of left k = None)"
proof -
  have "map_of (strip_client_headers http) = map_of (strip_client_headers http')"
    using assms(1) by (auto simp: fun_eq_iff map_of_stripped restrict_map_def)
  then have "hget (merge_headers (strip_client_headers http) icap) = hget (merge_headers (strip_client_headers http') icap)"
    by (intro hget_cong) (simp add: map_of_merge)
  with assms(2,3) have "res' = res \<and> cache1' = cache1" "left = strip_client_headers http"
    by (auto simp: extract_identity_def Let_def split: prod.splits)
  then show ?thesis by (simp add: map_of_stripped restrict_map_def)
qed

definition sample_env :: ident_env where
  "sample_env = \<lparr>ie_backend_url = ''https://backend/'', ie_whois_token = ''t'', ie_tunnel_enforced = ''true'',
     ie_tenant_id = ''acme'', ie_whois = (\<lambda>ip. WhoisReply 200 (Inr \<lparr>wr_user = ''ann'', wr_subject = [],
       wr_role = [], wr_tenant_id = []\<rparr>)), ie_jwt_sub = (\<lambda>t. None)\<rparr>"

definition sample_clock :: clock where
  "sample_clock = \<lparr>ck_request = 100, ck_check = 100, ck_store = 200\<rparr>"

lemma client_identity_headers_ignored_witness:
  "\<exists>info left cache1. extract_identity sample_env sample_clock [(''X-Client-Username'', [''bob''])]
       [(''X-Client-Username'', [''mallory''])] [] = (Inr info, left, cache1) \<and> ii_user_id info = ''bob''"
proof -
  let ?k = "''X-Client-Username''"
  have k: "canonical_key ?k = ?k" by code_simp
  then have e: "\<forall>k. k \<notin> client_identity_keys \<longrightarrow> map_of [(?k, [''mallory''])] k = map_of [] k"
    by (auto simp: client_identity_keys_def)
  obtain res left c where r: "extract_identity sample_env sample_clock [(?k, [''bob''])] [(?k, [''mallory''])] [] = (res, left, c)"
    by (metis prod_cases3)
  have "case extract_identity sample_env sample_clock [(?k, [''bob''])] [] [] of
      (Inr info, l', c') \<Rightarrow> ii_user_id info = ''bob'' | _ \<Rightarrow> False" by code_simp
  then obtain info l' c' where i: "extract_identity sample_env sample_clock [(?k, [''bob''])] [] [] = (Inr info, l', c')"
    "ii_user_id info = ''bob''" by (auto split: prod.splits sum.splits)
  from client_identity_headers_ignored [OF e r i(1)] i(2) r show ?thesis by auto
qed

section \<open>The tunnel\<close>

text \<open>C34: With the tunnel enforced, a request from a tunnel address is either refused or carries the user
  the whois lookup names for that very address; no header, token or failing service makes it anyone
  else's. Without a lease it is refused even when the tunnel is not enforced.\<close>

theorem tunnel_identity_enforced:
  assumes "hget (merge_headers (strip_client_headers http) icap) ''X-Client-IP'' = ip" and "ip \<noteq> []"
    and "extract_identity env ck icap http cache = (Inr info, left, cache1)"
  shows "(ie_tunnel_enforced env = ''true'' \<longrightarrow>
           (\<exists>w. lookup_whois env ip ck cache = (Inr (Some w), cache1) \<and> ii_user_id info = wr_user w \<and>
                ii_username info = wr_user w \<and> ii_source_ip info = ip)) \<and>
         fst (lookup_whois env ip ck cache) \<noteq> Inr None"
  using assms
  by (auto simp: extract_identity_def identity_from_def Let_def split: prod.splits sum.splits option.splits if_splits)

lemma tunnel_identity_enforced_witness:
  "\<exists>info left cache1 w. extract_identity sample_env sample_clock [(''X-Client-Ip'', [''10.0.0.7''])]
       [(''Authorization'', [''Bearer x''])] [] = (Inr info, left, cache1) \<and>
     lookup_whois sample_env ''10.0.0.7'' sample_clock [] = (Inr (Some w), cache1) \<and> ii_user_id info = wr_user w"
proof -
  let ?i = "[(''X-Client-Ip'', [''10.0.0.7''])]" and ?h = "[(''Authorization'', [''Bearer x''])]"
  have h: "hget (merge_headers (strip_client_headers ?h) ?i) ''X-Client-IP'' = ''10.0.0.7''" by code_simp
  have "trim_right_func (\<lambda>c. c = CHR ''/'') (ie_backend_url sample_env) \<noteq> []" by code_simp
  then obtain w c where "lookup_whois sample_env ''10.0.0.7'' sample_clock [] = (Inr (Some w), c)"
    by (simp add: lookup_whois_def cached_call_def whois_get_def whois_call_def whois_fetched_def sample_env_def)
  then obtain info left c where r: "extract_identity sample_env sample_clock ?i ?h [] = (Inr info, left, c)"
    by (simp add: extract_identity_def identity_from_def h Let_def)
  have "ie_tunnel_enforced sample_env = ''true''" by (simp add: sample_env_def)
  with tunnel_identity_enforced [OF h _ r] r show ?thesis by auto
qed

section \<open>The whois cache\<close>

text \<open>The lookups of a run, each with the reply the service would give.\<close>

fun run_lookups :: "ident_env \<Rightarrow> (string \<times> clock \<times> whois_reply) list \<Rightarrow> whois_cache \<Rightarrow>
    (go_error + whois_result option) list \<times> whois_cache" where
  "run_lookups env [] cache = ([], cache)"
| "run_lookups env ((ip, ck, reply) # calls) cache =
     (case lookup_whois (env\<lparr>ie_whois := \<lambda>_. reply\<rparr>) ip ck cache of
        (r, cache1) \<Rightarrow> (case run_lookups env calls cache1 of (rs, cache2) \<Rightarrow> (r # rs, cache2)))"

definition whois_configured :: "ident_env \<Rightarrow> bool" where
  "whois_configured env \<longleftrightarrow> trim_right_func (\<lambda>c. c = CHR ''/'') (ie_backend_url env) \<noteq> [] \<and> ie_whois_token env \<noteq> []"

lemma run_lookups_cached:
  "whois_configured env \<Longrightarrow>
     run_lookups env calls c = cached_calls whois_get whois_put (map (\<lambda>(ip, ck, reply). whois_call ip ck reply) calls) c"
  by (induction env calls c rule: run_lookups.induct)
    (auto simp: lookup_whois_def whois_configured_def split: prod.splits)

lemma whois_key_inject: "whois_key ip ts = whois_key ip' ts' \<longleftrightarrow> ip = ip' \<and> ts div 10 ^ 9 div 5 = ts' div 10 ^ 9 div 5"
proof -
  have d: "CHR '':'' \<notin> set (itoa n)" for n
    using itoa_digits [of "CHR '':''" n] by (auto simp: is_digit_def)
  let ?n = "ts div 10 ^ 9 div 5" and ?m = "ts' div 10 ^ 9 div 5"
  show ?thesis
  proof
    assume "whois_key ip ts = whois_key ip' ts'"
    then have "ip @ CHR '':'' # itoa ?n = ip' @ CHR '':'' # itoa ?m" by (simp add: whois_key_def)
    from split_at_last [OF d d this] show "ip = ip' \<and> ?n = ?m" by (simp only: itoa_inject)
  qed (simp add: whois_key_def)
qed

text \<open>C36: An answer of the cached whois lookup always is what the service replied for the same address in
  the same five-second bucket, to this request or less than five seconds before: never the user of
  another address, and never a lease older than that.\<close>

theorem whois_answers_fresh:
  assumes "whois_configured env" and "run_lookups env calls [] = (rs, cache)"
    and "i < length calls" and "calls ! i = (ip, ck, reply)" and "rs ! i = Inr res"
  shows "\<exists>j ck' reply'. j \<le> i \<and> calls ! j = (ip, ck', reply') \<and> whois_fetched reply' = Inr res \<and>
    ck_request ck' div 10 ^ 9 div 5 = ck_request ck div 10 ^ 9 div 5 \<and>
    (whois_fetched reply = Inr res \<or> ck_check ck < ck_store ck' + 5 * 10 ^ 9)"
proof -
  let ?f = "\<lambda>(ip, ck, reply). whois_call ip ck reply"
  have "cached_calls whois_get whois_put (map ?f calls) [] = (rs, cache)"
    using assms(2) by (simp add: run_lookups_cached [OF assms(1)])
  from whois.answers_fresh [OF this _ assms(5)] assms(3) obtain j
    where j: "j \<le> i" "whois.answered_by (?f (calls ! i)) res (?f (calls ! j))" by auto
  obtain ip' ck' reply' where c: "calls ! j = (ip', ck', reply')" by (metis prod_cases3)
  from j(2) have "ip' = ip" "whois_fetched reply' = Inr res"
    "ck_request ck' div 10 ^ 9 div 5 = ck_request ck div 10 ^ 9 div 5"
    "whois_fetched reply = Inr res \<or> ck_check ck < ck_store ck' + 5 * 10 ^ 9"
    unfolding c assms(4) whois.answered_by_def
    by (auto simp: whois_call_def whois_key_inject whois_ttl_def)
  with j(1) c show ?thesis by blast
qed

lemma whois_answers_fresh_witness:
  "\<exists>rs cache. run_lookups sample_env [(''10.0.0.7'', sample_clock, WhoisReply 404 (Inl EOF)),
       (''10.0.0.7'', sample_clock\<lparr>ck_check := 300\<rparr>, WhoisReply 500 (Inl EOF))] [] = (rs, cache) \<and>
     rs ! 1 = Inr None \<and> (300::nat) < 200 + 5 * 10 ^ 9"
proof -
  let ?calls = "[(''10.0.0.7'', sample_clock, WhoisReply 404 (Inl EOF)),
       (''10.0.0.7'', sample_clock\<lparr>ck_check := 300\<rparr>, WhoisReply 500 (Inl EOF))]"
  obtain rs cache where r: "run_lookups sample_env ?calls [] = (rs, cache)" by (cases "run_lookups sample_env ?calls []")
  have w: "whois_configured sample_env" by code_simp
  have "fst (run_lookups sample_env ?calls []) ! 1 = Inr None"
    unfolding run_lookups_cached [OF w]
    by (simp add: cached_call_def whois_get_def whois_put_def whois_call_def whois_fetched_def
        whois_ttl_def sample_clock_def)
  then have n: "rs ! 1 = Inr None" unfolding r fst_conv .
  from whois_answers_fresh [OF w r, of 1 "''10.0.0.7''" "sample_clock\<lparr>ck_check := 300\<rparr>" "WhoisReply 500 (Inl EOF)" None] n r
  show ?thesis by auto
qed

end
