(* ===== verification/Recording.thy ===== *)
theory Recording
  imports UrlMatcher Identity
begin

text \<open>
  Recording a request: \<open>business/sqs.go\<close>, and \<open>uploadFilesToS3\<close> and \<open>processRecordAction\<close> of
  \<open>business/handler.go\<close>.

  A recording runs in the background after the request was answered. What it does is a value: the objects
  stored in S3 and the messages put on the queue. JSON, the multipart reader, hashes, random names, the
  clock, S3 and the queue are parameters.
\<close>

section \<open>Messages\<close>

record recorded_file =
  rf_s3_key :: string
  rf_file_name :: string
  rf_content_type :: string
  rf_size :: nat
  rf_sha256 :: string

record recording_request =
  rr_body :: bytes
  rr_headers :: "(string \<times> string) list"
  rr_url :: string
  rr_method :: string
  rr_user_id :: string
  rr_username :: string
  rr_user_attributes :: "(string \<times> string) list"
  rr_tenant_id :: string
  rr_region_code :: string
  rr_session_id :: string
  rr_source_ip :: string
  rr_tool_id :: string
  rr_is_tool_sanctioned :: "bool option"
  rr_endpoint_id :: string
  rr_content_paths :: bytes
  rr_timestamp :: string
  rr_is_wildcard :: bool
  rr_file :: "recorded_file option"
  rr_files :: "recorded_file list"

text \<open>The single file fields mirror the first attachment; \<open>None\<close> are their zero values.\<close>

record sqs_message =
  sm_body :: bytes
  sm_attributes :: "(string \<times> string) list"

text \<open>A part of a multipart form as the reader gives it: its file name, the content type of its header and
  what reading it gives.\<close>

record upload_part =
  up_file_name :: string
  up_content_type :: string
  up_content :: "go_error + bytes"

record recording_lib =
  rl_marshal :: "recording_request \<Rightarrow> go_error + bytes"
  rl_send :: "sqs_message \<Rightarrow> go_error option"
  rl_now :: string
  rl_parse_media_type :: "string \<Rightarrow> go_error + string \<times> (string \<times> string) list"
  rl_parts :: "bytes \<Rightarrow> string \<Rightarrow> upload_part list"
  rl_random_hex :: "nat \<Rightarrow> string"
  rl_sha256_hex :: "bytes \<Rightarrow> string"
  rl_put_object :: "string \<Rightarrow> bytes \<Rightarrow> string \<Rightarrow> go_error option"
  rl_session_cookie :: "header \<Rightarrow> string option"
  rl_region_code :: string
  rl_record_id :: string
  rl_url_string :: "url \<Rightarrow> string"
  rl_has_s3 :: bool
  rl_has_sqs :: bool

section \<open>The queue\<close>

definition url_attribute :: "string \<Rightarrow> string" where
  "url_attribute u = (if 256 < length u then take 253 u @ ''...'' else u)"

definition message_attributes :: "recording_request \<Rightarrow> (string \<times> string) list" where
  "message_attributes req =
     [(''timestamp'', rr_timestamp req)] @
     (if rr_tenant_id req \<noteq> [] then [(''tenant_id'', rr_tenant_id req)] else []) @
     [(''url'', url_attribute (rr_url req))]"

text \<open>\<open>EnqueueRecordingRequest\<close>: the error, and the messages put on the queue.\<close>

definition enqueue_recording_request :: "recording_lib \<Rightarrow> recording_request \<Rightarrow> go_error option \<times> sqs_message list" where
  "enqueue_recording_request lib req =
     (case rl_marshal lib req of
        Inl err \<Rightarrow> (Some (ErrText (''failed to marshal message: '' @ err_text err)), [])
      | Inr bd \<Rightarrow>
          (let size_kb = length bd div 1024 in
           if 1024 < size_kb
           then (Some (ErrText (''message too large ('' @ itoa size_kb @ ''KB) for queue (1024KB limit)'')), [])
           else (let msg = \<lparr>sm_body = bd, sm_attributes = message_attributes req\<rparr>
                 in case rl_send lib msg of
                      Some err \<Rightarrow> (Some (ErrText (''SQS enqueue failed: '' @ err_text err)), [])
                    | None \<Rightarrow> (None, [msg]))))"

section \<open>Uploads\<close>

text \<open>\<open>filepath.Ext\<close>: from the last dot of the last path element.\<close>

definition path_ext :: "string \<Rightarrow> string" where
  "path_ext s =
     (case dropWhile (\<lambda>c. c \<noteq> CHR ''.'' \<and> c \<noteq> CHR ''/'') (rev s) of
        [] \<Rightarrow> []
      | c # r \<Rightarrow>
          (if c = CHR ''.'' then ''.'' @ rev (takeWhile (\<lambda>c. c \<noteq> CHR ''.'' \<and> c \<noteq> CHR ''/'') (rev s)) else []))"

type_synonym stored_object = "string \<times> bytes \<times> string"

definition object_key :: "recording_lib \<Rightarrow> string \<Rightarrow> string \<Rightarrow> nat \<Rightarrow> string \<Rightarrow> string" where
  "object_key lib tenant_id record_id i file_name =
     ''file-uploads/'' @ tenant_id @ ''/'' @ record_id @ ''/'' @ rl_random_hex lib i @ to_lower (path_ext file_name)"

text \<open>The loop over the parts; \<open>i\<close> counts the random names drawn.\<close>

fun upload_parts :: "recording_lib \<Rightarrow> string \<Rightarrow> string \<Rightarrow> nat \<Rightarrow> upload_part list \<Rightarrow>
    recorded_file list \<times> stored_object list" where
  "upload_parts lib tenant_id record_id i [] = ([], [])"
| "upload_parts lib tenant_id record_id i (p # ps) =
     (case up_content p of
        Inl err \<Rightarrow> upload_parts lib tenant_id record_id i ps
      | Inr content \<Rightarrow>
          (if content = [] \<or> up_file_name p = [] then upload_parts lib tenant_id record_id i ps
           else
             (let ctype = (if up_content_type p = [] then ''application/octet-stream'' else up_content_type p);
                  key = object_key lib tenant_id record_id i (up_file_name p)
              in case upload_parts lib tenant_id record_id (i + 1) ps of
                   (files, objects) \<Rightarrow>
                     (case rl_put_object lib key content ctype of
                        Some err \<Rightarrow> (files, objects)
                      | None \<Rightarrow>
                          (\<lparr>rf_s3_key = key, rf_file_name = up_file_name p, rf_content_type = ctype,
                            rf_size = length content, rf_sha256 = rl_sha256_hex lib content\<rparr> # files,
                           (key, content, ctype) # objects)))))"

definition upload_files_to_s3 :: "recording_lib \<Rightarrow> string \<Rightarrow> string \<Rightarrow> bytes \<Rightarrow> string \<Rightarrow>
    recorded_file list \<times> stored_object list" where
  "upload_files_to_s3 lib tenant_id record_id bd content_type =
     (if \<not> rl_has_s3 lib then ([], [])
      else case rl_parse_media_type lib content_type of
        Inl err \<Rightarrow> ([], [])
      | Inr (media_type, params) \<Rightarrow>
          (if \<not> has_prefix media_type ''multipart/'' then ([], [])
           else case map_of params ''boundary'' of
             None \<Rightarrow> ([], [])
           | Some boundary \<Rightarrow>
               (if boundary = [] then ([], [])
                else upload_parts lib tenant_id record_id 0 (rl_parts lib bd boundary))))"

section \<open>The recording\<close>

record record_task =
  rt_body :: bytes
  rt_identity :: identity_info
  rt_attributes :: "(string \<times> string) list"
  rt_config :: url_config

text \<open>The message before attachments are looked for.\<close>

definition plain_recording :: "recording_lib \<Rightarrow> http_request option \<Rightarrow> record_task \<Rightarrow> recording_request" where
  "plain_recording lib req t =
     \<lparr>rr_body = rt_body t,
      rr_headers = (case req of None \<Rightarrow> []
        | Some r \<Rightarrow> List.map_filter (\<lambda>(k, vs). case vs of [] \<Rightarrow> None | v # _ \<Rightarrow> Some (k, v)) (rq_header r)),
      rr_url = (case req of None \<Rightarrow> ''unknown'' | Some r \<Rightarrow> rl_url_string lib (rq_url r)),
      rr_method = (case req of None \<Rightarrow> ''UNKNOWN'' | Some r \<Rightarrow> rq_method r),
      rr_user_id = ii_user_id (rt_identity t), rr_username = ii_username (rt_identity t),
      rr_user_attributes = rt_attributes t, rr_tenant_id = ii_tenant_id (rt_identity t),
      rr_region_code = trim_space (rl_region_code lib),
      rr_session_id = (case req of None \<Rightarrow> ''default-session''
        | Some r \<Rightarrow> (case rl_session_cookie lib (rq_header r) of None \<Rightarrow> ''default-session'' | Some v \<Rightarrow> v)),
      rr_source_ip = ii_source_ip (rt_identity t), rr_tool_id = uc_tool_id (rt_config t),
      rr_is_tool_sanctioned = uc_is_tool_sanctioned (rt_config t), rr_endpoint_id = uc_id (rt_config t),
      rr_content_paths = uc_content_paths (rt_config t), rr_timestamp = rl_now lib,
      rr_is_wildcard = uc_is_wildcard (rt_config t), rr_file = None, rr_files = []\<rparr>"

text \<open>\<open>processRecordAction\<close>: the objects stored and the messages sent. The request is read when the
  background task runs.\<close>

definition process_record_action :: "recording_lib \<Rightarrow> http_request option \<Rightarrow> record_task \<Rightarrow>
    stored_object list \<times> sqs_message list" where
  "process_record_action lib req t =
     (if \<not> rl_has_sqs lib then ([], [])
      else
        (let plain = plain_recording lib req t in
         if uc_is_wildcard (rt_config t)
         then ([], snd (enqueue_recording_request lib (plain\<lparr>rr_body := []\<rparr>)))
         else
           (case upload_files_to_s3 lib (ii_tenant_id (rt_identity t)) (rl_record_id lib) (rt_body t)
                   (case req of None \<Rightarrow> [] | Some r \<Rightarrow> hget (rq_header r) ''Content-Type'') of
              (files, objects) \<Rightarrow>
                (objects, snd (enqueue_recording_request lib
                   (case files of
                      [] \<Rightarrow> plain
                    | first # _ \<Rightarrow> plain\<lparr>rr_files := files, rr_file := Some first, rr_body := []\<rparr>))))))"

section \<open>Facts about uploads\<close>

lemma path_ext_no_slash: "CHR ''/'' \<notin> set (path_ext s)"
  by (auto simp: path_ext_def split: list.splits dest: set_takeWhileD)

lemma to_lower_slash: "CHR ''/'' \<notin> set s \<Longrightarrow> CHR ''/'' \<notin> set (to_lower s)"
proof
  assume s: "CHR ''/'' \<notin> set s" and "CHR ''/'' \<in> set (to_lower s)"
  then obtain c where c: "c \<in> set s" "lower_char c = CHR ''/''" by (auto simp: to_lower_def)
  show False
  proof (cases "is_upper c")
    case True
    then have "(of_char c :: nat) + 32 \<le> 122" "97 \<le> (of_char c :: nat) + 32" by (auto simp: is_upper_def)
    with c(2) True have "(of_char (CHR ''/'') :: nat) = of_char c + 32"
      by (auto simp: lower_char_def of_char_of dest!: arg_cong [of _ _ "of_char :: char \<Rightarrow> nat"])
    with \<open>97 \<le> (of_char c :: nat) + 32\<close> show False by simp
  next
    case False
    with c s show False by (simp add: lower_char_def)
  qed
qed

text \<open>An object that a part of the form accounts for.\<close>

definition stored_from :: "recording_lib \<Rightarrow> string \<Rightarrow> string \<Rightarrow> upload_part list \<Rightarrow> stored_object \<Rightarrow> bool" where
  "stored_from lib tenant_id record_id ps obj \<longleftrightarrow>
     (case obj of (key, content, ctype) \<Rightarrow> rl_put_object lib key content ctype = None \<and>
        (\<exists>j p. p \<in> set ps \<and> up_content p = Inr content \<and> key = object_key lib tenant_id record_id j (up_file_name p)))"

lemma stored_from_mono:
  "stored_from lib t r ps obj \<Longrightarrow> set ps \<subseteq> set qs \<Longrightarrow> stored_from lib t r qs obj"
  unfolding stored_from_def by (auto split: prod.splits)

lemma stored_from_here:
  "up_content p = Inr content \<Longrightarrow> rl_put_object lib (object_key lib t r j (up_file_name p)) content ctype = None \<Longrightarrow>
   stored_from lib t r (p # ps) (object_key lib t r j (up_file_name p), content, ctype)"
  unfolding stored_from_def by auto

lemma upload_parts_stored:
  assumes "upload_parts lib tenant_id record_id i ps = (files, objects)"
  shows "map rf_s3_key files = map fst objects \<and> (\<forall>obj \<in> set objects. stored_from lib tenant_id record_id ps obj)"
  using assms
proof (induction ps arbitrary: i files objects)
  case Nil
  then show ?case by simp
next
  case (Cons p ps)
  have m: "stored_from lib tenant_id record_id ps obj \<Longrightarrow> stored_from lib tenant_id record_id (p # ps) obj" for obj
    by (erule stored_from_mono) auto
  show ?case
  proof (cases "up_content p")
    case (Inl err)
    with Cons m show ?thesis by fastforce
  next
    case (Inr content)
    show ?thesis
    proof (cases "content = [] \<or> up_file_name p = []")
      case True
      with Inr Cons m show ?thesis by fastforce
    next
      case False
      obtain fs os where r: "upload_parts lib tenant_id record_id (i + 1) ps = (fs, os)"
        by (cases "upload_parts lib tenant_id record_id (i + 1) ps")
      from Cons.IH [OF r] Cons.prems False r m stored_from_here [OF Inr] show ?thesis
        by (auto simp: Let_def Inr split: option.splits if_splits)
    qed
  qed
qed

section \<open>Properties\<close>

text \<open>A message is put on the queue up to 1023 bytes beyond the limit of 1024 KB the code names: the size
  is rounded down to kilobytes before it is compared. The URL attribute never exceeds 256 bytes.\<close>

theorem enqueue_size_limit:
  assumes "rl_marshal lib req = Inr bd" and "\<forall>msg. rl_send lib msg = None"
  shows "(snd (enqueue_recording_request lib req) \<noteq> [] \<longleftrightarrow> length bd \<le> 1024 * 1024 + 1023) \<and>
    (\<forall>msg \<in> set (snd (enqueue_recording_request lib req)).
       \<forall>(k, v) \<in> set (sm_attributes msg). k = ''url'' \<longrightarrow> length v \<le> 256)"
proof -
  have "1024 < length bd div 1024 \<longleftrightarrow> \<not> length bd \<le> 1024 * 1024 + 1023"
    using less_eq_div_iff_mult_less_eq [of 1024 1025 "length bd"] by auto
  with assms show ?thesis
    by (auto simp: enqueue_recording_request_def Let_def message_attributes_def url_attribute_def split: if_splits)
qed

definition sample_recording_lib :: recording_lib where
  "sample_recording_lib = \<lparr>rl_marshal = \<lambda>req. Inr (rr_body req), rl_send = \<lambda>msg. None, rl_now = ''now'',
     rl_parse_media_type = \<lambda>c. Inr (''multipart/form-data'', [(''boundary'', ''x'')]),
     rl_parts = \<lambda>bd b. [\<lparr>up_file_name = ''../a.TXT'', up_content_type = [], up_content = Inr bd\<rparr>],
     rl_random_hex = \<lambda>i. ''c0ffee'', rl_sha256_hex = \<lambda>bs. ''00'', rl_put_object = \<lambda>k bs c. None,
     rl_session_cookie = \<lambda>h. None, rl_region_code = ''eu'', rl_record_id = ''7'', rl_url_string = u_path,
     rl_has_s3 = True, rl_has_sqs = True\<rparr>"

definition sample_config_of :: "bool \<Rightarrow> url_config" where
  "sample_config_of wild = \<lparr>uc_name = ''ai'', uc_action = ''record'', uc_flow = ''both'', uc_paths = [],
     uc_id = ''1'', uc_tool_id = ''2'', uc_is_tool_sanctioned = None, uc_content_paths = [], uc_is_wildcard = wild\<rparr>"

definition sample_task :: "bool \<Rightarrow> bytes \<Rightarrow> record_task" where
  "sample_task wild bd = \<lparr>rt_body = bd, rt_identity = \<lparr>ii_tenant_id = ''acme'', ii_user_id = ''ann'',
     ii_username = ''ann'', ii_source_ip = []\<rparr>, rt_attributes = [], rt_config = sample_config_of wild\<rparr>"

lemma enqueue_size_limit_witness:
  "\<exists>bd. length bd = 1049000 \<and> snd (enqueue_recording_request (sample_recording_lib\<lparr>rl_marshal := \<lambda>req. Inr bd\<rparr>)
     (plain_recording sample_recording_lib None (sample_task False []))) \<noteq> [] \<and> (1024 * 1024 :: nat) < 1049000"
proof -
  obtain bd :: bytes where bd: "length bd = 1049000" using Ex_list_of_length by blast
  let ?l = "sample_recording_lib\<lparr>rl_marshal := \<lambda>req. Inr bd\<rparr>"
  have "rl_marshal ?l r = Inr bd" "\<forall>msg. rl_send ?l msg = None" for r
    by (simp_all add: sample_recording_lib_def)
  from enqueue_size_limit [OF this] bd show ?thesis by auto
qed

text \<open>For a discovery endpoint nothing of the body leaves: no object is stored, and what is sent is the
  same whatever the body of the request was.\<close>

theorem wildcard_metadata_only:
  assumes "uc_is_wildcard (rt_config t)"
  shows "fst (process_record_action lib req t) = [] \<and>
    process_record_action lib req (t\<lparr>rt_body := bd\<rparr>) = process_record_action lib req t"
  using assms by (cases t) (simp add: process_record_action_def plain_recording_def Let_def)

lemma wildcard_metadata_only_witness:
  "process_record_action sample_recording_lib None ((sample_task True ''secret'')\<lparr>rt_body := []\<rparr>) =
     process_record_action sample_recording_lib None (sample_task True ''secret'')"
  using wildcard_metadata_only [of "sample_task True ''secret''" sample_recording_lib None "[]"]
  by (simp add: sample_task_def sample_config_of_def)

text \<open>C39: What a recording stores and what it hands to the queue belong together: every object is under the folder
  of the tenant and the record, its name holding no slash whatever the client called the file, and the message lists
  exactly the stored objects. For an ordinary endpoint the message carries the body if and only if nothing was stored;
  for a wildcard endpoint nothing is stored and the message carries no body either. Without a queue nothing is done. An
  attachment that could not be stored is in neither.\<close>

theorem recording_stored_or_sent:
  assumes "\<forall>i. CHR ''/'' \<notin> set (rl_random_hex lib i)" and "process_record_action lib req t = (objects, msgs)"
  shows "(\<forall>(key, content, ctype) \<in> set objects. \<exists>name. CHR ''/'' \<notin> set name \<and>
       key = ''file-uploads/'' @ ii_tenant_id (rt_identity t) @ ''/'' @ rl_record_id lib @ ''/'' @ name) \<and>
    (uc_is_wildcard (rt_config t) \<or> \<not> rl_has_sqs lib \<longrightarrow> objects = []) \<and>
    (if rl_has_sqs lib
     then \<exists>rq. msgs = snd (enqueue_recording_request lib rq) \<and> map rf_s3_key (rr_files rq) = map fst objects \<and>
       rr_body rq = (if objects = [] \<and> \<not> uc_is_wildcard (rt_config t) then rt_body t else [])
     else msgs = [])"
proof (cases "rl_has_sqs lib \<and> \<not> uc_is_wildcard (rt_config t)")
  case False
  with assms(2) show ?thesis
    by (auto simp: process_record_action_def Let_def plain_recording_def split: if_splits
        intro!: exI [of _ "(plain_recording lib req t)\<lparr>rr_body := []\<rparr>"])
next
  case True
  then have sqs: "rl_has_sqs lib" "\<not> uc_is_wildcard (rt_config t)" by simp_all
  let ?t = "ii_tenant_id (rt_identity t)" and ?r = "rl_record_id lib"
  obtain files where u: "upload_files_to_s3 lib ?t ?r (rt_body t)
      (case req of None \<Rightarrow> [] | Some r \<Rightarrow> hget (rq_header r) ''Content-Type'') = (files, objects)"
    and m: "msgs = snd (enqueue_recording_request lib (case files of [] \<Rightarrow> plain_recording lib req t
      | first # _ \<Rightarrow> (plain_recording lib req t)\<lparr>rr_files := files, rr_file := Some first, rr_body := []\<rparr>))"
    using assms(2) sqs by (auto simp: process_record_action_def Let_def split: prod.splits)
  have s: "map rf_s3_key files = map fst objects \<and>
      (\<forall>obj \<in> set objects. \<exists>ps. stored_from lib ?t ?r ps obj)"
    using u by (auto simp: upload_files_to_s3_def dest!: upload_parts_stored split: if_splits sum.splits option.splits) blast+
  have "\<exists>name. CHR ''/'' \<notin> set name \<and> key = ''file-uploads/'' @ ?t @ ''/'' @ ?r @ ''/'' @ name"
    if obj: "(key, content, ctype) \<in> set objects" for key content ctype
  proof -
    from s obj obtain ps where "stored_from lib ?t ?r ps (key, content, ctype)" by blast
    then obtain j and p :: upload_part where "key = object_key lib ?t ?r j (up_file_name p)" by (auto simp: stored_from_def)
    moreover have "CHR ''/'' \<notin> set (rl_random_hex lib j @ to_lower (path_ext (up_file_name p)))"
      using assms(1) to_lower_slash [OF path_ext_no_slash] by simp
    ultimately show ?thesis by (auto simp: object_key_def)
  qed
  moreover have "files = [] \<longleftrightarrow> objects = []" using s by (metis map_is_Nil_conv)
  ultimately show ?thesis
    using s m sqs by (cases files) (auto simp: plain_recording_def)
qed

lemma recording_stored_or_sent_witness:
  "\<exists>objects msgs. process_record_action sample_recording_lib None (sample_task False ''data'') = (objects, msgs) \<and>
     map fst objects = [''file-uploads/acme/7/c0ffee.txt''] \<and>
     (\<exists>rq. msgs = snd (enqueue_recording_request sample_recording_lib rq) \<and> rr_body rq = [])"
proof -
  obtain objects msgs where r: "process_record_action sample_recording_lib None (sample_task False ''data'') = (objects, msgs)"
    by (cases "process_record_action sample_recording_lib None (sample_task False ''data'')")
  have "map fst (fst (process_record_action sample_recording_lib None (sample_task False ''data''))) =
      [''file-uploads/acme/7/c0ffee.txt'']" by code_simp
  then have o1: "map fst objects = [''file-uploads/acme/7/c0ffee.txt'']" unfolding r fst_conv .
  then have o2: "objects \<noteq> []" by auto
  from recording_stored_or_sent [OF _ r] o1 o2 r show ?thesis
    by (simp add: sample_recording_lib_def sample_task_def sample_config_of_def) blast
qed

end
