(* ===== verification/Candidates.thy ===== *)
theory Candidates
  imports GoHttp
begin

text \<open>
  \<open>business/candidate_logger.go\<close>: counting requests to unknown domains and writing the counts to the
  database in batches.

  The state is the map of counts, the snapshot a flush is writing, and the table \<open>candidate_domains\<close>.
  Requests observe domains while one goroutine flushes, so the steps of both are interleaved: a flush
  takes its snapshot in one step and writes each domain in a step of its own, in any order. Times are
  left out.
\<close>

section \<open>Which requests count\<close>

definition candidate_pre_filter :: "string \<Rightarrow> string \<Rightarrow> string \<Rightarrow> string list \<Rightarrow> bool" where
  "candidate_pre_filter meth content_type domain denylist =
     (let m = to_upper (trim_space meth); ct = to_lower content_type; d = to_lower domain in
      if m \<noteq> ''POST'' \<and> m \<noteq> ''PUT'' then False
      else if \<not> contains ct ''application/json'' \<and> \<not> contains ct ''application/'' \<and> \<not> has_suffix ct ''+json'' \<and>
              \<not> contains ct ''text/event-stream'' \<and> \<not> contains ct ''multipart/form-data'' \<and> ct \<noteq> [] \<and>
              (has_prefix ct ''text/html'' \<or> has_prefix ct ''image/'' \<or> has_prefix ct ''application/javascript'' \<or>
               has_prefix ct ''font/'' \<or> has_prefix ct ''text/css'' \<or>
               has_prefix ct ''application/x-www-form-urlencoded'')
           then False
      else if d \<in> set denylist then False
      else \<not> list_ex (\<lambda>suffix. has_prefix suffix ''.'' \<and> has_suffix d suffix) denylist)"

definition default_denylist :: "string list" where
  "default_denylist =
     [''google-analytics.com'', ''doubleclick.net'', ''sentry.io'', ''.cloudfront.net'', ''segment.io'',
      ''segment.com'', ''fonts.gstatic.com'', ''fonts.googleapis.com'', ''googletagmanager.com'',
      ''analytics.google.com'', ''hotjar.com'', ''intercom.io'', ''intercomcdn.com'', ''mixpanel.com'',
      ''amplitude.com'', ''fullstory.com'', ''newrelic.com'', ''datadog-browser-agent.com'', ''datadoghq.com'',
      ''rollbar.com'', ''bugsnag.com'', ''logrocket.com'', ''cdn.jsdelivr.net'', ''unpkg.com'',
      ''cdnjs.cloudflare.com'', ''ajax.googleapis.com'', ''static.cloudflareinsights.com'']"

text \<open>\<open>buildDenylist\<close>, with the value of \<open>CANDIDATE_DENYLIST\<close>; the list stands for the set of its members.\<close>

definition build_denylist :: "string \<Rightarrow> string list" where
  "build_denylist extra =
     map to_lower default_denylist @
     (if extra = [] then []
      else filter (\<lambda>d. d \<noteq> []) (map (\<lambda>d. to_lower (trim_space d)) (split extra '','')))"

section \<open>Counting and flushing\<close>

type_synonym counts = "(string \<times> nat) list"

record candidate_state =
  cl_counts :: counts
  cl_snapshot :: counts
  cl_table :: counts

definition count_of :: "counts \<Rightarrow> string \<Rightarrow> nat" where
  "count_of c d = (case map_of c d of None \<Rightarrow> 0 | Some n \<Rightarrow> n)"

definition count_add :: "counts \<Rightarrow> string \<Rightarrow> nat \<Rightarrow> counts" where
  "count_add c d n = AList.update d (count_of c d + n) c"

text \<open>\<open>Observe\<close>.\<close>

definition observe :: "string list \<Rightarrow> string \<Rightarrow> string \<Rightarrow> string \<Rightarrow> candidate_state \<Rightarrow> candidate_state" where
  "observe denylist domain meth content_type st =
     (if candidate_pre_filter meth content_type domain denylist
      then st\<lparr>cl_counts := count_add (cl_counts st) domain 1\<rparr> else st)"

text \<open>The two parts of \<open>flush\<close>: the counts become the snapshot, and one domain of it is written, adding to
  its row, or the write fails and is logged.\<close>

definition flush_begin :: "candidate_state \<Rightarrow> candidate_state" where
  "flush_begin st =
     (if cl_counts st = [] then st else st\<lparr>cl_snapshot := cl_counts st, cl_counts := []\<rparr>)"

definition flush_write :: "bool \<Rightarrow> string \<Rightarrow> candidate_state \<Rightarrow> candidate_state" where
  "flush_write ok d st =
     st\<lparr>cl_table := (if ok then count_add (cl_table st) d (count_of (cl_snapshot st) d) else cl_table st),
        cl_snapshot := AList.delete d (cl_snapshot st)\<rparr>"

text \<open>A whole \<open>flush\<close> without interleaving; \<open>oks d\<close> says whether the write of \<open>d\<close> succeeds.\<close>

definition flush :: "(string \<Rightarrow> bool) \<Rightarrow> candidate_state \<Rightarrow> candidate_state" where
  "flush oks st =
     (let st1 = flush_begin st
      in foldl (\<lambda>st d. flush_write (oks d) d st) st1 (map fst (cl_snapshot st1)))"

section \<open>Interleaved runs\<close>

datatype candidate_event =
    Observed string string string
  | FlushBegun
  | Written bool string

inductive candidate_step :: "string list \<Rightarrow> candidate_event \<Rightarrow> candidate_state \<Rightarrow> candidate_state \<Rightarrow> bool"
  for denylist :: "string list" where
  step_observe: "candidate_step denylist (Observed domain meth ct) st (observe denylist domain meth ct st)"
| step_begin: "cl_snapshot st = [] \<Longrightarrow> candidate_step denylist FlushBegun st (flush_begin st)"
| step_write: "d \<in> fst ` set (cl_snapshot st) \<Longrightarrow> candidate_step denylist (Written ok d) st (flush_write ok d st)"

inductive_cases candidate_stepE: "candidate_step denylist ev st st'"

inductive candidate_run :: "string list \<Rightarrow> candidate_event list \<Rightarrow> candidate_state \<Rightarrow> candidate_state \<Rightarrow> bool"
  for denylist :: "string list" where
  run_none: "candidate_run denylist [] st st"
| run_step: "candidate_run denylist evs st st1 \<Longrightarrow> candidate_step denylist ev st1 st2 \<Longrightarrow>
    candidate_run denylist (evs @ [ev]) st st2"

definition no_candidates_yet :: candidate_state where
  "no_candidates_yet = \<lparr>cl_counts = [], cl_snapshot = [], cl_table = []\<rparr>"

text \<open>How often a domain was observed and accepted.\<close>

definition observed :: "string list \<Rightarrow> candidate_event list \<Rightarrow> string \<Rightarrow> nat" where
  "observed denylist evs d =
     length (filter (\<lambda>ev. case ev of Observed domain meth ct \<Rightarrow>
        domain = d \<and> candidate_pre_filter meth ct domain denylist | _ \<Rightarrow> False) evs)"

definition write_failed :: "string \<Rightarrow> candidate_event \<Rightarrow> bool" where
  "write_failed d ev \<longleftrightarrow> ev = Written False d"

text \<open>All that is known of a domain: counted, on its way, and written.\<close>

definition total :: "candidate_state \<Rightarrow> string \<Rightarrow> nat" where
  "total st d = count_of (cl_counts st) d + count_of (cl_snapshot st) d + count_of (cl_table st) d"

lemma count_of_Nil [simp]: "count_of [] d = 0"
  by (simp add: count_of_def)

lemma count_of_add: "count_of (count_add c d n) e = count_of c e + (if e = d then n else 0)"
  by (simp add: count_of_def count_add_def update_conv')

lemma count_of_delete: "count_of (AList.delete d c) e = (if e = d then 0 else count_of c e)"
  by (simp add: count_of_def delete_conv')

lemma total_observe:
  "total (observe denylist domain meth ct st) d =
     total st d + (if domain = d \<and> candidate_pre_filter meth ct domain denylist then 1 else 0)"
  by (simp add: total_def observe_def count_of_add)

lemma total_begin: "cl_snapshot st = [] \<Longrightarrow> total (flush_begin st) d = total st d"
  by (simp add: total_def flush_begin_def)

lemma total_write:
  "total (flush_write ok e st) d = total st d - (if d = e \<and> \<not> ok then count_of (cl_snapshot st) d else 0)"
  by (simp add: total_def flush_write_def count_of_add count_of_delete)

lemma observed_snoc:
  "observed denylist (evs @ [ev]) d = observed denylist evs d +
     (case ev of Observed domain meth ct \<Rightarrow>
        if domain = d \<and> candidate_pre_filter meth ct domain denylist then 1 else 0 | _ \<Rightarrow> 0)"
  by (cases ev) (auto simp: observed_def)

lemma run_total:
  assumes "candidate_run denylist evs st st'"
  shows "total st' d \<le> total st d + observed denylist evs d \<and>
    (list_all (\<lambda>ev. \<not> write_failed d ev) evs \<longrightarrow> total st' d = total st d + observed denylist evs d)"
  using assms
proof (induction rule: candidate_run.induct)
  case run_none
  then show ?case by (simp add: observed_def)
next
  case (run_step evs st st1 ev st2)
  from run_step.hyps(2) show ?case
    using run_step.IH
    by (cases rule: candidate_stepE)
      (auto simp: observed_snoc total_observe total_begin total_write write_failed_def
        split: if_splits)
qed

section \<open>Properties\<close>

text \<open>C40: However observations and flushes interleave, no request is counted twice, and every accepted one
  is either still counted, on its way or in the table, as long as no write of its domain fails.\<close>

theorem candidate_counts_conserved:
  assumes "candidate_run denylist evs no_candidates_yet st"
  shows "count_of (cl_counts st) d + count_of (cl_snapshot st) d + count_of (cl_table st) d \<le> observed denylist evs d \<and>
    (list_all (\<lambda>ev. \<not> write_failed d ev) evs \<longrightarrow>
       count_of (cl_counts st) d + count_of (cl_snapshot st) d + count_of (cl_table st) d = observed denylist evs d)"
  using run_total [OF assms, of d] by (simp add: total_def no_candidates_yet_def)

lemma candidate_counts_conserved_witness:
  "\<exists>st. candidate_run [] [Observed ''ai.com'' ''POST'' ''application/json'', FlushBegun,
       Observed ''ai.com'' ''POST'' [], Written True ''ai.com''] no_candidates_yet st \<and>
     count_of (cl_table st) ''ai.com'' = 1 \<and> count_of (cl_counts st) ''ai.com'' = 1 \<and>
     count_of (cl_counts st) ''ai.com'' + count_of (cl_snapshot st) ''ai.com'' + count_of (cl_table st) ''ai.com'' \<le> 2"
proof -
  let ?e1 = "Observed ''ai.com'' ''POST'' ''application/json''" and ?e3 = "Observed ''ai.com'' ''POST'' []"
  define s1 where "s1 = observe [] ''ai.com'' ''POST'' ''application/json'' no_candidates_yet"
  define s2 where "s2 = flush_begin s1"
  define s3 where "s3 = observe [] ''ai.com'' ''POST'' [] s2"
  define s4 where "s4 = flush_write True ''ai.com'' s3"
  note defs = s4_def s3_def s2_def s1_def
  have s1: "cl_snapshot s1 = []" and s3: "''ai.com'' \<in> fst ` set (cl_snapshot s3)"
    unfolding defs by code_simp+
  have st: "candidate_step [] ?e1 no_candidates_yet s1" "candidate_step [] FlushBegun s1 s2"
    "candidate_step [] ?e3 s2 s3" "candidate_step [] (Written True ''ai.com'') s3 s4"
    using candidate_step.step_begin [OF s1] candidate_step.step_write [OF s3]
    by (simp_all add: defs candidate_step.step_observe)
  have "candidate_run [] [?e1] no_candidates_yet s1"
    using candidate_run.run_step [OF candidate_run.run_none st(1)] by simp
  from candidate_run.run_step [OF this st(2)] have "candidate_run [] [?e1, FlushBegun] no_candidates_yet s2" by simp
  from candidate_run.run_step [OF this st(3)] have "candidate_run [] [?e1, FlushBegun, ?e3] no_candidates_yet s3" by simp
  from candidate_run.run_step [OF this st(4)]
  have run: "candidate_run [] [?e1, FlushBegun, ?e3, Written True ''ai.com''] no_candidates_yet s4" by simp
  have "observed [] [?e1, FlushBegun, ?e3, Written True ''ai.com''] ''ai.com'' = 2" by code_simp
  moreover have "count_of (cl_table s4) ''ai.com'' = 1 \<and> count_of (cl_counts s4) ''ai.com'' = 1"
    unfolding defs by code_simp
  ultimately show ?thesis using candidate_counts_conserved [OF run, of "''ai.com''"] run by auto
qed

lemma count_of_member: "d \<notin> fst ` set c \<Longrightarrow> count_of c d = 0"
  by (auto simp: count_of_def dest!: map_of_SomeD split: option.splits intro: rev_image_eqI)

lemma keys_delete: "fst ` set (AList.delete k c) = fst ` set c - {k}"
  using arg_cong [OF delete_keys [of k c], of set] by auto

lemma flush_writes:
  assumes "distinct ds" and "set ds = fst ` set (cl_snapshot st)"
  shows "let st' = foldl (\<lambda>st d. flush_write (oks d) d st) st ds
         in cl_snapshot st' = [] \<and> cl_counts st' = cl_counts st \<and>
            (\<forall>d. count_of (cl_table st') d = count_of (cl_table st) d + (if oks d then count_of (cl_snapshot st) d else 0))"
  using assms
proof (induction ds arbitrary: st)
  case Nil
  then show ?case by (simp add: Let_def)
next
  case (Cons e ds)
  let ?st = "flush_write (oks e) e st"
  have "set ds = fst ` set (cl_snapshot ?st)"
    using Cons.prems by (auto simp: flush_write_def keys_delete)
  from Cons.IH [OF _ this] Cons.prems(1) show ?case
    by (auto simp: Let_def) (auto simp: flush_write_def count_of_add count_of_delete)
qed

text \<open>A flush writes every count it finds and leaves none behind: what was counted of a domain is added
  to its row when the write succeeds, and is lost when it fails, for the counts are already gone.\<close>

theorem flush_delivers_once:
  assumes "distinct (map fst (cl_counts st))" and "cl_snapshot st = []"
  shows "cl_counts (flush oks st) = [] \<and> cl_snapshot (flush oks st) = [] \<and>
    count_of (cl_table (flush oks st)) d = count_of (cl_table st) d + (if oks d then count_of (cl_counts st) d else 0)"
proof (cases "cl_counts st = []")
  case True
  with assms(2) show ?thesis by (simp add: flush_def flush_begin_def Let_def)
next
  case False
  then have b: "flush_begin st = st\<lparr>cl_snapshot := cl_counts st, cl_counts := []\<rparr>" by (simp add: flush_begin_def)
  with flush_writes [of "map fst (cl_counts st)" "flush_begin st" oks] assms(1) show ?thesis
    by (simp add: flush_def Let_def)
qed

lemma flush_delivers_once_witness:
  "count_of (cl_table (flush (\<lambda>d. d \<noteq> ''b'') \<lparr>cl_counts = [(''a'', 2), (''b'', 1)], cl_snapshot = [], cl_table = [(''a'', 5)]\<rparr>)) ''a'' = 7 \<and>
   count_of (cl_table (flush (\<lambda>d. d \<noteq> ''b'') \<lparr>cl_counts = [(''a'', 2), (''b'', 1)], cl_snapshot = [], cl_table = [(''a'', 5)]\<rparr>)) ''b'' = 0"
  using flush_delivers_once [of "\<lparr>cl_counts = [(''a'', 2), (''b'', 1)], cl_snapshot = [], cl_table = [(''a'', 5)]\<rparr>" "\<lambda>d. d \<noteq> ''b''"]
  by (simp add: count_of_def)

text \<open>The two \<open>application/\<close> types of the drop list are never dropped: every such type is kept before
  the list is looked at, so that form posts and scripts to an unknown domain are counted.\<close>

theorem application_types_kept:
  assumes "to_upper (trim_space meth) \<in> {''POST'', ''PUT''}" and "has_prefix (to_lower ct) ''application/''"
    and "to_lower domain \<notin> set denylist"
    and "\<forall>s \<in> set denylist. has_prefix s ''.'' \<longrightarrow> \<not> has_suffix (to_lower domain) s"
  shows "candidate_pre_filter meth ct domain denylist"
proof -
  have "contains (to_lower ct) ''application/''"
    using assms(2) by (metis append_Nil contains_iff has_prefix_iff)
  with assms(1,3,4) show ?thesis by (auto simp: candidate_pre_filter_def Let_def list_ex_iff)
qed

lemma application_types_kept_witness:
  "candidate_pre_filter '' post '' ''application/x-www-form-urlencoded'' ''forms.example'' (build_denylist ''a.b, .c'')"
proof (rule application_types_kept)
  have "list_all (\<lambda>s. has_prefix s ''.'' \<longrightarrow> \<not> has_suffix (to_lower ''forms.example'') s) (build_denylist ''a.b, .c'') \<and>
      to_lower ''forms.example'' \<notin> set (build_denylist ''a.b, .c'')" by code_simp
  then show "\<forall>s \<in> set (build_denylist ''a.b, .c''). has_prefix s ''.'' \<longrightarrow> \<not> has_suffix (to_lower ''forms.example'') s"
    "to_lower ''forms.example'' \<notin> set (build_denylist ''a.b, .c'')" by (simp_all add: list_all_iff)
qed code_simp+

end
