(* ===== verification/Business.thy ===== *)
theory Business
  imports Recording Candidates ServiceUtils
begin

text \<open>
  \<open>business/handler.go\<close> and \<open>business/init.go\<close>: how the business logic is set up, and what it does with a
  request: identity, directory attributes, tenant, endpoint, and the decision to record.

  The state is what a request leaves behind: the two caches, the candidate counts, the HTTP request (its
  identity headers are removed and its body is replaced by a copy), the connection its body is read from,
  the recordings started and the users whose activity is updated.
\<close>

section \<open>Setting up\<close>

record business_config =
  bc_database_url :: string
  bc_sqs_queue_url :: string
  bc_sqs_region :: string
  bc_access_key_id :: string
  bc_secret_access_key :: string
  bc_s3_bucket :: string
  bc_ldap_host :: string
  bc_ldap_port :: string
  bc_ldap_base_dn :: string
  bc_ldap_bind_dn :: string
  bc_ldap_bind_password :: string

record business_handler =
  bh_endpoints :: endpoint_cache
  bh_denylist :: "string list"
  bh_has_sqs :: bool
  bh_has_s3 :: bool
  bh_enricher :: "ldap_settings option"

text \<open>What the outside answers while setting up: opening and probing the database, the rows of the first
  refresh, AWS sessions (by region and keys), and \<open>CANDIDATE_DENYLIST\<close>.\<close>

record setup_env =
  se_open_db :: "string \<Rightarrow> go_error option"
  se_ping_db :: "go_error option"
  se_rows :: "go_error + endpoint_row option list"
  se_session :: "string \<Rightarrow> string \<Rightarrow> string \<Rightarrow> go_error option"
  se_denylist :: string

definition init_database :: "setup_env \<Rightarrow> string \<Rightarrow> go_error option" where
  "init_database env database_url =
     (if database_url = [] then Some (ErrText ''database URL not configured'')
      else case se_open_db env database_url of
        Some err \<Rightarrow> Some (ErrText (''failed to open database connection: '' @ err_text err))
      | None \<Rightarrow>
          (case se_ping_db env of
             Some err \<Rightarrow> Some (ErrText (''failed to ping database: '' @ err_text err))
           | None \<Rightarrow> None))"

text \<open>\<open>NewSQSClient\<close>: the queue and its region; the client of the library is what sends.\<close>

record sqs_client =
  sq_queue_url :: string
  sq_region :: string

definition new_sqs_client :: "setup_env \<Rightarrow> string \<Rightarrow> string \<Rightarrow> string \<Rightarrow> string \<Rightarrow> go_error + sqs_client" where
  "new_sqs_client env queue_url region access_key_id secret_access_key =
     (if queue_url = [] then Inl (ErrText ''SQS queue URL not configured'')
      else case se_session env region access_key_id secret_access_key of
        Some err \<Rightarrow> Inl (ErrText (''failed to create AWS session: '' @ err_text err))
      | None \<Rightarrow> Inr \<lparr>sq_queue_url = queue_url, sq_region = region\<rparr>)"

definition new_url_matcher :: "go_error + endpoint_row option list \<Rightarrow> endpoint_cache" where
  "new_url_matcher rows = refresh_endpoints_cache (Some rows) []"

text \<open>The two AWS clients may be missing; the handler is made all the same.\<close>

definition new_business_logic_handler :: "setup_env \<Rightarrow> business_config \<Rightarrow> ldap_settings option \<Rightarrow> business_handler" where
  "new_business_logic_handler env cfg enricher =
     \<lparr>bh_endpoints = new_url_matcher (se_rows env),
      bh_denylist = build_denylist (se_denylist env),
      bh_has_sqs =
        (if bc_sqs_queue_url cfg \<noteq> []
         then (case new_sqs_client env (bc_sqs_queue_url cfg) (bc_sqs_region cfg) (bc_access_key_id cfg)
                      (bc_secret_access_key cfg) of
                 Inl err \<Rightarrow> False
               | Inr client \<Rightarrow> True)
         else False),
      bh_has_s3 = (bc_s3_bucket cfg \<noteq> [] \<and> bc_sqs_region cfg \<noteq> [] \<and>
        se_session env (bc_sqs_region cfg) (bc_access_key_id cfg) (bc_secret_access_key cfg) = None),
      bh_enricher = enricher\<rparr>"

definition build_enricher :: "business_config \<Rightarrow> ldap_settings option" where
  "build_enricher cfg =
     (if bc_ldap_host cfg \<noteq> [] \<and> bc_ldap_bind_dn cfg \<noteq> [] \<and> bc_ldap_bind_password cfg \<noteq> []
      then Some (fst (new_ldap_enricher (bc_ldap_host cfg) (if bc_ldap_port cfg = [] then ''389'' else bc_ldap_port cfg)
                        (bc_ldap_base_dn cfg) (bc_ldap_bind_dn cfg) (bc_ldap_bind_password cfg)))
      else None)"

text \<open>\<open>InitWithLDAP\<close>: the package state is whether it ran and the handler; only the first call does anything.\<close>

definition init_with_ldap :: "setup_env \<Rightarrow> business_config \<Rightarrow> bool \<times> business_handler option \<Rightarrow>
    go_error option \<times> bool \<times> business_handler option" where
  "init_with_ldap env cfg st =
     (case st of (started, handler) \<Rightarrow>
        if started then (None, True, handler)
        else if bc_database_url cfg = [] then (None, True, handler)
        else case init_database env (bc_database_url cfg) of
               Some err \<Rightarrow> (Some err, True, handler)
             | None \<Rightarrow> (None, True, Some (new_business_logic_handler env cfg (build_enricher cfg))))"

text \<open>\<open>RefreshEndpointCache\<close>, as the ticker calls it every five minutes.\<close>

definition refresh_endpoint_cache :: "go_error + endpoint_row option list \<Rightarrow> business_handler \<Rightarrow> business_handler" where
  "refresh_endpoint_cache rows h = h\<lparr>bh_endpoints := refresh_endpoints_cache (Some rows) (bh_endpoints h)\<rparr>"

section \<open>Processing a request\<close>

record business_env =
  be_http :: http_lib
  be_ident :: ident_env
  be_clock :: clock
  be_ldap :: ldap_dir
  be_ldap_check :: nat
  be_ldap_store :: nat
  be_tenant_row :: "string \<Rightarrow> db_reply"
  be_user_row :: "string \<Rightarrow> string \<Rightarrow> db_reply"
  be_regexes :: regexes
  be_tool_row :: "string \<Rightarrow> string \<Rightarrow> tool_reply"

record business_state =
  bs_whois :: whois_cache
  bs_ldap :: ldap_cache
  bs_candidates :: candidate_state
  bs_request :: "http_request option"
  bs_conn :: conn_io
  bs_spawned :: "record_task list"
  bs_active_users :: "(string \<times> string) list"

definition request_url :: "http_lib \<Rightarrow> http_request option \<Rightarrow> string" where
  "request_url lib req =
     (case req of
        None \<Rightarrow> []
      | Some r \<Rightarrow>
          (let s = lib_url_string lib (rq_url r);
               u = (if s = [] then rq_uri r else s)
           in if has_prefix u ''http'' then u
              else (if rq_tls r then ''https'' else ''http'') @ ''://'' @
                   (if rq_host r = [] then hget (rq_header r) ''Host'' else rq_host r) @ u))"

definition enrich_identity :: "business_handler \<Rightarrow> business_env \<Rightarrow> identity_info \<Rightarrow> ldap_cache \<Rightarrow>
    (string \<times> string) list \<times> ldap_cache" where
  "enrich_identity h env identity cache =
     (case bh_enricher h of
        None \<Rightarrow> ([], cache)
      | Some e \<Rightarrow>
          (if ii_username identity = [] then ([], cache)
           else case enrich (be_ldap env) e (ii_username identity) (be_ldap_check env) (be_ldap_store env) cache of
                  (Inl err, cache1) \<Rightarrow> ([], cache1)
                | (Inr attrs, cache1) \<Rightarrow> (attrs, cache1)))"

text \<open>The domain an unmatched request is counted under.\<close>

definition candidate_host :: "http_lib \<Rightarrow> string \<Rightarrow> string" where
  "candidate_host lib u =
     (case lib_parse_url lib u of Inl err \<Rightarrow> [] | Inr parsed \<Rightarrow> to_lower (u_host parsed))"

text \<open>The body is copied, and the request gets the copy.\<close>

definition snapshot_body :: "http_lib \<Rightarrow> business_state \<Rightarrow> (bytes \<times> business_state) outcome" where
  "snapshot_body lib st =
     (case bs_request st of
        None \<Rightarrow> Done ([], st)
      | Some r \<Rightarrow>
          (if rq_body r = NilBody then Done ([], st)
           else bind_outcome (read_body lib (rq_body r) (bs_conn st)) (\<lambda>(bd, err, left, c).
             Done (bd, st\<lparr>bs_request := Some (r\<lparr>rq_body := BytesBody bd\<rparr>), bs_conn := c\<rparr>))))"

text \<open>What is done with a request an endpoint was found for: the status, whether recording is deferred.\<close>

definition apply_config :: "http_lib \<Rightarrow> bool \<Rightarrow> identity_info \<Rightarrow> (string \<times> string) list \<Rightarrow> url_config \<Rightarrow>
    business_state \<Rightarrow> ((nat \<times> bool \<times> go_error option) \<times> business_state) outcome" where
  "apply_config lib partial identity attrs cfg st =
     (if to_lower (uc_flow cfg) \<notin> {''both'', ''egress''} then Done ((204, False, None), st)
      else if to_lower (uc_action cfg) = ''record''
      then (if partial then Done ((204, True, None), st)
            else bind_outcome (snapshot_body lib st) (\<lambda>(bd, st1).
              Done ((204, False, None), st1\<lparr>bs_spawned := bs_spawned st1 @
                [\<lparr>rt_body = bd, rt_identity = identity, rt_attributes = attrs, rt_config = cfg\<rparr>]\<rparr>)))
      else Done ((204, False, None), st))"

text \<open>The request of a valid tenant: the endpoint it matches decides, and without one it counts as a candidate.\<close>

definition route_request :: "business_handler \<Rightarrow> business_env \<Rightarrow> bool \<Rightarrow> identity_info \<Rightarrow> (string \<times> string) list \<Rightarrow>
    business_state \<Rightarrow> ((nat \<times> bool \<times> go_error option) \<times> business_state) outcome" where
  "route_request h env partial identity attrs st =
     (let u = request_url (be_http env) (bs_request st);
          meth = (case bs_request st of None \<Rightarrow> [] | Some r \<Rightarrow> rq_method r)
      in case match_url (be_http env) (be_regexes env) (tenant_tool_sanctioned (be_tool_row env)) (bh_endpoints h) u (ii_tenant_id identity) meth of
           Inr (Some cfg) \<Rightarrow> apply_config (be_http env) partial identity attrs cfg st
         | _ \<Rightarrow>
             Done ((204, False, None), st\<lparr>bs_candidates := observe (bh_denylist h) (candidate_host (be_http env) u) meth
               (case bs_request st of None \<Rightarrow> [] | Some r \<Rightarrow> hget (rq_header r) ''Content-Type'') (bs_candidates st)\<rparr>))"

text \<open>\<open>ProcessRequest\<close>: the status, whether recording is deferred until the body is complete, and the error.\<close>

definition process_request :: "business_handler \<Rightarrow> business_env \<Rightarrow> header \<Rightarrow> bool \<Rightarrow> business_state \<Rightarrow>
    ((nat \<times> bool \<times> go_error option) \<times> business_state) outcome" where
  "process_request h env icap_headers partial st =
     (case extract_identity (be_ident env) (be_clock env) icap_headers
             (case bs_request st of None \<Rightarrow> [] | Some r \<Rightarrow> rq_header r) (bs_whois st) of
        (res, http_headers, whois) \<Rightarrow>
          (let st1 = st\<lparr>bs_request := map_option (\<lambda>r. r\<lparr>rq_header := http_headers\<rparr>) (bs_request st), bs_whois := whois\<rparr>
           in case res of
             Inl err \<Rightarrow> Done ((400, False, Some (ErrText (''failed to extract identity: '' @ err_text err))), st1)
           | Inr identity \<Rightarrow>
               (case enrich_identity h env identity (bs_ldap st1) of
                  (attrs, ldap) \<Rightarrow>
                    (case validate_tenant_and_user (be_tenant_row env) (be_user_row env) (ii_tenant_id identity) (ii_user_id identity) of
                       (Inl err, _) \<Rightarrow>
                         Done ((400, False, Some (ErrText (''validation failed: '' @ err_text err))), st1\<lparr>bs_ldap := ldap\<rparr>)
                     | (Inr _, active) \<Rightarrow>
                         route_request h env partial identity attrs
                           (st1\<lparr>bs_ldap := ldap, bs_active_users := bs_active_users st1 @
                              (if active then [(ii_tenant_id identity, ii_user_id identity)] else [])\<rparr>)))))"

section \<open>Facts about one request\<close>

text \<open>What of the state a step that does not record leaves alone.\<close>

definition same_recordings :: "business_state \<Rightarrow> business_state \<Rightarrow> bool" where
  "same_recordings st st' \<longleftrightarrow> bs_spawned st' = bs_spawned st \<and> bs_conn st' = bs_conn st"

lemma snapshot_body_spawned:
  "snapshot_body lib st = Done (bd, st') \<Longrightarrow> bs_spawned st' = bs_spawned st \<and> bs_candidates st' = bs_candidates st \<and>
     (case bs_request st of
        None \<Rightarrow> bs_request st' = None
      | Some r \<Rightarrow> if rq_body r = NilBody then bs_request st' = Some r \<and> bd = []
                  else bs_request st' = Some (r\<lparr>rq_body := BytesBody bd\<rparr>))"
  by (auto simp: snapshot_body_def bind_outcome_def split: option.splits if_splits outcome.splits)

lemma apply_config_result:
  assumes "apply_config lib p identity attrs cfg st = Done ((status, defer, err), st')"
  shows "status = 204 \<and> err = None \<and> (defer \<longrightarrow> p) \<and>
    (bs_spawned st' = bs_spawned st \<and> bs_request st' = bs_request st \<and> bs_conn st' = bs_conn st \<or>
     \<not> p \<and> \<not> defer \<and> (\<exists>bd st1. snapshot_body lib st = Done (bd, st1) \<and> bs_request st' = bs_request st1 \<and> bs_conn st' = bs_conn st1 \<and>
       bs_spawned st' = bs_spawned st @ [\<lparr>rt_body = bd, rt_identity = identity, rt_attributes = attrs, rt_config = cfg\<rparr>]))"
proof -
  consider "to_lower (uc_flow cfg) \<notin> {''both'', ''egress''} \<or> to_lower (uc_action cfg) \<noteq> ''record''" | 
    "to_lower (uc_flow cfg) \<in> {''both'', ''egress''}" "to_lower (uc_action cfg) = ''record''" by blast
  then show ?thesis
  proof cases
    case 1
    with assms show ?thesis by (auto simp: apply_config_def split: if_splits)
  next
    case 2
    show ?thesis
    proof (cases p)
      case True
      with assms 2 show ?thesis by (auto simp: apply_config_def split: if_splits)
    next
      case False
      with assms 2 obtain bd st1 where s: "snapshot_body lib st = Done (bd, st1)"
        and r: "((status, defer, err), st') = ((204, False, None), st1\<lparr>bs_spawned := bs_spawned st1 @
          [\<lparr>rt_body = bd, rt_identity = identity, rt_attributes = attrs, rt_config = cfg\<rparr>]\<rparr>)"
        by (cases "snapshot_body lib st") (auto simp: apply_config_def)
      with snapshot_body_spawned [OF s] False show ?thesis by auto
    qed
  qed
qed

lemma route_request_cases:
  assumes "route_request h env p identity attrs st = Done (r, st')"
  obtains cfg where "apply_config (be_http env) p identity attrs cfg st = Done (r, st')"
  | c where "r = (204, False, None)" "st' = st\<lparr>bs_candidates := c\<rparr>"
  using assms that unfolding route_request_def Let_def by (auto split: sum.splits option.splits)

text \<open>The two ways a request ends: refused, or passed on after the endpoint was looked up.\<close>

lemma process_request_cases:
  assumes "process_request h env icap p st = Done ((status, defer, err), st')"
  obtains
    (refused) "status = 400" "\<not> defer" "err \<noteq> None" "bs_spawned st' = bs_spawned st" "bs_conn st' = bs_conn st"
      "bs_candidates st' = bs_candidates st" "bs_active_users st' = bs_active_users st"
      "bs_request st' = map_option (\<lambda>r. r\<lparr>rq_header := strip_client_headers (rq_header r)\<rparr>) (bs_request st)"
  | (unmatched) "status = 204" "\<not> defer" "err = None" "bs_spawned st' = bs_spawned st" "bs_conn st' = bs_conn st"
      "bs_request st' = map_option (\<lambda>r. r\<lparr>rq_header := strip_client_headers (rq_header r)\<rparr>) (bs_request st)"
  | (matched) identity attrs cfg st2 where
      "fst (extract_identity (be_ident env) (be_clock env) icap
        (case bs_request st of None \<Rightarrow> [] | Some r \<Rightarrow> rq_header r) (bs_whois st)) = Inr identity"
      "be_tenant_row env (ii_tenant_id identity) = DbRow"
      "bs_request st2 = map_option (\<lambda>r. r\<lparr>rq_header := strip_client_headers (rq_header r)\<rparr>) (bs_request st)"
      "bs_spawned st2 = bs_spawned st" "bs_conn st2 = bs_conn st"
      "apply_config (be_http env) p identity attrs cfg st2 = Done ((status, defer, err), st')"
proof -
  obtain res hs whois where e: "extract_identity (be_ident env) (be_clock env) icap
      (case bs_request st of None \<Rightarrow> [] | Some r \<Rightarrow> rq_header r) (bs_whois st) = (res, hs, whois)"
    by (metis prod_cases3)
  have hs: "map_option (\<lambda>r. r\<lparr>rq_header := hs\<rparr>) (bs_request st) =
      map_option (\<lambda>r. r\<lparr>rq_header := strip_client_headers (rq_header r)\<rparr>) (bs_request st)"
    using e by (cases "bs_request st") (auto simp: extract_identity_def Let_def split: prod.splits)
  note a = assms [unfolded process_request_def e]
  show thesis
  proof (cases res)
    case (Inl err')
    with a show thesis by (intro refused) (auto simp: hs [symmetric] Let_def)
  next
    case (Inr identity)
    obtain attrs ldap where l: "enrich_identity h env identity (bs_ldap st) = (attrs, ldap)"
      by (cases "enrich_identity h env identity (bs_ldap st)")
    obtain v active where v: "validate_tenant_and_user (be_tenant_row env) (be_user_row env) (ii_tenant_id identity)
        (ii_user_id identity) = (v, active)"
      by (metis surj_pair)
    show thesis
    proof (cases v)
      case (Inl err')
      with a Inr l v show thesis by (intro refused) (auto simp: hs [symmetric] Let_def)
    next
      case v': (Inr u)
      define st2 where "st2 = st\<lparr>bs_request := map_option (\<lambda>r. r\<lparr>rq_header := hs\<rparr>) (bs_request st), bs_whois := whois,
          bs_ldap := ldap, bs_active_users := bs_active_users st @
            (if active then [(ii_tenant_id identity, ii_user_id identity)] else [])\<rparr>"
      have t: "be_tenant_row env (ii_tenant_id identity) = DbRow"
        using v v' by (auto simp: validate_tenant_and_user_def validate_tenant_def split: sum.splits if_splits db_reply.splits)
      have "route_request h env p identity attrs st2 = Done ((status, defer, err), st')"
        using a Inr l v v' by (simp add: st2_def)
      then show thesis
      proof (cases rule: route_request_cases)
        case (1 cfg)
        show thesis by (rule matched [OF _ t _ _ _ 1]) (use e Inr in \<open>simp_all add: st2_def hs\<close>)
      next
        case (2 c)
        then show thesis by (intro unmatched) (simp_all add: st2_def hs)
      qed
    qed
  qed
qed

text \<open>What a call does to a request whose body is in memory, as the caller always gives it.\<close>

lemma process_request_loaded:
  assumes "process_request h env icap p st = Done ((status, deferred, err), st')"
    and "bs_request st = Some r" and "rq_body r = BytesBody bs"
  shows "bs_conn st' = bs_conn st \<and> (\<exists>r'. bs_request st' = Some r' \<and> rq_body r' = BytesBody bs) \<and> status \<in> {204, 400} \<and>
    (deferred \<longrightarrow> p \<and> status = 204) \<and>
    (bs_spawned st' = bs_spawned st \<or>
       \<not> p \<and> \<not> deferred \<and> status = 204 \<and> (\<exists>t. bs_spawned st' = bs_spawned st @ [t] \<and> rt_body t = bs))"
  using assms(1)
proof (cases rule: process_request_cases)
  case (matched identity attrs cfg st2)
  then have r2: "bs_request st2 = Some (r\<lparr>rq_header := strip_client_headers (rq_header r)\<rparr>)"
    using assms(2) by simp
  from apply_config_result [OF matched(6)] matched(4,5)
  consider (same) "status = 204" "deferred \<longrightarrow> p" "bs_spawned st' = bs_spawned st" "bs_request st' = bs_request st2"
      "bs_conn st' = bs_conn st"
    | (recorded) bd st3 where "status = 204" "\<not> p" "\<not> deferred" "snapshot_body (be_http env) st2 = Done (bd, st3)"
      "bs_request st' = bs_request st3" "bs_conn st' = bs_conn st3" "bs_spawned st' = bs_spawned st @
        [\<lparr>rt_body = bd, rt_identity = identity, rt_attributes = attrs, rt_config = cfg\<rparr>]"
    by metis
  then show ?thesis
  proof cases
    case same
    with r2 assms(3) show ?thesis by simp
  next
    case recorded
    from recorded(4) r2 assms(3) matched(5) have "bd = bs" "bs_conn st3 = bs_conn st"
      "bs_request st3 = Some (r\<lparr>rq_header := strip_client_headers (rq_header r), rq_body := BytesBody bs\<rparr>)"
      by (auto simp: snapshot_body_def read_body_def)
    with recorded show ?thesis by simp
  qed
qed (use assms(2,3) in simp_all)

section \<open>Properties\<close>

text \<open>C37: The business logic answers 204 without an error or 400 with one, and a refused request starts no
  recording, is not counted, marks no user active and leaves the body unread. In every case the identity
  headers of the client are gone from the request afterwards.\<close>

theorem business_verdicts:
  assumes "process_request h env icap p st = Done ((status, deferred, err), st')"
  shows "(status = 204 \<and> err = None \<or>
      status = 400 \<and> err \<noteq> None \<and> \<not> deferred \<and> bs_spawned st' = bs_spawned st \<and> bs_candidates st' = bs_candidates st \<and>
        bs_active_users st' = bs_active_users st \<and> bs_conn st' = bs_conn st) \<and>
    (\<forall>r. bs_request st' = Some r \<longrightarrow> (\<forall>k \<in> client_identity_keys. map_of (rq_header r) k = None))"
  using assms
proof (cases rule: process_request_cases)
  case refused
  then show ?thesis by (auto simp: map_of_stripped restrict_map_def)
next
  case unmatched
  then show ?thesis by (auto simp: map_of_stripped restrict_map_def)
next
  case (matched identity attrs cfg st2)
  from apply_config_result [OF matched(6)] have "status = 204 \<and> err = None" by simp
  moreover have "map_of (rq_header r) k = None" if r: "bs_request st' = Some r" and k: "k \<in> client_identity_keys" for r k
  proof -
    have "\<exists>r0. bs_request st2 = Some r0 \<and> rq_header r = rq_header r0"
      using apply_config_result [OF matched(6)] r
      by (cases "bs_request st2") (auto dest!: snapshot_body_spawned split: if_splits)
    with matched(3) k show ?thesis by (auto simp: map_of_stripped restrict_map_def)
  qed
  ultimately show ?thesis by blast
qed

text \<open>What \<open>snapshot_body\<close> copies is what reading the body of the request to its end delivers.\<close>

definition body_read_to :: "http_lib \<Rightarrow> business_state \<Rightarrow> bytes \<Rightarrow> business_state \<Rightarrow> bool" where
  "body_read_to lib st bs st' \<longleftrightarrow>
     (case bs_request st of
        None \<Rightarrow> bs = [] \<and> bs_request st' = None \<and> bs_conn st' = bs_conn st
      | Some r \<Rightarrow>
          (if rq_body r = NilBody
           then bs = [] \<and> map_option rq_body (bs_request st') = Some NilBody \<and> bs_conn st' = bs_conn st
           else \<exists>err left. read_body lib (rq_body r) (bs_conn st) = Done (bs, err, left, bs_conn st') \<and>
                  map_option rq_body (bs_request st') = Some (BytesBody bs)))"

lemma snapshot_body_read:
  "snapshot_body lib st = Done (bs, st') \<Longrightarrow> body_read_to lib st bs st'"
  by (auto simp: snapshot_body_def body_read_to_def bind_outcome_Done_iff split: option.splits if_splits)

lemma body_read_to_cong:
  assumes "body_read_to lib st1 bs st2" and "map_option rq_body (bs_request st1) = map_option rq_body (bs_request st)"
    and "bs_conn st1 = bs_conn st" and "bs_request st' = bs_request st2" and "bs_conn st' = bs_conn st2"
  shows "body_read_to lib st bs st'"
  using assms by (cases "bs_request st1"; cases "bs_request st") (auto simp: body_read_to_def split: if_splits)

text \<open>C38: A preview never starts a recording, and only a preview is deferred. A complete request starts at
  most one: its tenant exists, and what it carries is what reading the body of the request to its end delivered; the
  request has a copy of exactly these bytes afterwards, for the service that is called next. A request that starts none
  keeps its body, unread.\<close>

theorem business_records_complete_bodies:
  assumes "process_request h env icap p st = Done ((status, deferred, err), st')"
  shows "(deferred \<longrightarrow> p) \<and> (p \<longrightarrow> bs_spawned st' = bs_spawned st) \<and>
    (bs_spawned st' = bs_spawned st \<and> bs_conn st' = bs_conn st \<and>
       map_option rq_body (bs_request st') = map_option rq_body (bs_request st) \<or>
     (\<exists>t. bs_spawned st' = bs_spawned st @ [t] \<and> be_tenant_row env (ii_tenant_id (rt_identity t)) = DbRow \<and>
        body_read_to (be_http env) st (rt_body t) st'))"
  using assms
proof (cases rule: process_request_cases)
  case (matched identity attrs cfg st2)
  note a = apply_config_result [OF matched(6)]
  have body: "map_option rq_body (bs_request st2) = map_option rq_body (bs_request st)"
    unfolding matched(3) by (cases "bs_request st") simp_all
  show ?thesis
  proof (cases "bs_spawned st' = bs_spawned st2 \<and> bs_request st' = bs_request st2 \<and> bs_conn st' = bs_conn st2")
    case True
    with a matched(4,5) body show ?thesis by auto
  next
    case False
    with a obtain bd st1 where s: "\<not> p" "\<not> deferred" "snapshot_body (be_http env) st2 = Done (bd, st1)" "bs_request st' = bs_request st1"
      "bs_conn st' = bs_conn st1"
      "bs_spawned st' = bs_spawned st2 @ [\<lparr>rt_body = bd, rt_identity = identity, rt_attributes = attrs, rt_config = cfg\<rparr>]"
      by blast
    from body_read_to_cong [OF snapshot_body_read [OF s(3)] body matched(5) s(4,5)]
    show ?thesis using s matched(2,4) by auto
  qed
qed (auto simp: option.map_comp comp_def)

definition sample_dir :: ldap_dir where
  "sample_dir = \<lparr>ld_dial = \<lambda>a. None, ld_bind = \<lambda>dn pw. None, ld_search = \<lambda>b f attrs. Inr None,
     ld_escape_filter = \<lambda>u. u, ld_quote = \<lambda>u. u\<rparr>"

definition sample_business_env :: business_env where
  "sample_business_env = \<lparr>be_http = sample_url ''api.ai.com'' ''/v1/chat'', be_ident = sample_env, be_clock = sample_clock,
     be_ldap = sample_dir, be_ldap_check = 0, be_ldap_store = 0, be_tenant_row = \<lambda>t. DbRow,
     be_user_row = \<lambda>t u. DbNoRows, be_regexes = \<lambda>p. None, be_tool_row = \<lambda>t i. NoToolRow\<rparr>"

definition sample_handler :: business_handler where
  "sample_handler = \<lparr>bh_endpoints = load_rows [Some (sample_row\<lparr>er_domain := ''api.ai.com''\<rparr>)], bh_denylist = [],
     bh_has_sqs = True, bh_has_s3 = True, bh_enricher = None\<rparr>"

definition sample_business_state :: business_state where
  "sample_business_state = \<lparr>bs_whois = [], bs_ldap = [], bs_candidates = no_candidates_yet,
     bs_request = Some (zero_request\<lparr>rq_method := ''POST'', rq_body := BytesBody ''hello''\<rparr>),
     bs_conn = \<lparr>c_in = \<lparr>rbuf = [], under = \<lparr>segs = [], net_err = EOF\<rparr>\<rparr>, c_out = []\<rparr>, bs_spawned = [], bs_active_users = []\<rparr>"

lemma sample_business_runs:
  "(case process_request sample_handler sample_business_env [(''X-Client-Username'', [''ann''])] True sample_business_state of
      Done ((status, deferred, err), st) \<Rightarrow> status = 204 \<and> deferred \<and> bs_spawned st = [] | Panic _ \<Rightarrow> False) \<and>
   (case process_request sample_handler sample_business_env [(''X-Client-Username'', [''ann''])] False sample_business_state of
      Done ((status, deferred, err), st) \<Rightarrow> map rt_body (bs_spawned st) = [''hello''] | Panic _ \<Rightarrow> False)"
  by code_simp

lemma business_verdicts_witness:
  "\<exists>deferred st'. process_request sample_handler sample_business_env [(''X-Client-Username'', [''ann''])] True
     sample_business_state = Done ((204, deferred, None), st')"
proof -
  obtain status deferred err st' where r: "process_request sample_handler sample_business_env
      [(''X-Client-Username'', [''ann''])] True sample_business_state = Done ((status, deferred, err), st')" and s: "status = 204"
    using sample_business_runs by (auto split: outcome.splits prod.splits)
  from business_verdicts [OF r] s have "err = None" by auto
  with r s show ?thesis by auto
qed

lemma business_records_complete_bodies_witness:
  "\<exists>status deferred err st' t. process_request sample_handler sample_business_env [(''X-Client-Username'', [''ann''])] False
     sample_business_state = Done ((status, deferred, err), st') \<and> bs_spawned st' = [t] \<and> rt_body t = ''hello'' \<and> \<not> deferred"
proof -
  obtain status deferred err st' where r: "process_request sample_handler sample_business_env
      [(''X-Client-Username'', [''ann''])] False sample_business_state = Done ((status, deferred, err), st')"
    and s: "map rt_body (bs_spawned st') = [''hello'']"
    using sample_business_runs by (auto split: outcome.splits prod.splits)
  from business_records_complete_bodies [OF r] have "\<not> deferred" by simp
  moreover obtain t where "bs_spawned st' = [t]" "rt_body t = ''hello''" using s by auto
  ultimately show ?thesis using r by blast
qed

end
