(* ===== verification/Mux.thy ===== *)
theory Mux
  imports IcapResponse
begin

text \<open>
  \<open>icap/mux.go\<close>: the request multiplexer. A handler takes the response writer and the request and
  returns the writer, or panics. The registration map is an association list with distinct keys; the
  order in which Go ranges over it is unspecified, and \<open>match_handler_order\<close> shows that it does not
  matter. \<open>path.Clean\<close> and \<open>path.Split\<close> are modelled on the segments of the path.
\<close>

section \<open>path.Clean and path.Split\<close>

definition clean_step :: "bool \<Rightarrow> string \<Rightarrow> string list \<Rightarrow> string list" where
  "clean_step rooted seg stack =
     (if seg = [] \<or> seg = ''.'' then stack
      else if seg = ''..''
      then (case stack of
              [] \<Rightarrow> (if rooted then [] else [''..''])
            | s # ss \<Rightarrow> (if s = ''..'' then ''..'' # stack else ss))
      else seg # stack)"

definition clean_segments :: "bool \<Rightarrow> string list \<Rightarrow> string list" where
  "clean_segments rooted segments = rev (fold (clean_step rooted) segments [])"

definition path_clean :: "string \<Rightarrow> string" where
  "path_clean p =
     (if p = [] then ''.''
      else if has_prefix p ''/''
      then CHR ''/'' # join (clean_segments True (split p ''/'')) ''/''
      else (let s = join (clean_segments False (split p ''/'')) ''/''
            in if s = [] then ''.'' else s))"

text \<open>\<open>path.Split\<close>: the part up to and including the last slash.\<close>

definition path_dir :: "string \<Rightarrow> string" where
  "path_dir p = rev (dropWhile (\<lambda>c. c \<noteq> CHR ''/'') (rev p))"

section \<open>The multiplexer\<close>

type_synonym icap_handler = "resp_writer \<Rightarrow> icap_request \<Rightarrow> resp_writer outcome"

type_synonym serve_mux = "(string \<times> icap_handler) list"

definition path_match :: "string \<Rightarrow> string \<Rightarrow> bool" where
  "path_match pattern path =
     (if pattern = [] then False
      else if last pattern \<noteq> CHR ''/'' then pattern = path
      else length pattern \<le> length path \<and> take (length pattern) path = pattern)"

definition clean_path :: "string \<Rightarrow> string" where
  "clean_path p =
     (if p = [] then ''/''
      else (let p1 = (if hd p \<noteq> CHR ''/'' then CHR ''/'' # p else p);
                np = path_clean p1
            in if last p1 = CHR ''/'' \<and> np \<noteq> ''/'' then np @ ''/'' else np))"

text \<open>One round of the loop of \<open>match\<close>: the best handler so far with the length of its pattern.\<close>

definition match_step :: "string \<Rightarrow> ('h \<times> nat) option \<Rightarrow> string \<times> 'h \<Rightarrow> ('h \<times> nat) option" where
  "match_step path best kv =
     (case kv of (k, v) \<Rightarrow>
        if \<not> path_match k path then best
        else (case best of
                None \<Rightarrow> Some (v, length k)
              | Some (h, n) \<Rightarrow> if n < length k then Some (v, length k) else best))"

definition match_handler :: "(string \<times> 'h) list \<Rightarrow> string \<Rightarrow> 'h option" where
  "match_handler m path = map_option fst (foldl (match_step path) None m)"

definition not_found :: "http_lib \<Rightarrow> icap_handler" where
  "not_found lib w r = write_header lib 404 NoMsg False w"

definition rw_set_header :: "string \<Rightarrow> string \<Rightarrow> resp_writer \<Rightarrow> resp_writer" where
  "rw_set_header k v w = w\<lparr>rw_header := hset (rw_header w) k v\<rparr>"

text \<open>The target of a redirect; an empty target is indexed at its last byte.\<close>

definition redirect_target :: "http_lib \<Rightarrow> string \<Rightarrow> string \<Rightarrow> string outcome" where
  "redirect_target lib path redirect_url =
     (case lib_parse_url lib redirect_url of
        Inl _ \<Rightarrow> Done redirect_url
      | Inr u \<Rightarrow>
          (let oldpath = (if path = [] then ''/'' else path) in
           if u_scheme u = []
           then
             (let url1 = (if redirect_url = [] \<or> hd redirect_url \<noteq> CHR ''/''
                          then path_dir oldpath @ redirect_url else redirect_url);
                  (url2, query) = (case index_of url1 ''?'' of
                                     Some i \<Rightarrow> (take i url1, drop i url1)
                                   | None \<Rightarrow> (url1, []))
              in if url2 = [] then Panic ''index out of range''
                 else (let trailing = (last url2 = CHR ''/'');
                           url3 = path_clean url2;
                           url4 = (if trailing \<and> last url3 \<noteq> CHR ''/'' then url3 @ ''/'' else url3)
                       in Done (url4 @ query)))
           else Done redirect_url))"

definition redirect :: "http_lib \<Rightarrow> string \<Rightarrow> nat \<Rightarrow> icap_handler" where
  "redirect lib redirect_url code w r =
     bind_outcome (redirect_target lib (u_path (ir_url r)) redirect_url) (\<lambda>target.
       write_header lib code NoMsg False (rw_set_header ''Location'' target w))"

definition mux_serve :: "http_lib \<Rightarrow> serve_mux \<Rightarrow> icap_handler" where
  "mux_serve lib m w r =
     (let path = u_path (ir_url r); p = clean_path path in
      if p \<noteq> path
      then write_header lib 301 NoMsg False (rw_set_header ''Location'' p w)
      else (let h = (case match_handler m (u_host (ir_url r) @ path) of
                       Some h \<Rightarrow> h
                     | None \<Rightarrow> (case match_handler m path of Some h \<Rightarrow> h | None \<Rightarrow> not_found lib))
            in h w r))"

definition mux_handle :: "http_lib \<Rightarrow> string \<Rightarrow> icap_handler \<Rightarrow> serve_mux \<Rightarrow> serve_mux outcome" where
  "mux_handle lib pattern handler m =
     (if pattern = [] then Panic (''icap: invalid pattern '' @ pattern)
      else (let m1 = AList.update pattern handler m
            in Done (if last pattern = CHR ''/''
                     then AList.update (butlast pattern) (redirect lib pattern 301) m1 else m1)))"

section \<open>Matching\<close>

lemma path_match_iff:
  "path_match k path \<longleftrightarrow> k \<noteq> [] \<and> (if last k = CHR ''/'' then has_prefix path k else k = path)"
  by (auto simp: path_match_def has_prefix_def)

text \<open>Two matching patterns of the same length are the same pattern.\<close>

lemma path_match_unique:
  "path_match k path \<Longrightarrow> path_match l path \<Longrightarrow> length k = length l \<Longrightarrow> k = l"
  by (auto simp: path_match_iff has_prefix_iff split: if_splits)

definition best_match :: "(string \<times> 'h) list \<Rightarrow> string \<Rightarrow> string \<Rightarrow> 'h \<Rightarrow> bool" where
  "best_match m path k h \<longleftrightarrow> (k, h) \<in> set m \<and> path_match k path \<and>
     (\<forall>(l, g) \<in> set m. path_match l path \<longrightarrow> length l \<le> length k)"

lemma match_step_pair:
  "match_step path best (k, v) =
     (if \<not> path_match k path then best
      else (case best of
              None \<Rightarrow> Some (v, length k)
            | Some (h, n) \<Rightarrow> if n < length k then Some (v, length k) else best))"
  by (simp add: match_step_def)

lemma match_fold:
  "(case foldl (match_step path) None m of
      None \<Rightarrow> \<forall>(l, g) \<in> set m. \<not> path_match l path
    | Some (h, n) \<Rightarrow> \<exists>k. n = length k \<and> best_match m path k h)"
proof (induction m rule: rev_induct)
  case Nil
  then show ?case by simp
next
  case (snoc kv m)
  obtain k v where kv: "kv = (k, v)" by (cases kv)
  show ?case
  proof (cases "foldl (match_step path) None m")
    case None
    with snoc show ?thesis
      by (auto simp: kv match_step_pair best_match_def)
  next
    case (Some hn)
    then obtain h n where hn: "foldl (match_step path) None m = Some (h, n)" by (cases hn) auto
    with snoc obtain l where l: "n = length l" "best_match m path l h" by auto
    show ?thesis
    proof (cases "path_match k path \<and> n < length k")
      case True
      with hn l have "best_match (m @ [kv]) path k v" by (auto simp: kv best_match_def)
      with True hn show ?thesis by (auto simp: kv match_step_pair)
    next
      case False
      with hn l have "best_match (m @ [kv]) path l h" by (auto simp: kv best_match_def)
      with False hn l show ?thesis by (auto simp: kv match_step_pair)
    qed
  qed
qed

lemma match_handler_Some: "match_handler m path = Some h \<Longrightarrow> \<exists>k. best_match m path k h"
  using match_fold [where path = path and m = m] by (auto simp: match_handler_def split: option.splits)

lemma match_handler_None: "match_handler m path = None \<longleftrightarrow> (\<forall>(l, g) \<in> set m. \<not> path_match l path)"
  using match_fold [where path = path and m = m] by (auto simp: match_handler_def best_match_def split: option.splits)

lemma best_match_unique:
  assumes "distinct (map fst m)" and "best_match m path k h" and "best_match m path l g"
  shows "h = g"
proof -
  have "length k = length l" "path_match k path" "path_match l path"
    using assms(2,3) by (force simp: best_match_def intro: antisym)+
  then have "k = l" by (metis path_match_unique)
  with assms show ?thesis by (auto simp: best_match_def dest: eq_key_imp_eq_value)
qed

lemma match_handler_iff:
  assumes "distinct (map fst m)"
  shows "match_handler m path = Some h \<longleftrightarrow> (\<exists>k. best_match m path k h)"
proof
  assume "\<exists>k. best_match m path k h"
  then obtain k where k: "best_match m path k h" by blast
  then have "match_handler m path \<noteq> None"
    unfolding match_handler_None by (auto simp: best_match_def)
  then obtain g where "match_handler m path = Some g" by blast
  with match_handler_Some [OF this] k best_match_unique [OF assms] show "match_handler m path = Some h"
    by metis
qed (rule match_handler_Some)

section \<open>Canonical paths\<close>

definition good_segment :: "string \<Rightarrow> bool" where
  "good_segment s \<longleftrightarrow> s \<notin> {[], ''.'', ''..''} \<and> CHR ''/'' \<notin> set s"

lemma clean_step_good:
  assumes "list_all good_segment st" and "CHR ''/'' \<notin> set s"
  shows "list_all good_segment (clean_step True s st)"
  using assms by (auto simp: clean_step_def good_segment_def split: list.splits)

lemma clean_segments_good:
  assumes "\<forall>s \<in> set segments. CHR ''/'' \<notin> set s"
  shows "list_all good_segment (clean_segments True segments)"
proof -
  have "list_all good_segment (fold (clean_step True) segments st)" if "list_all good_segment st" for st
    using assms that
  proof (induction segments arbitrary: st)
    case (Cons s ss)
    then show ?case using clean_step_good [of st s] by simp
  qed simp
  from this [of "[]"] show ?thesis by (simp add: clean_segments_def list_all_iff)
qed

lemma clean_segments_id:
  assumes "list_all good_segment ss"
  shows "clean_segments True ss = ss"
proof -
  have "fold (clean_step True) ss st = rev ss @ st" for st
    using assms by (induction ss arbitrary: st) (auto simp: clean_step_def good_segment_def)
  then show ?thesis by (simp add: clean_segments_def)
qed

lemma clean_segments_empty:
  "clean_segments True ([] # ss) = clean_segments True ss"
  "clean_segments True (ss @ [[]]) = clean_segments True ss"
  by (simp_all add: clean_segments_def clean_step_def)

text \<open>The paths in canonical form: an absolute path of proper segments, with or without a final slash.\<close>

definition canonical_path :: "string list \<Rightarrow> bool \<Rightarrow> string" where
  "canonical_path ss slash =
     CHR ''/'' # join ss ''/'' @ (if slash \<and> ss \<noteq> [] then ''/'' else [])"

lemma clean_path_form:
  "\<exists>ss slash. list_all good_segment ss \<and> clean_path p = canonical_path ss slash"
proof (cases "p = []")
  case True
  then show ?thesis by (intro exI [of _ "[]"]) (simp add: clean_path_def canonical_path_def)
next
  case False
  define p1 where "p1 = (if hd p \<noteq> CHR ''/'' then CHR ''/'' # p else p)"
  define ss where "ss = clean_segments True (split p1 ''/'')"
  have "has_prefix p1 ''/''" "p1 \<noteq> []"
    using False by (cases p; simp add: p1_def has_prefix_def)+
  then have np: "path_clean p1 = CHR ''/'' # join ss ''/''"
    by (simp add: path_clean_def ss_def)
  have good: "list_all good_segment ss"
    unfolding ss_def by (rule clean_segments_good) (use split_no_sep in blast)
  have ne: "join ss ''/'' = [] \<longleftrightarrow> ss = []"
    using good by (cases "(ss, ''/'')" rule: join.cases) (auto simp: good_segment_def)
  have "clean_path p = canonical_path ss (last p1 = CHR ''/'')"
    using False np ne by (simp add: clean_path_def p1_def [symmetric] canonical_path_def Let_def)
  with good show ?thesis by blast
qed

lemma clean_path_canonical_path:
  assumes "list_all good_segment ss"
  shows "clean_path (canonical_path ss slash) = canonical_path ss slash"
proof (cases "ss = []")
  case True
  have "clean_path ''/'' = ''/''" by code_simp
  with True show ?thesis by (simp add: canonical_path_def)
next
  case False
  let ?p = "canonical_path ss slash"
  have nosep: "\<forall>s \<in> set ss. CHR ''/'' \<notin> set s" using assms by (auto simp: list_all_iff good_segment_def)
  have tail: "ss @ (if slash then [[]] else []) \<noteq> []" using False by simp
  have "?p = join ([] # ss @ (if slash then [[]] else [])) ''/''"
    using False by (simp add: canonical_path_def join_Cons join_snoc)
  moreover have "\<forall>s \<in> set ([] # ss @ (if slash then [[]] else [])). CHR ''/'' \<notin> set s"
    using nosep by auto
  ultimately have "split ?p ''/'' = [] # ss @ (if slash then [[]] else [])"
    using split_join [of "[] # ss @ (if slash then [[]] else [])" "CHR ''/''"] by simp
  then have "clean_segments True (split ?p ''/'') = ss"
    using assms by (simp add: clean_segments_empty clean_segments_id)
  then have np: "path_clean ?p = CHR ''/'' # join ss ''/''"
    by (simp add: path_clean_def) (simp add: canonical_path_def has_prefix_def)
  have last: "join ss ''/'' \<noteq> []" "last (join ss ''/'') \<noteq> CHR ''/''"
    using assms False by (induction ss "''/''" rule: join.induct) (auto simp: good_segment_def dest: last_in_set)
  have ne: "?p \<noteq> []" "hd ?p = CHR ''/''" by (simp_all add: canonical_path_def)
  have "last ?p = CHR ''/'' \<longleftrightarrow> slash"
    using last False by (simp add: canonical_path_def)
  then show ?thesis
    using np ne last False by (cases slash) (simp add: clean_path_def canonical_path_def)+
qed

section \<open>Properties\<close>

text \<open>A request's path is cleaned to an absolute path whose segments are neither empty nor \<open>.\<close> nor
  \<open>..\<close>, and cleaning is idempotent, so the redirect \<open>ServeICAP\<close> answers leads to a path that is served.\<close>

theorem clean_path_canonical:
  "(\<exists>ss slash. list_all good_segment ss \<and> clean_path p = canonical_path ss slash) \<and>
   clean_path (clean_path p) = clean_path p"
  using clean_path_form [of p] clean_path_canonical_path by metis

text \<open>C29: \<open>match\<close> returns the handler of the longest registered pattern that matches the path, and the
  result does not depend on the order in which the map is ranged over.\<close>

theorem match_handler_longest:
  assumes "distinct (map fst m)" and "distinct (map fst m')" and "set m' = set m"
  shows "(match_handler m path = Some h \<longleftrightarrow>
           (\<exists>k. (k, h) \<in> set m \<and> path_match k path \<and>
              (\<forall>(l, g) \<in> set m. path_match l path \<longrightarrow> length l \<le> length k))) \<and>
         match_handler m' path = match_handler m path"
proof (intro conjI)
  show "match_handler m path = Some h \<longleftrightarrow>
           (\<exists>k. (k, h) \<in> set m \<and> path_match k path \<and>
              (\<forall>(l, g) \<in> set m. path_match l path \<longrightarrow> length l \<le> length k))"
    by (simp add: match_handler_iff [OF assms(1)] best_match_def)
  have "match_handler m' path = Some g \<longleftrightarrow> match_handler m path = Some g" for g
    by (simp add: match_handler_iff [OF assms(1)] match_handler_iff [OF assms(2)] best_match_def assms(3))
  then show "match_handler m' path = match_handler m path" by (metis option.exhaust)
qed

lemma match_handler_longest_witness:
  "match_handler [(''/'', 1), (''/echo/'', 2), (''/clamav'', 3::nat)] ''/echo/x'' = Some 2 \<and>
   match_handler [(''/clamav'', 3), (''/echo/'', 2), (''/'', 1::nat)] ''/echo/x'' = Some 2"
proof -
  let ?m = "[(''/'', 1), (''/echo/'', 2), (''/clamav'', 3::nat)]"
  let ?n = "[(''/clamav'', 3), (''/echo/'', 2), (''/'', 1::nat)]"
  have s: "set ?n = set ?m" by auto
  note l = match_handler_longest [where m = ?m and m' = ?n and path = "''/echo/x''" and h = 2]
  have "match_handler ?m ''/echo/x'' = Some 2"
    by (rule iffD2 [OF conjunct1 [OF l]]) (auto simp: path_match_def intro!: exI [of _ "''/echo/''"])
  moreover have "match_handler ?n ''/echo/x'' = match_handler ?m ''/echo/x''"
    by (rule conjunct2 [OF l]) (auto)
  ultimately show ?thesis by simp
qed

text \<open>Registering a handler under a canonical pattern makes it serve exactly that path, whatever else
  is registered; an empty pattern panics and registers nothing.\<close>

theorem mux_handle_serves:
  assumes "pattern \<noteq> []" and "distinct (map fst m)" and "clean_path pattern = pattern"
    and "u_path (ir_url r) = pattern" and "u_host (ir_url r) = []"
  shows "(\<exists>m'. mux_handle lib pattern h m = Done m' \<and> distinct (map fst m') \<and> mux_serve lib m' w r = h w r) \<and>
         (\<exists>s. mux_handle lib [] h m = Panic s)"
proof (rule conjI)
  define m1 where "m1 = AList.update pattern h m"
  define m' where "m' = (if last pattern = CHR ''/''
    then AList.update (butlast pattern) (redirect lib pattern 301) m1 else m1)"
  have reg: "mux_handle lib pattern h m = Done m'"
    using assms(1) by (simp add: mux_handle_def m'_def m1_def Let_def)
  have d1: "distinct (map fst m1)" unfolding m1_def by (rule distinct_update [OF assms(2)])
  then have d: "distinct (map fst m')" unfolding m'_def by (simp add: distinct_update)
  have "butlast pattern \<noteq> pattern"
    using assms(1) by (metis append_butlast_last_id append_self_conv not_Cons_self2)
  then have "map_of m' pattern = Some h"
    by (simp add: m'_def m1_def update_conv')
  then have "(pattern, h) \<in> set m'" by (rule map_of_SomeD)
  moreover have "path_match pattern pattern" using assms(1) by (simp add: path_match_iff has_prefix_def)
  moreover have "length l \<le> length pattern" if "path_match l pattern" for l
    using that by (auto simp: path_match_iff has_prefix_def split: if_splits)
  ultimately have "match_handler m' pattern = Some h"
    using d by (auto simp: match_handler_iff best_match_def)
  with assms(3-5) reg d show "\<exists>m'. mux_handle lib pattern h m = Done m' \<and> distinct (map fst m') \<and>
      mux_serve lib m' w r = h w r"
    by (auto simp: mux_serve_def)
  show "\<exists>s. mux_handle lib [] h m = Panic s" by (simp add: mux_handle_def)
qed

lemma mux_handle_serves_witness:
  "\<forall>w. \<exists>m'. mux_handle sample_lib ''/echo/'' (\<lambda>w r. Done (write_raw ''hi'' w)) [] = Done m' \<and>
     distinct (map fst m') \<and> mux_serve sample_lib m' w (new_icap_request\<lparr>ir_url := zero_url\<lparr>u_path := ''/echo/''\<rparr>\<rparr>) =
       Done (write_raw ''hi'' w)"
proof -
  have "clean_path ''/echo/'' = ''/echo/''" by code_simp
  with mux_handle_serves [of "''/echo/''" "[]" "new_icap_request\<lparr>ir_url := zero_url\<lparr>u_path := ''/echo/''\<rparr>\<rparr>"
      sample_lib "\<lambda>w r. Done (write_raw ''hi'' w)"] show ?thesis
    by (simp add: zero_url_def)
qed

end
