(* ===== verification/IcapServer.thy ===== *)
theory IcapServer
  imports Mux Progress
begin

text \<open>
  \<open>icap/server.go\<close>: the loop that serves one connection and the accept loop.

  A connection is served by reading a request, calling the handler and finishing the response, until
  reading fails. A panic is recovered: the goroutine ends without closing the connection.
\<close>

section \<open>One connection\<close>

datatype serve_end =
    ConnClosed   \<comment> \<open>the connection was closed\<close>
  | ConnLeft     \<comment> \<open>a panic was recovered, the connection stays open and unattended\<close>

definition new_conn :: "net \<Rightarrow> conn_io" where
  "new_conn rwc = \<lparr>c_in = \<lparr>rbuf = [], under = rwc\<rparr>, c_out = []\<rparr>"

text \<open>\<open>conn.readRequest\<close>: the request with the remote address, and a fresh response writer.\<close>

definition conn_read_request :: "http_lib \<Rightarrow> string \<Rightarrow> conn_io \<Rightarrow>
    ((go_error + icap_request \<times> resp_writer) \<times> conn_io) outcome" where
  "conn_read_request lib addr c =
     bind_outcome (read_icap_request lib (c_in c)) (\<lambda>(res, b).
       let c1 = c\<lparr>c_in := b\<rparr>
       in Done ((case res of
                   Inl err \<Rightarrow> Inl err
                 | Inr req \<Rightarrow>
                     Inr (req\<lparr>ir_remote := addr\<rparr>,
                          \<lparr>rw_conn = c1, rw_method = ir_method req, rw_header = [], rw_wrote_header = False,
                           rw_wrote_raw = False, rw_chunked = False\<rparr>)), c1))"

text \<open>
  \<open>conn.serve\<close>, with fuel: the requests handed to the handler in order, how it ended, and the
  connection. On a panic in the handler the connection is given as it was before the call.
\<close>

fun serve :: "http_lib \<Rightarrow> icap_handler \<Rightarrow> string \<Rightarrow> nat \<Rightarrow> conn_io \<Rightarrow>
    (icap_request list \<times> serve_end \<times> conn_io) option" where
  "serve lib handler addr 0 c = None"
| "serve lib handler addr (Suc fuel) c =
     (case conn_read_request lib addr c of
        Panic _ \<Rightarrow> Some ([], ConnLeft, c)
      | Done (Inl err, c1) \<Rightarrow> Some ([], ConnClosed, c1)
      | Done (Inr (req, w), c1) \<Rightarrow>
          (case bind_outcome (handler w req) (finish_request lib) of
             Panic _ \<Rightarrow> Some ([req], ConnLeft, c1)
           | Done w1 \<Rightarrow>
               map_option (\<lambda>(reqs, end, c2). (req # reqs, end, c2))
                 (serve lib handler addr fuel (rw_conn w1))))"

section \<open>The accept loop\<close>

datatype accept_event = Accepted string net | TemporaryError go_error | FatalError go_error

text \<open>
  \<open>Server.Serve\<close>: a temporary error is skipped, any other ends the loop; every accepted connection is
  served on its own. The list says what \<open>Accept\<close> returns; \<open>None\<close> as the error is a loop still waiting.
\<close>

fun accept_loop :: "http_lib \<Rightarrow> icap_handler \<Rightarrow> nat \<Rightarrow> accept_event list \<Rightarrow>
    (icap_request list \<times> serve_end \<times> conn_io) option list \<times> go_error option" where
  "accept_loop lib handler fuel [] = ([], None)"
| "accept_loop lib handler fuel (TemporaryError err # evs) = accept_loop lib handler fuel evs"
| "accept_loop lib handler fuel (FatalError err # evs) = ([], Some err)"
| "accept_loop lib handler fuel (Accepted addr rwc # evs) =
     (case accept_loop lib handler fuel evs of
        (conns, err) \<Rightarrow> (serve lib handler addr fuel (new_conn rwc) # conns, err))"

text \<open>\<open>handler == nil\<close> selects the default multiplexer.\<close>

definition server_serve :: "http_lib \<Rightarrow> serve_mux \<Rightarrow> icap_handler option \<Rightarrow> nat \<Rightarrow> accept_event list \<Rightarrow>
    (icap_request list \<times> serve_end \<times> conn_io) option list \<times> go_error option" where
  "server_serve lib default_mux handler fuel evs =
     accept_loop lib (case handler of None \<Rightarrow> mux_serve lib default_mux | Some h \<Rightarrow> h) fuel evs"

section \<open>The loop ends\<close>

text \<open>A handler that does not put input back, and whose calls go to the writer.\<close>

definition consumes_only :: "icap_handler \<Rightarrow> bool" where
  "consumes_only h \<longleftrightarrow> (\<forall>w req w'. h w req = Done w' \<longrightarrow>
     length (conn_pending (c_in (rw_conn w'))) \<le> length (conn_pending (c_in (rw_conn w))))"

lemma write_header_plain:
  assumes "write_header lib code NoMsg hb w = Done w'"
  shows "c_in (rw_conn w') = c_in (rw_conn w)"
  using assms by (auto simp: write_header_def write_msg_body_def Let_def rw_emit_def split: if_splits)

lemma finish_request_in:
  assumes "finish_request lib w = Done w'"
  shows "c_in (rw_conn w') = c_in (rw_conn w)"
  using assms write_header_plain [of lib 200 False w]
  by (cases "write_header lib 200 NoMsg False w") (auto simp: finish_request_def split: if_splits)

lemma consumes_only_not_found: "consumes_only (not_found lib)"
  using write_header_plain by (auto simp: consumes_only_def not_found_def)

lemma conn_read_request_le:
  assumes "conn_read_request lib addr c = Done (Inr (req, w), c1)" and "\<forall>l. 0 < lib_room lib l"
  shows "length (conn_pending (c_in (rw_conn w))) < length (conn_pending (c_in c))" and "rw_conn w = c1"
proof -
  obtain r b where r: "read_icap_request lib (c_in c) = Done (r, b)"
    using assms(1) by (cases "read_icap_request lib (c_in c)") (auto simp: conn_read_request_def)
  from read_icap_request_le [OF r assms(2)] r assms(1)
  show "length (conn_pending (c_in (rw_conn w))) < length (conn_pending (c_in c))" "rw_conn w = c1"
    by (auto simp: conn_read_request_def Let_def split: sum.splits)
qed

text \<open>Whatever bytes the peer sends, the loop is left after at most one request per pending byte, when the
  handler only consumes input.\<close>

lemma serve_terminates:
  assumes "consumes_only handler" and "\<forall>l. 0 < lib_room lib l"
    and "length (conn_pending (c_in c)) < fuel"
  shows "\<exists>reqs end c'. serve lib handler addr fuel c = Some (reqs, end, c') \<and> length reqs \<le> fuel"
  using assms(3)
proof (induction fuel arbitrary: c)
  case 0
  then show ?case by simp
next
  case (Suc fuel)
  show ?case
  proof (cases "conn_read_request lib addr c")
    case (Panic s)
    then show ?thesis by simp
  next
    case (Done res)
    then consider err c1 where "conn_read_request lib addr c = Done (Inl err, c1)"
      | req w c1 where "conn_read_request lib addr c = Done (Inr (req, w), c1)"
      by (cases res; cases "fst res") auto
    then show ?thesis
    proof cases
      case (2 req w c1)
      show ?thesis
      proof (cases "bind_outcome (handler w req) (finish_request lib)")
        case (Panic s)
        with 2 show ?thesis by simp
      next
        case (Done w1)
        then obtain w0 where w0: "handler w req = Done w0" "finish_request lib w0 = Done w1"
          by (cases "handler w req") auto
        have "length (conn_pending (c_in (rw_conn w1))) < fuel"
          using conn_read_request_le [OF 2 assms(2)] w0(1) finish_request_in [OF w0(2)] assms(1) Suc.prems
          by (fastforce simp: consumes_only_def)
        from Suc.IH [OF this] 2 Done show ?thesis by auto
      qed
    qed simp
  qed
qed

section \<open>Properties\<close>

text \<open>A blank line at the start of a request, such as the one that ends a chunked body when it is
  still on the wire after the body was read, is a malformed request: the connection is closed and the
  requests behind it are dropped.\<close>

theorem blank_line_closes_connection:
  assumes "conn_pending (c_in c) = crlf @ rest" and "length (rbuf (c_in c)) \<le> buf_size"
  shows "\<exists>c'. serve lib handler addr (Suc fuel) c = Some ([], ConnClosed, c')"
proof -
  let ?b = "c_in c"
  have "conn.brep ?b ([CR] @ LF # rest) (net_err (under ?b))"
    using assms by (simp add: conn_brep_iff)
  moreover have "length [CR] < in_fuel ?b" using assms(1) by (simp add: in_fuel_def)
  ultimately obtain b1 where "tp_read_line net_read (in_fuel ?b) [] ?b = (Inr [], b1)"
    using conn.tp_read_line_ok [of ?b "[CR]" rest "net_err (under ?b)" "in_fuel ?b" "[]"]
    by (auto simp: strip_cr_def)
  then have "read_icap_request lib ?b = Done (Inl (BadStringError ''malformed ICAP request'' []), b1)"
    by (simp add: read_icap_request_def numeral_3_eq_3)
  then show ?thesis by (simp add: conn_read_request_def Let_def)
qed

lemma blank_line_closes_connection_witness:
  "\<exists>c'. serve sample_lib (not_found sample_lib) ''10.0.0.1'' (Suc 1)
       (new_conn \<lparr>segs = [[CR], [LF], ''OPTIONS / ICAP/1.0'' @ crlf @ crlf], net_err = EOF\<rparr>) = Some ([], ConnClosed, c')"
  by (rule blank_line_closes_connection [where rest = "''OPTIONS / ICAP/1.0'' @ crlf @ crlf"])
    (simp_all add: new_conn_def conn_pending_def)

section \<open>Requests in order\<close>

text \<open>Requests without an encapsulated part, as a client pipelines them, and what the handler gets.\<close>

type_synonym plain_request = "string \<times> string \<times> string \<times> (string \<times> string) list"

definition plain_wire :: "plain_request \<Rightarrow> bytes" where
  "plain_wire q = (case q of (m, u, p, kvs) \<Rightarrow> icap_wire m u p kvs [])"

definition plain_ok :: "http_lib \<Rightarrow> plain_request \<Rightarrow> bool" where
  "plain_ok lib q = (case q of (m, u, p, kvs) \<Rightarrow> good_head m u p kvs \<and>
     (\<exists>ur. lib_parse_request_uri lib u = Inr ur) \<and> hget (mime_map [] kvs) ''Encapsulated'' = [])"

definition plain_parsed :: "http_lib \<Rightarrow> string \<Rightarrow> plain_request \<Rightarrow> icap_request" where
  "plain_parsed lib addr q = (case q of (m, u, p, kvs) \<Rightarrow>
     new_icap_request\<lparr>ir_method := m, ir_rawurl := u, ir_proto := p,
       ir_url := projr (lib_parse_request_uri lib u), ir_header := mime_map [] kvs, ir_remote := addr\<rparr>)"

lemma plain_read:
  assumes "conn.brep b (plain_wire q @ rest) e" and "plain_ok lib q"
  shows "\<exists>b'. conn.brep b' rest e \<and>
    read_icap_request lib b = Done (Inr ((plain_parsed lib addr q)\<lparr>ir_remote := []\<rparr>), b')"
proof -
  obtain m u p kvs where q: "q = (m, u, p, kvs)" by (cases q)
  with assms(2) obtain ur where ok: "good_head m u p kvs" "lib_parse_request_uri lib u = Inr ur"
    "hget (mime_map [] kvs) ''Encapsulated'' = []" by (auto simp: plain_ok_def)
  have "conn.brep b (icap_wire m u p kvs rest) e"
    using assms(1) by (simp add: q plain_wire_def icap_wire_def)
  from conn_source.read_head [OF this ok(1,2)] ok(2,3) show ?thesis
    by (auto simp: q plain_parsed_def new_icap_request_def)
qed

text \<open>
  The loop over pipelined requests: \<open>P\<close> relates the requests still to come to the output so far, and each
  request, on a fresh writer, takes it on.
\<close>

definition fresh_writer :: "resp_writer \<Rightarrow> bool" where
  "fresh_writer w \<longleftrightarrow> rw_header w = [] \<and> \<not> rw_wrote_header w \<and> \<not> rw_wrote_raw w \<and> \<not> rw_chunked w"

lemma plain_conn_read:
  assumes "conn.brep (c_in c) (plain_wire q @ rest) e" and "plain_ok lib q"
  shows "\<exists>b w. conn_read_request lib addr c = Done (Inr (plain_parsed lib addr q, w), c\<lparr>c_in := b\<rparr>) \<and>
    conn.brep b rest e \<and> rw_conn w = c\<lparr>c_in := b\<rparr> \<and> fresh_writer w"
proof -
  from plain_read [OF assms, of addr] obtain b where b: "conn.brep b rest e"
    "read_icap_request lib (c_in c) = Done (Inr ((plain_parsed lib addr q)\<lparr>ir_remote := []\<rparr>), b)" by blast
  have "(plain_parsed lib addr q)\<lparr>ir_remote := addr\<rparr> = plain_parsed lib addr q"
    by (cases q) (simp add: plain_parsed_def)
  with b show ?thesis by (intro exI [of _ b]) (simp add: conn_read_request_def Let_def fresh_writer_def)
qed

lemma serve_plain:
  assumes "conn.brep (c_in c) (concat (map plain_wire qs)) EOF" and "list_all (plain_ok lib) qs" and "length qs < fuel"
    and "P qs (c_out c)"
    and "\<And>q qs w. fresh_writer w \<Longrightarrow> P (q # qs) (rw_out w) \<Longrightarrow>
           (case bind_outcome (handler w (plain_parsed lib addr q)) (finish_request lib) of
              Panic s \<Rightarrow> Q q
            | Done w' \<Rightarrow> c_in (rw_conn w') = c_in (rw_conn w) \<and> P qs (rw_out w'))"
  shows "\<exists>k end c'. serve lib handler addr fuel c = Some (map (plain_parsed lib addr) (take k qs), end, c') \<and>
    (end = ConnClosed \<and> k = length qs \<and> P [] (c_out c') \<or> end = ConnLeft \<and> 0 < k \<and> k \<le> length qs \<and> Q (qs ! (k - 1)))"
  using assms(1-4)
proof (induction qs arbitrary: c fuel)
  case Nil
  then obtain f where f: "fuel = Suc f" by (cases fuel) auto
  from Nil.prems(1) have "conn.brep (c_in c) [] EOF" by simp
  from conn.tp_read_line_eof [OF this, of "in_fuel (c_in c)"] obtain b1 where
    "tp_read_line net_read (in_fuel (c_in c)) [] (c_in c) = (Inl EOF, b1)" by (auto simp: in_fuel_def)
  with Nil.prems(4) show ?case by (simp add: f conn_read_request_def read_icap_request_def Let_def)
next
  case (Cons q qs)
  from Cons.prems(3) obtain f where f: "fuel = Suc f" "length qs < f" by (cases fuel) auto
  from Cons.prems(2) have ok: "plain_ok lib q" "list_all (plain_ok lib) qs" by simp_all
  from Cons.prems(1) have "conn.brep (c_in c) (plain_wire q @ concat (map plain_wire qs)) EOF" by simp
  from plain_conn_read [OF this ok(1), of addr] obtain b w where
    w: "conn_read_request lib addr c = Done (Inr (plain_parsed lib addr q, w), c\<lparr>c_in := b\<rparr>)"
    "conn.brep b (concat (map plain_wire qs)) EOF" "rw_conn w = c\<lparr>c_in := b\<rparr>" "fresh_writer w" by blast
  from w(3) Cons.prems(4) have p: "P (q # qs) (rw_out w)" by (simp add: rw_out_def)
  show ?case
  proof (cases "bind_outcome (handler w (plain_parsed lib addr q)) (finish_request lib)")
    case (Panic s)
    with assms(5) [OF w(4) p] have "Q q" by simp
    with Panic w(1) show ?thesis
      by (intro exI [of _ "1"] exI [of _ ConnLeft] exI [of _ "c\<lparr>c_in := b\<rparr>"]) (simp add: f(1))
  next
    case (Done w')
    with assms(5) [OF w(4) p] w(3) have w': "c_in (rw_conn w') = b" "P qs (rw_out w')" by simp_all
    have "conn.brep (c_in (rw_conn w')) (concat (map plain_wire qs)) EOF" "P qs (c_out (rw_conn w'))"
      using w(2) w' by (simp_all add: rw_out_def)
    from Cons.IH [OF this(1) ok(2) f(2) this(2)] obtain k en c' where
      k: "serve lib handler addr f (rw_conn w') = Some (map (plain_parsed lib addr) (take k qs), en, c')"
      "en = ConnClosed \<and> k = length qs \<and> P [] (c_out c') \<or> en = ConnLeft \<and> 0 < k \<and> k \<le> length qs \<and> Q (qs ! (k - 1))"
      by blast
    have "serve lib handler addr fuel c = Some (map (plain_parsed lib addr) (take (Suc k) (q # qs)), en, c')"
      using w(1) Done k(1) by (simp add: f(1))
    with k(2) show ?thesis by (intro exI [of _ "Suc k"] exI [of _ en] exI [of _ c']) auto
  qed
qed

text \<open>C2: Pipelined requests without a body (no \<open>Encapsulated\<close> field) are handed to the handler one by one, in the order
  they were sent and each exactly as sent, whatever the segmentation. The handler may write anything, and whenever it
  returns it has left the input alone. After the last request the connection is closed, unless the handler panics: then
  the requests up to and including the one it panicked on have been handed over, and the connection is left as it is.\<close>

theorem pipelined_requests_served:
  assumes "list_all (plain_ok lib) qs"
    and "\<forall>w req w'. bind_outcome (handler w req) (finish_request lib) = Done w' \<longrightarrow> c_in (rw_conn w') = c_in (rw_conn w)"
    and "conn_pending (c_in c) = concat (map plain_wire qs)" and "length (rbuf (c_in c)) \<le> buf_size"
    and "net_err (under (c_in c)) = EOF" and "length qs < fuel"
  shows "\<exists>k end c'. serve lib handler addr fuel c = Some (map (plain_parsed lib addr) (take k qs), end, c') \<and>
    (end = ConnClosed \<and> k = length qs \<or>
     end = ConnLeft \<and> 0 < k \<and> k \<le> length qs \<and>
       (\<exists>w s. bind_outcome (handler w (plain_parsed lib addr (qs ! (k - 1)))) (finish_request lib) = Panic s))"
proof -
  let ?Q = "\<lambda>q. \<exists>w s. bind_outcome (handler w (plain_parsed lib addr q)) (finish_request lib) = Panic s"
  have b: "conn.brep (c_in c) (concat (map plain_wire qs)) EOF"
    using assms(3-5) by (simp add: conn_brep_iff)
  have step: "case bind_outcome (handler w (plain_parsed lib addr q)) (finish_request lib) of
      Panic s \<Rightarrow> ?Q q | Done w' \<Rightarrow> c_in (rw_conn w') = c_in (rw_conn w) \<and> True" for w q
    using assms(2) by (cases "bind_outcome (handler w (plain_parsed lib addr q)) (finish_request lib)") auto
  note loop = serve_plain [OF b assms(1,6), where P = "\<lambda>qs bs. True" and Q = ?Q and handler = handler and addr = addr]
  from loop [OF TrueI step] show ?thesis by blast
qed

lemma pipelined_requests_served_witness:
  "\<exists>c'. serve sample_lib (\<lambda>w r. Done (write_raw ''hi'' w)) ''10.0.0.1'' 3
       (new_conn \<lparr>segs = [''OPTIONS /a ICAP/1.0'' @ crlf @ [CR], [LF] @ ''OPTIONS /b'', '' ICAP/1.0'' @ crlf @ crlf],
          net_err = EOF\<rparr>) =
     Some (map (plain_parsed sample_lib ''10.0.0.1'')
       [(''OPTIONS'', ''/a'', ''ICAP/1.0'', []), (''OPTIONS'', ''/b'', ''ICAP/1.0'', [])], ConnClosed, c')"
proof -
  let ?qs = "[(''OPTIONS'', ''/a'', ''ICAP/1.0'', []), (''OPTIONS'', ''/b'', ''ICAP/1.0'', [])]"
  let ?h = "\<lambda>w r. Done (write_raw ''hi'' w)"
  let ?c = "new_conn \<lparr>segs = [''OPTIONS /a ICAP/1.0'' @ crlf @ [CR], [LF] @ ''OPTIONS /b'', '' ICAP/1.0'' @ crlf @ crlf],
      net_err = EOF\<rparr>"
  have ok: "list_all (plain_ok sample_lib) ?qs"
    by (simp add: plain_ok_def good_head_def sample_lib_def mime_map_def)
  have d: "\<exists>w'. bind_outcome (?h w req) (finish_request sample_lib) = Done w' \<and> c_in (rw_conn w') = c_in (rw_conn w)"
    for w :: resp_writer and req :: icap_request
    by (simp add: finish_request_def write_raw_def rw_emit_def write_header_def Let_def)
  then have h: "\<forall>w req w'. bind_outcome (?h w req) (finish_request sample_lib) = Done w' \<longrightarrow> c_in (rw_conn w') = c_in (rw_conn w)"
    by (metis outcome.inject(1))
  have c: "conn_pending (c_in ?c) = concat (map plain_wire ?qs)" "length (rbuf (c_in ?c)) \<le> buf_size" "net_err (under (c_in ?c)) = EOF"
    "length ?qs < 3"
    by (simp_all add: new_conn_def conn_pending_def plain_wire_def icap_wire_def mime_wire_def)
  have n: "bind_outcome (?h w req) (finish_request sample_lib) \<noteq> Panic s" for w :: resp_writer and req :: icap_request and s
    using d by (metis outcome.distinct(1))
  from pipelined_requests_served [where handler = ?h and addr = "''10.0.0.1''", OF ok h c] n show ?thesis by auto
qed

text \<open>A panic of the handler ends the loop without closing the connection: it is recovered, the
  requests behind it are never read, and the peer is left with an open connection.\<close>

theorem handler_panic_leaves_connection:
  assumes "conn_read_request lib addr c = Done (Inr (req, w), c1)" and "handler w req = Panic s"
  shows "serve lib handler addr (Suc fuel) c = Some ([req], ConnLeft, c1)"
  using assms by simp

lemma handler_panic_leaves_connection_witness:
  "\<exists>req c1. serve sample_lib (\<lambda>w r. Panic ''nil'') ''10.0.0.1'' (Suc 1)
       (new_conn \<lparr>segs = [''OPTIONS /a ICAP/1.0'' @ crlf @ crlf @ ''OPTIONS /b ICAP/1.0'' @ crlf @ crlf], net_err = EOF\<rparr>) =
     Some ([req], ConnLeft, c1)"
proof -
  let ?c = "new_conn \<lparr>segs = [''OPTIONS /a ICAP/1.0'' @ crlf @ crlf @ ''OPTIONS /b ICAP/1.0'' @ crlf @ crlf], net_err = EOF\<rparr>"
  let ?q = "(''OPTIONS'', ''/a'', ''ICAP/1.0'', [])"
  have ok: "plain_ok sample_lib ?q"
    by (simp add: plain_ok_def good_head_def sample_lib_def mime_map_def)
  have "conn.brep (c_in ?c) (plain_wire ?q @ ''OPTIONS /b ICAP/1.0'' @ crlf @ crlf) EOF"
    by (simp add: conn_brep_iff new_conn_def conn_pending_def plain_wire_def icap_wire_def mime_wire_def)
  from plain_read [OF this ok] obtain b req where
    "read_icap_request sample_lib (c_in ?c) = Done (Inr req, b)" by blast
  then obtain req' w c1 where "conn_read_request sample_lib ''10.0.0.1'' ?c = Done (Inr (req', w), c1)"
    by (simp add: conn_read_request_def Let_def)
  from handler_panic_leaves_connection [OF this, of "\<lambda>w r. Panic ''nil''"] show ?thesis by blast
qed

end
