(* ===== verification/Config.thy ===== *)
theory Config
  imports Services
begin

text \<open>
  \<open>readValues\<close>, \<open>config/config.go\<close> and the configuration of the services: how settings are read, from
  the TOML file or from the environment, what \<open>config.Init\<close> accepts, and what each service loads.

  The TOML library and the process environment are parameters. A bad setting ends the process with a
  message (\<open>Exited\<close>); an index out of range panics (\<open>Crashed\<close>).
\<close>

section \<open>Starting or ending\<close>

datatype 'a startup = Started 'a | Exited string | Crashed string

definition and_then :: "'a startup \<Rightarrow> ('a \<Rightarrow> 'b startup) \<Rightarrow> 'b startup" where
  "and_then m f = (case m of Started x \<Rightarrow> f x | Exited msg \<Rightarrow> Exited msg | Crashed msg \<Rightarrow> Crashed msg)"

lemma and_then_simps [simp]:
  "and_then (Started x) f = f x"
  "and_then (Exited msg) f = Exited msg"
  "and_then (Crashed msg) f = Crashed msg"
  by (simp_all add: and_then_def)

lemma and_then_Started_iff: "and_then m f = Started y \<longleftrightarrow> (\<exists>x. m = Started x \<and> f x = Started y)"
  by (cases m) auto

section \<open>Reading a setting\<close>

text \<open>What the TOML library answers for a dotted name, in each type, the environment, and the library that
  parses durations written as text.\<close>

record settings =
  st_read_error :: "string option"
  st_is_set :: "string \<Rightarrow> bool"
  st_string :: "string \<Rightarrow> string"
  st_int :: "string \<Rightarrow> int"
  st_bool :: "string \<Rightarrow> bool"
  st_slice :: "string \<Rightarrow> string list"
  st_duration :: "string \<Rightarrow> int"
  st_parse_duration :: "string \<Rightarrow> int"
  st_env :: "string \<Rightarrow> string"

definition read_int_from_env :: "settings \<Rightarrow> string \<Rightarrow> int" where
  "read_int_from_env s name = fst (atoi (st_env s name))"

text \<open>\<open>strconv.ParseBool\<close>, without its error: everything else is false.\<close>

definition read_bool_from_env :: "settings \<Rightarrow> string \<Rightarrow> bool" where
  "read_bool_from_env s name =
     (st_env s name \<in> {''1'', ''t'', ''T'', ''TRUE'', ''true'', ''True''})"

definition read_slice_from_env :: "settings \<Rightarrow> string \<Rightarrow> string list startup" where
  "read_slice_from_env s name =
     (let result = filter (\<lambda>c. c \<noteq> CHR 0x22) (filter (\<lambda>c. c \<noteq> SP) (st_env s name));
          arr = split result '',''
      in if arr ! 0 = [] then Crashed ''slice bounds out of range''
         else
           (let arr1 = arr[0 := drop 1 (arr ! 0)];
                temp = last arr1
            in if temp = [] then Crashed ''slice bounds out of range''
               else Started (arr1[length arr1 - 1 := take (length temp - 1) temp])))"

text \<open>The scheme of the \<open>ReadValues\<close> functions: \<open>$_NAME\<close> refers to the environment, anything else must be
  set in the file.\<close>

definition read_value :: "settings \<Rightarrow> (string \<Rightarrow> 'a startup) \<Rightarrow> (string \<Rightarrow> 'a) \<Rightarrow> string \<Rightarrow> 'a startup" where
  "read_value s from_env from_file name =
     (case st_read_error s of
        Some err \<Rightarrow> Exited err
      | None \<Rightarrow>
          (if has_prefix (st_string s name) ''$_'' then from_env (drop 2 (st_string s name))
           else if \<not> st_is_set s name then Exited (name @ '' doesn'' @ QUOTE # ''t exist in config.go file'')
           else Started (from_file name)))"

definition read_values_int :: "settings \<Rightarrow> string \<Rightarrow> int startup" where
  "read_values_int s = read_value s (\<lambda>n. Started (read_int_from_env s n)) (st_int s)"

definition read_values_string :: "settings \<Rightarrow> string \<Rightarrow> string startup" where
  "read_values_string s = read_value s (\<lambda>n. Started (st_env s n)) (st_string s)"

definition read_values_bool :: "settings \<Rightarrow> string \<Rightarrow> bool startup" where
  "read_values_bool s = read_value s (\<lambda>n. Started (read_bool_from_env s n)) (st_bool s)"

definition read_values_slice :: "settings \<Rightarrow> string \<Rightarrow> string list startup" where
  "read_values_slice s = read_value s (read_slice_from_env s) (st_slice s)"

definition read_values_duration :: "settings \<Rightarrow> string \<Rightarrow> int startup" where
  "read_values_duration s = read_value s (\<lambda>n. Started (st_parse_duration s (st_env s n))) (st_duration s)"

section \<open>The application configuration\<close>

record service_icap_info =
  si_vendor :: string
  si_service_caption :: string
  si_service_tag :: string
  si_req_mode :: bool
  si_resp_mode :: bool
  si_shadow_service :: bool
  si_preview_enabled :: bool
  si_preview_bytes :: string

record app_config =
  ac_port :: int
  ac_log_level :: string
  ac_write_logs :: bool
  ac_debugging_headers :: bool
  ac_services :: "string list"
  ac_instances :: "(string \<times> service_icap_info) list"

text \<open>
  The loop over one array of extensions: \<open>whole\<close> is the array, the state the extensions seen so far in any
  array and the number of asterisks.
\<close>

fun check_extensions :: "string \<Rightarrow> (string \<Rightarrow> string) \<Rightarrow> string list \<Rightarrow> string list \<Rightarrow> string list \<times> nat \<Rightarrow>
    (string list \<times> nat) startup" where
  "check_extensions asterisk_msg twice_msg whole [] st = Started st"
| "check_extensions asterisk_msg twice_msg whole (x # xs) (seen, asterisks) =
     (if x = ''*'' \<and> length whole \<noteq> 1 then Exited asterisk_msg
      else
        (let asterisks1 = (if x = ''*'' then Suc asterisks else asterisks)
         in if x \<notin> set seen then check_extensions asterisk_msg twice_msg whole xs (x # seen, asterisks1)
            else Exited (twice_msg x)))"

definition quoted :: "string \<Rightarrow> string" where
  "quoted s = CHR 0x22 # s @ [CHR 0x22]"

definition asterisk_message :: "string \<Rightarrow> string" where
  "asterisk_message array = array @ '' array has one asterisk '' @ quoted ''*'' @
     '' and other extensions but asterisk should be the only element in the array otherwise add extensions as you want''"

definition twice_message :: "string \<Rightarrow> string" where
  "twice_message x = ''This extension '' @ quoted x @ '' is stored in multiple arrays''"

definition bypass_twice_message :: "string \<Rightarrow> string" where
  "bypass_twice_message x = ''This extension '' @ quoted x @
     '' was stored in multiple arrays (bypass_extensions or reject_extensions)''"

text \<open>The extension arrays of one service, in the order bypass, process, reject.\<close>

definition check_arrays :: "settings \<Rightarrow> string \<Rightarrow> unit startup" where
  "check_arrays s name =
     and_then (read_values_slice s (name @ ''.bypass_extensions'')) (\<lambda>bypass.
     and_then (check_extensions (asterisk_message ''bypass_extensions'') bypass_twice_message bypass bypass ([], 0)) (\<lambda>st1.
     and_then (read_values_slice s (name @ ''.process_extensions'')) (\<lambda>process.
     and_then (check_extensions (asterisk_message ''process_extensions'') twice_message process process st1) (\<lambda>st2.
     and_then (read_values_slice s (name @ ''.reject_extensions'')) (\<lambda>reject.
     and_then (check_extensions (asterisk_message ''reject_extensions'') twice_message reject reject st2) (\<lambda>st3.
       if snd st3 \<noteq> 1 then Exited (''There is no '' @ quoted ''*'' @ '' stored in any extension arrays'')
       else Started ()))))))"

definition check_service :: "settings \<Rightarrow> string \<Rightarrow> unit startup" where
  "check_service s name =
     (if \<not> st_is_set s name then Exited (name @ '' section doesn'' @ QUOTE # ''t exist'')
      else
        and_then (read_values_bool s (name @ ''.req_mode'')) (\<lambda>req.
        and_then (if req then Started True else read_values_bool s (name @ ''.resp_mode'')) (\<lambda>either_mode.
        if \<not> either_mode
        then Exited (''Request mode and response mode are disabled together in '' @ name @ '' service'')
        else
          and_then (read_values_int s (name @ ''.max_filesize'')) (\<lambda>max_filesize.
          if max_filesize < 0 then Exited ''max_filesize value in config.toml file is not valid''
          else check_arrays s name))))"

definition read_instance :: "settings \<Rightarrow> string \<Rightarrow> service_icap_info startup" where
  "read_instance s name =
     and_then (read_values_string s (name @ ''.vendor'')) (\<lambda>vendor.
     and_then (read_values_string s (name @ ''.service_tag'')) (\<lambda>tag.
     and_then (read_values_string s (name @ ''.service_caption'')) (\<lambda>caption.
     and_then (read_values_bool s (name @ ''.req_mode'')) (\<lambda>req.
     and_then (read_values_bool s (name @ ''.resp_mode'')) (\<lambda>resp.
     and_then (read_values_bool s (name @ ''.shadow_service'')) (\<lambda>shadow.
     and_then (read_values_string s (name @ ''.preview_bytes'')) (\<lambda>bytes.
     and_then (read_values_bool s (name @ ''.preview_enabled'')) (\<lambda>preview.
     Started \<lparr>si_vendor = vendor, si_service_caption = caption, si_service_tag = tag, si_req_mode = req,
              si_resp_mode = resp, si_shadow_service = shadow, si_preview_enabled = preview,
              si_preview_bytes = bytes\<rparr>))))))))"

fun init_services :: "settings \<Rightarrow> string list \<Rightarrow> (string \<times> service_icap_info) list \<Rightarrow>
    (string \<times> service_icap_info) list startup" where
  "init_services s [] insts = Started insts"
| "init_services s (name # names) insts =
     and_then (check_service s name) (\<lambda>_.
     and_then (read_instance s name) (\<lambda>i.
     init_services s names (AList.update name i insts)))"

text \<open>\<open>Init\<close>.\<close>

definition config_init :: "settings \<Rightarrow> app_config startup" where
  "config_init s =
     and_then (read_values_int s ''app.port'') (\<lambda>port.
     and_then (read_values_string s ''app.log_level'') (\<lambda>level.
     and_then (read_values_bool s ''app.write_logs_to_console'') (\<lambda>console.
     and_then (read_values_bool s ''app.debugging_headers'') (\<lambda>debugging.
     and_then (read_values_slice s ''app.services'') (\<lambda>services.
     and_then (init_services s services []) (\<lambda>insts.
     Started \<lparr>ac_port = port, ac_log_level = level, ac_write_logs = console, ac_debugging_headers = debugging,
              ac_services = services, ac_instances = insts\<rparr>))))))"

section \<open>What a service loads\<close>

definition read_limits :: "settings \<Rightarrow> string \<Rightarrow> svc_config startup" where
  "read_limits s name =
     and_then (read_values_int s (name @ ''.max_filesize'')) (\<lambda>max_filesize.
     and_then (read_values_slice s (name @ ''.bypass_extensions'')) (\<lambda>bypass.
     and_then (read_values_slice s (name @ ''.process_extensions'')) (\<lambda>process.
     and_then (read_values_slice s (name @ ''.reject_extensions'')) (\<lambda>reject.
     Started \<lparr>sc_max_file_size = max_filesize, sc_bypass_exts = bypass, sc_process_exts = process,
              sc_reject_exts = reject, sc_ext_arrs = init_exts_arr process reject bypass, sc_return_orig = False,
              sc_return_400 = False, sc_bypass_on_api_error = False, sc_block_code = 0, sc_block_body = False,
              sc_exception_page = [], sc_scan_url = [], sc_timeout = 0\<rparr>))))"

definition read_echo_config :: "settings \<Rightarrow> string \<Rightarrow> svc_config startup" where
  "read_echo_config s name =
     and_then (read_limits s name) (\<lambda>cfg.
     and_then (read_values_bool s (name @ ''.return_original_if_max_file_size_exceeded'')) (\<lambda>orig.
     and_then (read_values_bool s (name @ ''.return_400_if_file_ext_rejected'')) (\<lambda>r400.
     Started (cfg\<lparr>sc_return_orig := orig, sc_return_400 := r400\<rparr>))))"

text \<open>
  What both scanners load at the end. \<open>bypass_on_api_error\<close> is asked of the environment under its dotted
  name, not of the file.
\<close>

definition read_block_config :: "settings \<Rightarrow> string \<Rightarrow> svc_config \<Rightarrow> svc_config startup" where
  "read_block_config s name cfg =
     and_then (read_values_bool s (name @ ''.return_400_if_file_ext_rejected'')) (\<lambda>r400.
     and_then (read_values_bool s (name @ ''.verify_server_cert'')) (\<lambda>verify.
     and_then (read_values_int s (name @ ''.http_exception_response_code'')) (\<lambda>code.
     and_then (read_values_bool s (name @ ''.http_exception_has_body'')) (\<lambda>has_body.
     and_then (read_values_string s (name @ ''.exception_page'')) (\<lambda>page.
     Started (cfg\<lparr>sc_return_400 := r400,
                  sc_bypass_on_api_error := read_bool_from_env s (name @ ''.bypass_on_api_error''),
                  sc_block_code := nat code, sc_block_body := has_body, sc_exception_page := page\<rparr>))))))"

definition read_hashlookup_config :: "settings \<Rightarrow> string \<Rightarrow> svc_config startup" where
  "read_hashlookup_config s name =
     and_then (read_limits s name) (\<lambda>cfg.
     and_then (read_values_string s (name @ ''.scan_url'')) (\<lambda>u.
     and_then (read_values_duration s (name @ ''.timeout'')) (\<lambda>timeout.
     and_then (read_values_bool s (name @ ''.return_original_if_max_file_size_exceeded'')) (\<lambda>orig.
     read_block_config s name (cfg\<lparr>sc_scan_url := u, sc_return_orig := orig, sc_timeout := word_of_int timeout\<rparr>)))))"

definition read_clamav_config :: "settings \<Rightarrow> string \<Rightarrow> svc_config startup" where
  "read_clamav_config s name =
     and_then (read_limits s name) (\<lambda>cfg.
     and_then (read_values_bool s (name @ ''.return_original_if_max_file_size_exceeded'')) (\<lambda>orig.
     and_then (read_values_string s (name @ ''.socket_path'')) (\<lambda>socket.
     and_then (read_values_duration s (name @ ''.timeout'')) (\<lambda>timeout.
     read_block_config s name (cfg\<lparr>sc_return_orig := orig, sc_timeout := word_of_int timeout * second\<rparr>)))))"

text \<open>What a service of this vendor loads.\<close>

definition read_svc_config :: "settings \<Rightarrow> string \<Rightarrow> string \<Rightarrow> svc_config startup" where
  "read_svc_config s vendor name =
     (if vendor = ''clhashlookup'' then read_hashlookup_config s name
      else if vendor = ''clamav'' then read_clamav_config s name
      else read_echo_config s name)"

section \<open>What start-up guarantees\<close>

lemma check_extensions_Started:
  assumes "check_extensions am tm whole xs (seen, k) = Started (seen', k')"
  shows "distinct xs \<and> set xs \<inter> set seen = {} \<and> set seen' = set seen \<union> set xs \<and>
    k' = k + count_list xs ''*'' \<and> (''*'' \<in> set xs \<longrightarrow> length whole = 1)"
  using assms
proof (induction am tm whole xs "(seen, k)" arbitrary: seen k rule: check_extensions.induct)
  case (2 am tm whole x xs seen k)
  from 2(2) have c: "\<not> (x = ''*'' \<and> length whole \<noteq> 1)" "x \<notin> set seen"
    and rest: "check_extensions am tm whole xs (x # seen, if x = ''*'' then Suc k else k) = Started (seen', k')"
    by (auto simp: Let_def split: if_splits)
  from 2(1) [OF c(1) refl c(2) rest] c show ?case by auto
qed auto

lemma check_arrays_valid:
  assumes "check_arrays s name = Started u"
  shows "\<exists>pe re be. read_values_slice s (name @ ''.process_extensions'') = Started pe \<and>
    read_values_slice s (name @ ''.reject_extensions'') = Started re \<and>
    read_values_slice s (name @ ''.bypass_extensions'') = Started be \<and> valid_ext_config pe re be"
proof -
  obtain be st1 pe st2 re st3 where
    be: "read_values_slice s (name @ ''.bypass_extensions'') = Started be"
      "check_extensions (asterisk_message ''bypass_extensions'') bypass_twice_message be be ([], 0) = Started st1" and
    pe: "read_values_slice s (name @ ''.process_extensions'') = Started pe"
      "check_extensions (asterisk_message ''process_extensions'') twice_message pe pe st1 = Started st2" and
    re: "read_values_slice s (name @ ''.reject_extensions'') = Started re"
      "check_extensions (asterisk_message ''reject_extensions'') twice_message re re st2 = Started st3" and
    one: "snd st3 = 1"
    using assms unfolding check_arrays_def and_then_Started_iff
    by (elim exE conjE) (rule that, assumption+, simp split: if_splits)
  obtain s1 k1 s2 k2 s3 k3 where st: "st1 = (s1, k1)" "st2 = (s2, k2)" "st3 = (s3, k3)"
    by (cases st1, cases st2, cases st3)
  note c = check_extensions_Started [OF be(2) [unfolded st]] check_extensions_Started [OF pe(2) [unfolded st]]
    check_extensions_Started [OF re(2) [unfolded st]]
  have d: "distinct (pe @ re @ be)" and n: "k3 = count_list be ''*'' + count_list pe ''*'' + count_list re ''*''"
    and a: "\<forall>l \<in> set [pe, re, be]. ''*'' \<in> set l \<longrightarrow> length l = 1"
    using c by auto
  have a': "\<forall>l \<in> set [pe, re, be]. ''*'' \<in> set l \<longrightarrow> l = [''*'']"
  proof (intro ballI impI)
    fix l assume l: "l \<in> set [pe, re, be]" "''*'' \<in> set l"
    then obtain x where "l = [x]" using a by (auto simp: length_Suc_conv)
    with l show "l = [''*'']" by simp
  qed
  have "''*'' \<in> set pe \<or> ''*'' \<in> set re \<or> ''*'' \<in> set be"
    using one n st(3) count_notin [of "''*''"] by (metis One_nat_def add_0 snd_conv zero_neq_one)
  with a' have "pe = [''*''] \<or> re = [''*''] \<or> be = [''*'']" by (metis list.set_intros)
  with d a' have "valid_ext_config pe re be" by (simp only: valid_ext_config_def)
  with be(1) pe(1) re(1) show ?thesis by blast
qed

lemma check_service_arrays:
  assumes "check_service s name = Started u"
  shows "check_arrays s name = Started ()"
  using assms unfolding check_service_def by (auto simp: and_then_Started_iff split: if_splits)

lemma check_service_modes:
  assumes "check_service s name = Started u" and "read_instance s name = Started i"
  shows "si_req_mode i \<or> si_resp_mode i"
proof -
  obtain req either where "read_values_bool s (name @ ''.req_mode'') = Started req"
    "(if req then Started True else read_values_bool s (name @ ''.resp_mode'')) = Started either" "either"
    using assms(1) unfolding check_service_def by (auto simp: and_then_Started_iff split: if_splits)
  moreover have "read_values_bool s (name @ ''.req_mode'') = Started (si_req_mode i)"
    "read_values_bool s (name @ ''.resp_mode'') = Started (si_resp_mode i)"
    using assms(2) unfolding read_instance_def by (auto simp: and_then_Started_iff)
  ultimately show ?thesis by (auto split: if_splits)
qed

lemma init_services_all:
  assumes "init_services s names insts = Started insts'"
  shows "(\<forall>name \<in> set names. check_service s name = Started () \<and>
            (\<exists>i. read_instance s name = Started i \<and> map_of insts' name = Some i)) \<and>
         (\<forall>name. name \<notin> set names \<longrightarrow> map_of insts' name = map_of insts name)"
  using assms
proof (induction s names insts rule: init_services.induct)
  case (2 s name names insts)
  then obtain u i where r: "check_service s name = Started u" "read_instance s name = Started i"
    "init_services s names (AList.update name i insts) = Started insts'"
    by (auto simp: and_then_Started_iff)
  from 2(1) [OF r(3)] r(1,2) show ?case by (cases "name \<in> set names") (auto simp: update_conv')
qed simp

lemma read_svc_config_arrays:
  assumes "read_svc_config s vendor name = Started c"
  shows "read_values_slice s (name @ ''.process_extensions'') = Started (sc_process_exts c)"
    and "read_values_slice s (name @ ''.reject_extensions'') = Started (sc_reject_exts c)"
    and "read_values_slice s (name @ ''.bypass_extensions'') = Started (sc_bypass_exts c)"
    and "sc_ext_arrs c = init_exts_arr (sc_process_exts c) (sc_reject_exts c) (sc_bypass_exts c)"
  using assms
  unfolding read_svc_config_def read_echo_config_def read_hashlookup_config_def read_clamav_config_def
    read_block_config_def read_limits_def
  by (auto simp: and_then_Started_iff split: if_splits)

section \<open>Properties\<close>

text \<open>C12: When the server starts, every service it lists has an enabled mode, and what the service loads
  decides every file: the list that names its extension, and otherwise the list with the asterisk.\<close>

theorem configured_services_decide:
  assumes "config_init s = Started cfg" and "name \<in> set (ac_services cfg)"
    and "read_svc_config s vendor name = Started c" and "fe \<noteq> ''*''"
  shows "(\<exists>i. map_of (ac_instances cfg) name = Some i \<and> (si_req_mode i \<or> si_resp_mode i)) \<and>
    ext_decision fe (sc_process_exts c) (sc_reject_exts c) (sc_bypass_exts c) (sc_ext_arrs c) =
      Some (if fe \<in> set (sc_process_exts c) then ''process'' else if fe \<in> set (sc_reject_exts c) then ''reject''
            else if fe \<in> set (sc_bypass_exts c) then ''bypass''
            else if sc_process_exts c = [''*''] then ''process''
            else if sc_reject_exts c = [''*''] then ''reject'' else ''bypass'')"
proof -
  have "init_services s (ac_services cfg) [] = Started (ac_instances cfg)"
    using assms(1) unfolding config_init_def by (auto simp: and_then_Started_iff)
  from init_services_all [OF this] assms(2) obtain i
    where i: "check_service s name = Started ()" "read_instance s name = Started i"
      "map_of (ac_instances cfg) name = Some i" by blast
  obtain pe re be where a: "read_values_slice s (name @ ''.process_extensions'') = Started pe"
    "read_values_slice s (name @ ''.reject_extensions'') = Started re"
    "read_values_slice s (name @ ''.bypass_extensions'') = Started be" "valid_ext_config pe re be"
    using check_arrays_valid [OF check_service_arrays [OF i(1)]] by blast
  note c = read_svc_config_arrays [OF assms(3)]
  from a c(1-3) have "valid_ext_config (sc_process_exts c) (sc_reject_exts c) (sc_bypass_exts c)" by simp
  from extension_decision [OF this assms(4)] check_service_modes [OF i(1,2)] i(3) c(4) show ?thesis by auto
qed

text \<open>An array as the comments of \<open>config.toml\<close> say it is to be put into the environment.\<close>

definition env_array :: "string list \<Rightarrow> string" where
  "env_array xs = ''['' @ join (map quoted xs) '', '' @ '']''"

lemma filter_join_quoted:
  assumes "\<forall>x \<in> set xs. SP \<notin> set x \<and> CHR 0x22 \<notin> set x"
  shows "filter (\<lambda>c. c \<noteq> CHR 0x22) (filter (\<lambda>c. c \<noteq> SP) (join (map quoted xs) '', '')) = join xs '',''"
proof -
  have q: "filter (\<lambda>c. c \<noteq> CHR 0x22) (filter (\<lambda>c. c \<noteq> SP) (quoted x)) = x" if "x \<in> set xs" for x
  proof -
    have "\<forall>c \<in> set x. c \<noteq> SP \<and> c \<noteq> CHR 0x22" using assms that by auto
    then show ?thesis by (simp add: quoted_def)
  qed
  have "\<forall>x \<in> set ys. filter (\<lambda>c. c \<noteq> CHR 0x22) (filter (\<lambda>c. c \<noteq> SP) (quoted x)) = x \<Longrightarrow>
      filter (\<lambda>c. c \<noteq> CHR 0x22) (filter (\<lambda>c. c \<noteq> SP) (join (map quoted ys) '', '')) = join ys '',''" for ys
    by (induction ys "'', ''" rule: join.induct) (simp_all del: filter_filter)
  with q show ?thesis by blast
qed

lemma join_prefix_first: "join ((a @ x) # xs) sep = a @ join (x # xs) sep"
  by (cases xs) simp_all

lemma join_suffix_last: "join (xs @ [y @ b]) sep = join (xs @ [y]) sep @ b"
  by (induction xs sep rule: join.induct) simp_all

text \<open>An array written into the environment comes back as it was, but for the empty one: it is read as an
  array of one empty string, so that a second empty array of the same service ends the process.\<close>

theorem env_slice_roundtrip:
  assumes "\<forall>x \<in> set xs. SP \<notin> set x \<and> CHR 0x22 \<notin> set x \<and> CHR '','' \<notin> set x" and "st_env s name = env_array xs"
  shows "read_slice_from_env s name = Started (if xs = [] then [[]] else xs)"
proof -
  have f: "filter (\<lambda>c. c \<noteq> CHR 0x22) (filter (\<lambda>c. c \<noteq> SP) (st_env s name)) = ''['' @ join xs '','' @ '']''"
    using filter_join_quoted [of xs] assms by (simp add: env_array_def del: filter_filter)
  show ?thesis
  proof (cases xs rule: rev_cases)
    case Nil
    then show ?thesis using f by (simp add: read_slice_from_env_def Let_def split_char_single)
  next
    case (snoc ys y)
    have "split (''['' @ join xs '','' @ '']'') '','' =
        (if ys = [] then [''['' @ y @ '']''] else (''['' @ hd ys) # tl ys @ [y @ '']''])"
    proof (cases ys)
      case (Cons h zs)
      have j: "''['' @ join xs '','' @ '']'' = join ((''['' @ h) # zs @ [y @ '']'']) '',''"
        using join_suffix_last [of "(''['' @ h) # zs" y "'']''" "'',''"]
          join_prefix_first [of "''[''" h "zs @ [y]" "'',''"] snoc Cons by simp
      have "split (join ((''['' @ h) # zs @ [y @ '']'']) '','') '','' = (''['' @ h) # zs @ [y @ '']'']"
        by (rule split_join) (use assms(1) snoc Cons in auto)
      then show ?thesis unfolding j using Cons by simp
    qed (use assms(1) snoc in \<open>simp add: split_char_single\<close>)
    then show ?thesis using f snoc by (cases ys) (simp_all add: read_slice_from_env_def Let_def nth_append)
  qed
qed

definition sample_settings :: "string \<Rightarrow> settings" where
  "sample_settings v = \<lparr>st_read_error = None, st_is_set = \<lambda>n. True,
     st_string = \<lambda>n. if n = ''app.services'' then ''$_SERVICES'' else v, st_int = \<lambda>n. 0, st_bool = \<lambda>n. True,
     st_slice = \<lambda>n. if n = ''scan.process_extensions'' then [''*'']
                    else if n = ''scan.reject_extensions'' then [''exe''] else [''pdf''],
     st_duration = \<lambda>n. 0, st_parse_duration = \<lambda>v. 0, st_env = \<lambda>n. env_array [''scan'']\<rparr>"

lemma sample_starts:
  "(case config_init (sample_settings ''clamav'') of Started cfg \<Rightarrow> ac_services cfg = [''scan''] | _ \<Rightarrow> False) \<and>
   (case read_svc_config (sample_settings ''clamav'') ''clamav'' ''scan'' of
      Started c \<Rightarrow> sc_process_exts c = [''*''] \<and> sc_reject_exts c = [''exe''] \<and> sc_bypass_exts c = [''pdf''] | _ \<Rightarrow> False)"
  by code_simp

lemma configured_services_decide_witness:
  "\<exists>cfg c. config_init (sample_settings ''clamav'') = Started cfg \<and>
     read_svc_config (sample_settings ''clamav'') ''clamav'' ''scan'' = Started c \<and>
     ext_decision ''exe'' (sc_process_exts c) (sc_reject_exts c) (sc_bypass_exts c) (sc_ext_arrs c) = Some ''reject''"
proof -
  obtain cfg c where r: "config_init (sample_settings ''clamav'') = Started cfg" "ac_services cfg = [''scan'']"
    "read_svc_config (sample_settings ''clamav'') ''clamav'' ''scan'' = Started c"
    "sc_process_exts c = [''*'']" "sc_reject_exts c = [''exe'']"
    using sample_starts by (auto split: startup.splits)
  from configured_services_decide [OF r(1) _ r(3), of "''exe''"] r show ?thesis by auto
qed

lemma env_slice_roundtrip_witness:
  "read_slice_from_env (sample_settings []) ''SERVICES'' = Started [''scan''] \<and>
   read_slice_from_env ((sample_settings []) \<lparr>st_env := \<lambda>n. env_array []\<rparr>) ''X'' = Started [[]]"
  using env_slice_roundtrip [of "[''scan'']" "sample_settings []" "''SERVICES''"]
    env_slice_roundtrip [of "[]" "(sample_settings []) \<lparr>st_env := \<lambda>n. env_array []\<rparr>" "''X''"]
  by (simp add: sample_settings_def)

end
