(* ===== verification/ApiRequest.thy ===== *)
theory ApiRequest
  imports Services Business IcapServer Config
begin

text \<open>
  \<open>api/icap-request.go\<close> and \<open>api/icap.go\<close>: what happens between the multiplexer and the services. A
  request is initialised (service, method, headers, shadow mode), its body is loaded, the business logic
  and the service are asked, and their verdict becomes the ICAP response.

  The state is the \<open>ICAPRequest\<close> of the code with what the calls share: the response writer, which owns the
  connection, the request, the configurations of the services and the state of the business logic. The
  headers collected for the log are left out.
\<close>

section \<open>State\<close>

text \<open>
  \<open>ae_read vendor name\<close> is what the vendor's service loads, \<open>ae_first\<close> and \<open>ae_flush\<close> what the outside answers
  to the business logic when it is asked first and when a deferred recording is flushed.
\<close>

record api_env =
  ae_http :: http_lib
  ae_scan :: scan_lib
  ae_config :: app_config
  ae_read :: "string \<Rightarrow> string \<Rightarrow> svc_config"
  ae_business :: "business_handler option"
  ae_first :: business_env
  ae_flush :: business_env
  ae_metadata :: string

text \<open>
  \<open>ar_org_alias\<close>: \<open>OrgRequest\<close> is the request itself, because \<open>http.NewRequest\<close> refused to make another. Of
  \<open>OrgRequest\<close> only the body is read later.
\<close>

record api_request =
  ar_w :: resp_writer
  ar_req :: icap_request
  ar_204 :: bool
  ar_shadow :: bool
  ar_service :: string
  ar_method :: string
  ar_vendor :: string
  ar_business_applied :: bool
  ar_pending :: bool
  ar_org_alias :: bool
  ar_globals :: svc_globals
  ar_biz :: business_state

definition new_api_request :: "api_env \<Rightarrow> svc_globals \<Rightarrow> business_state \<Rightarrow> resp_writer \<Rightarrow> icap_request \<Rightarrow> api_request" where
  "new_api_request env g biz w req =
     \<lparr>ar_w = w, ar_req = req, ar_204 = False, ar_shadow = False, ar_service = [], ar_method = [], ar_vendor = [],
      ar_business_applied = False, ar_pending = False, ar_org_alias = False,
      ar_globals = fold (\<lambda>(name, inst). init_service_config (ae_read env (si_vendor inst)) (si_vendor inst) name)
                     (ac_instances (ae_config env)) g,
      ar_biz = biz\<rparr>"

section \<open>Small steps\<close>

text \<open>\<open>i.w.WriteHeader\<close>\<close>

definition answer :: "api_env \<Rightarrow> nat \<Rightarrow> http_msg \<Rightarrow> bool \<Rightarrow> api_request \<Rightarrow> api_request outcome" where
  "answer env code msg hasbody i =
     bind_outcome (write_header (ae_http env) code msg hasbody (ar_w i)) (\<lambda>w. Done (i\<lparr>ar_w := w\<rparr>))"

text \<open>\<open>i.h[key] = []string{value}\<close> and \<open>i.h.Set\<close>\<close>

definition put_header :: "string \<Rightarrow> string \<Rightarrow> api_request \<Rightarrow> api_request" where
  "put_header k v i = i\<lparr>ar_w := (ar_w i)\<lparr>rw_header := hput (rw_header (ar_w i)) k [v]\<rparr>\<rparr>"

definition set_header :: "string \<Rightarrow> string \<Rightarrow> api_request \<Rightarrow> api_request" where
  "set_header k v i = i\<lparr>ar_w := rw_set_header k v (ar_w i)\<rparr>"

definition set_conn :: "conn_io \<Rightarrow> api_request \<Rightarrow> api_request" where
  "set_conn c i = i\<lparr>ar_w := (ar_w i)\<lparr>rw_conn := c\<rparr>\<rparr>"

definition set_request :: "http_request option \<Rightarrow> api_request \<Rightarrow> api_request" where
  "set_request r i = i\<lparr>ar_req := (ar_req i)\<lparr>ir_request := r\<rparr>\<rparr>"

definition set_response :: "http_response option \<Rightarrow> api_request \<Rightarrow> api_request" where
  "set_response r i = i\<lparr>ar_req := (ar_req i)\<lparr>ir_response := r\<rparr>\<rparr>"

definition http_message_has_body :: "svc_msg \<Rightarrow> bool" where
  "http_message_has_body msg =
     (case msg of
        SvcRequest r \<Rightarrow> hget (rq_header r) ''Content-Length'' \<notin> {[], ''0''}
      | SvcResponse r \<Rightarrow> hget (rs_header r) ''Content-Length'' \<notin> {[], ''0''}
      | _ \<Rightarrow> False)"

text \<open>What \<open>WriteHeader\<close> makes of a message: anything but a request or a response is no message.\<close>

definition msg_of :: "svc_msg \<Rightarrow> http_msg" where
  "msg_of msg = (case msg of SvcRequest r \<Rightarrow> ReqMsg r | SvcResponse r \<Rightarrow> RespMsg r | _ \<Rightarrow> NoMsg)"

definition instance_of :: "api_env \<Rightarrow> string \<Rightarrow> service_icap_info outcome" where
  "instance_of env name =
     (case map_of (ac_instances (ae_config env)) name of None \<Rightarrow> Panic ''nil service'' | Some inst \<Rightarrow> Done inst)"

definition is_method_allowed :: "api_env \<Rightarrow> api_request \<Rightarrow> bool outcome" where
  "is_method_allowed env i =
     (if ar_method i = ''RESPMOD'' then bind_outcome (instance_of env (ar_service i)) (\<lambda>inst. Done (si_resp_mode inst))
      else if ar_method i = ''REQMOD'' then bind_outcome (instance_of env (ar_service i)) (\<lambda>inst. Done (si_req_mode inst))
      else Done (ar_method i = ''OPTIONS''))"

definition is_204_allowed :: "header \<Rightarrow> bool" where
  "is_204_allowed h \<longleftrightarrow> map_of h ''Allow'' \<noteq> None \<and> contains (hget h ''Allow'') ''204''"

definition call_of :: "api_env \<Rightarrow> api_request \<Rightarrow> svc_call" where
  "call_of env i = \<lparr>ca_service = ar_service i, ca_method = ar_method i, ca_metadata = ae_metadata env\<rparr>"

definition required_service :: "api_env \<Rightarrow> api_request \<Rightarrow> processing outcome" where
  "required_service env i =
     bind_outcome (get_service (ae_scan env) (ar_globals i) (ar_vendor i) (call_of env i)) (\<lambda>svc.
       case svc of None \<Rightarrow> Panic ''nil service'' | Some proc \<Rightarrow> Done proc)"

section \<open>Initialisation\<close>

text \<open>
  The shadow service answers before anything is looked at. Writing the message reads its body to the end,
  so that the code's second read, whose result becomes the body, finds nothing.
\<close>

definition shadow_service :: "api_env \<Rightarrow> api_request \<Rightarrow> api_request outcome" where
  "shadow_service env i =
     (let i1 = (if ac_debugging_headers (ae_config env) then put_header ''X-ICAPeg-Shadow-Service'' ''true'' i else i)
      in if ar_204 i1 then answer env 204 NoMsg False i1
         else if ir_method (ar_req i1) = ''REQMOD''
         then (case ir_request (ar_req i1) of
                 None \<Rightarrow> Panic ''nil request''
               | Some r \<Rightarrow>
                   bind_outcome (answer env 200 (ReqMsg r) True i1) (\<lambda>i2.
                   bind_outcome (rw_write (ae_http env) [] (ar_w i2)) (\<lambda>(n, err, w).
                   Done (set_request (Some (r\<lparr>rq_body := BytesBody []\<rparr>)) (i2\<lparr>ar_w := w\<rparr>)))))
         else if ir_method (ar_req i1) = ''RESPMOD''
         then (case ir_response (ar_req i1) of
                 None \<Rightarrow> Panic ''nil response''
               | Some r \<Rightarrow>
                   bind_outcome (answer env 200 (RespMsg r) True i1) (\<lambda>i2.
                   bind_outcome (rw_write (ae_http env) [] (ar_w i2)) (\<lambda>(n, err, w).
                   Done (set_response (Some (r\<lparr>rs_body := BytesBody []\<rparr>)) (i2\<lparr>ar_w := w\<rparr>)))))
         else Done i1)"

datatype init_result = Proceed | Refused | Shadowed

text \<open>The second half of \<open>RequestInitialization\<close>, for a service and a method that are served.\<close>

definition prepare_service :: "api_env \<Rightarrow> api_request \<Rightarrow> (init_result \<times> api_request) outcome" where
  "prepare_service env i =
     bind_outcome (instance_of env (ar_service i)) (\<lambda>inst.
     let i1 = i\<lparr>ar_vendor := si_vendor inst\<rparr> in
     bind_outcome (required_service env i1) (\<lambda>proc.
     let i2 = put_header ''Service'' (si_service_caption inst)
                (put_header ''ISTag'' (istag_value (scl_svc (ae_scan env))) i1);
         i3 = i2\<lparr>ar_204 := is_204_allowed (ir_header (ar_req i2)), ar_shadow := si_shadow_service inst\<rparr>
     in if ar_shadow i3 \<and> ar_method i3 \<noteq> ''OPTIONS''
        then bind_outcome (shadow_service env i3) (\<lambda>i4. Done (Shadowed, i4))
        else Done (Proceed, if ac_debugging_headers (ae_config env)
                            then put_header ''X-ICAPeg-Shadow-Service'' ''false'' i3 else i3)))"

definition is_service_exists :: "api_env \<Rightarrow> api_request \<Rightarrow> bool" where
  "is_service_exists env i \<longleftrightarrow> list_ex (\<lambda>name. ar_service i = name) (ac_services (ae_config env))"

lemma is_service_exists_iff [simp]: "is_service_exists env i \<longleftrightarrow> ar_service i \<in> set (ac_services (ae_config env))"
  by (auto simp: is_service_exists_def list_ex_iff)

definition request_initialization :: "api_env \<Rightarrow> api_request \<Rightarrow> (init_result \<times> api_request) outcome" where
  "request_initialization env i =
     (let path = u_path (ir_url (ar_req i)) in
      if path = [] then Panic ''slice bounds out of range''
      else
        (let i1 = i\<lparr>ar_service := drop 1 path\<rparr> in
         if \<not> is_service_exists env i1
         then bind_outcome (answer env 404 NoMsg False i1) (\<lambda>i2. Done (Refused, i2))
         else
           (let i2 = i1\<lparr>ar_method := ir_method (ar_req i1)\<rparr> in
            bind_outcome (if ar_method i2 = ''options'' then Done True else is_method_allowed env i2) (\<lambda>allowed.
            if \<not> allowed then bind_outcome (answer env 405 NoMsg False i2) (\<lambda>i3. Done (Refused, i3))
            else prepare_service env i2))))"

section \<open>Loading the body\<close>

definition load_request :: "api_env \<Rightarrow> api_request \<Rightarrow> api_request outcome" where
  "load_request env i =
     (case ir_request (ar_req i) of
        None \<Rightarrow> Panic ''nil request''
      | Some r \<Rightarrow>
          bind_outcome (read_body (ae_http env) (rq_body r) (rw_conn (ar_w i))) (\<lambda>(bs, err, left, c).
            let r1 = r\<lparr>rq_header := hset (rq_header r) ''Content-Length'' (itoa (length bs)), rq_body := BytesBody bs\<rparr>
            in Done (set_conn c
                 (case lib_new_request (ae_http env) (rq_method r) (lib_url_string (ae_http env) (rq_url r)) of
                    Inl e \<Rightarrow> i\<lparr>ar_req := (ar_req i)\<lparr>ir_request := Some r1, ir_org := Some r1\<rparr>, ar_org_alias := True\<rparr>
                  | Inr new \<Rightarrow>
                      i\<lparr>ar_req := (ar_req i)\<lparr>ir_request := Some r1,
                          ir_org := Some (new\<lparr>rq_header := rq_header r1, rq_body := BytesBody bs\<rparr>)\<rparr>,
                        ar_org_alias := False\<rparr>))))"

definition load_response :: "api_env \<Rightarrow> api_request \<Rightarrow> api_request outcome" where
  "load_response env i =
     (case ir_response (ar_req i) of
        None \<Rightarrow> Panic ''nil response''
      | Some r \<Rightarrow>
          bind_outcome (read_body (ae_http env) (rs_body r) (rw_conn (ar_w i))) (\<lambda>(bs, err, left, c).
            Done (set_conn c (set_response
              (Some (r\<lparr>rs_header := hset (rs_header r) ''Content-Length'' (itoa (length bs)), rs_body := BytesBody bs\<rparr>)) i))))"

definition load_body :: "api_env \<Rightarrow> api_request \<Rightarrow> api_request outcome" where
  "load_body env i =
     (if ar_method i = ''RESPMOD'' then load_response env i
      else if ir_method (ar_req i) = ''REQMOD'' then load_request env i
      else Done i)"

text \<open>Only a preview without \<open>ieof\<close> is partial.\<close>

definition is_partial :: "api_request \<Rightarrow> bool" where
  "is_partial i \<longleftrightarrow> hget (ir_header (ar_req i)) ''Preview'' \<noteq> [] \<and> ir_end (ar_req i) \<notin> {[], ''0; ieof''}"

definition host_header :: "api_request \<Rightarrow> api_request outcome" where
  "host_header i =
     (if ar_method i = ''REQMOD''
      then (case ir_request (ar_req i) of
              None \<Rightarrow> Panic ''nil request''
            | Some r \<Rightarrow> Done (set_request (Some (r\<lparr>rq_header := hset (rq_header r) ''Host'' (rq_host r)\<rparr>)) i))
      else Done i)"

section \<open>Business logic\<close>

text \<open>One call of \<open>ProcessRequest\<close> on the request and the connection of the writer.\<close>

definition run_business :: "api_env \<Rightarrow> business_handler \<Rightarrow> business_env \<Rightarrow> bool \<Rightarrow> api_request \<Rightarrow>
    ((nat \<times> bool \<times> go_error option) \<times> api_request) outcome" where
  "run_business env h benv partial i =
     bind_outcome (process_request h benv (ir_header (ar_req i)) partial
        ((ar_biz i)\<lparr>bs_request := ir_request (ar_req i), bs_conn := rw_conn (ar_w i)\<rparr>)) (\<lambda>(res, st).
       Done (res, set_conn (bs_conn st) (set_request (bs_request st) (i\<lparr>ar_biz := st\<rparr>))))"

text \<open>The end of it: whether recording is pending, and the answer to a refused request (\<open>True\<close>).\<close>

definition conclude_business :: "api_env \<Rightarrow> nat \<Rightarrow> bool \<Rightarrow> api_request \<Rightarrow> (bool \<times> api_request) outcome" where
  "conclude_business env status pending i =
     (let i1 = i\<lparr>ar_pending := pending\<rparr>
      in if status = 400 then bind_outcome (answer env 400 NoMsg False i1) (\<lambda>i2. Done (True, i2))
         else Done (False, i1))"

text \<open>
  The business logic is asked once for every request, and once more when a recording was deferred and the
  body is complete.
\<close>

definition apply_business :: "api_env \<Rightarrow> bool \<Rightarrow> api_request \<Rightarrow> (bool \<times> api_request) outcome" where
  "apply_business env partial i =
     (if \<not> ar_business_applied i
      then
        (let i1 = i\<lparr>ar_business_applied := True\<rparr> in
         case ae_business env of
           Some h \<Rightarrow>
             (if ar_method i1 = ''REQMOD''
              then bind_outcome (run_business env h (ae_first env) partial i1) (\<lambda>((status, deferred, err), i2).
                     conclude_business env status deferred i2)
              else Done (False, i1))
         | None \<Rightarrow> Done (False, i1))
      else if ar_pending i \<and> \<not> partial \<and> ar_method i = ''REQMOD''
      then (case ae_business env of
              Some h \<Rightarrow>
                bind_outcome (run_business env h (ae_flush env) False i) (\<lambda>((status, deferred, err), i1).
                  conclude_business env status False i1)
            | None \<Rightarrow> Done (False, i))
      else Done (False, i))"

section \<open>Asking the service\<close>

text \<open>The bodies whose closing is deferred have to be there.\<close>

definition bodies_present :: "api_request \<Rightarrow> unit outcome" where
  "bodies_present i =
     (if ar_method i = ''REQMOD''
      then (case (ir_request (ar_req i), ir_org (ar_req i)) of
              (Some r, Some org) \<Rightarrow>
                (if rq_body r = NilBody \<or> rq_body org = NilBody then Panic ''nil body'' else Done ())
            | _ \<Rightarrow> Panic ''nil request'')
      else (case ir_response (ar_req i) of
              None \<Rightarrow> Panic ''nil response''
            | Some r \<Rightarrow> (if rs_body r = NilBody then Panic ''nil body'' else Done ())))"

text \<open>
  \<open>Processing\<close> on the message pair, and the headers it asks for. The service works on the message itself;
  that a blocking service makes its own pair point to another response is not seen later.
\<close>

definition ask_service :: "api_env \<Rightarrow> bool \<Rightarrow> api_request \<Rightarrow> (svc_out \<times> api_request) outcome" where
  "ask_service env partial i =
     bind_outcome (required_service env i) (\<lambda>proc.
     bind_outcome (proc partial \<lparr>ss_msg = \<lparr>hm_request = ir_request (ar_req i), hm_response = ir_response (ar_req i)\<rparr>,
                                 ss_conn = rw_conn (ar_w i), ss_icap = ir_header (ar_req i)\<rparr>) (\<lambda>(out, st).
       Done (out, fold (\<lambda>(k, v). put_header k v) (so_headers out)
         (set_conn (ss_conn st)
           (i\<lparr>ar_req := (ar_req i)\<lparr>ir_request := hm_request (ss_msg st), ir_response := hm_response (ss_msg st),
                                   ir_header := ss_icap st\<rparr>\<rparr>)))))"

section \<open>Answering\<close>

text \<open>The body of \<open>OrgRequest\<close>.\<close>

definition org_body :: "api_request \<Rightarrow> body outcome" where
  "org_body i =
     (case (if ar_org_alias i then ir_request (ar_req i) else ir_org (ar_req i)) of
        None \<Rightarrow> Panic ''nil request''
      | Some r \<Rightarrow> Done (rq_body r))"

text \<open>A request the service has no objection to, for a client that does not take 204: the original body.\<close>

definition answer_unmodified :: "api_env \<Rightarrow> api_request \<Rightarrow> api_request outcome" where
  "answer_unmodified env i =
     bind_outcome (org_body i) (\<lambda>bd.
     bind_outcome (read_body (ae_http env) bd (rw_conn (ar_w i))) (\<lambda>(bs, err, left, c).
     case ir_request (ar_req i) of
       None \<Rightarrow> Panic ''nil request''
     | Some r \<Rightarrow>
         (let r1 = r\<lparr>rq_body := BytesBody bs, rq_header := hset (rq_header r) ''Content-Length'' (itoa (length bs))\<rparr>
          in answer env 200 (ReqMsg r1) (http_message_has_body (SvcRequest r1)) (set_request (Some r1) (set_conn c i)))))"

definition answer_status :: "api_env \<Rightarrow> svc_out \<Rightarrow> api_request \<Rightarrow> api_request outcome" where
  "answer_status env res i =
     (let status = so_status res; msg = so_msg res in
      if status = 500 \<or> status = 408 then answer env status NoMsg False i
      else if status = 204
      then (if ar_204 i then answer env 204 NoMsg False i
            else if ar_method i = ''REQMOD'' then answer_unmodified env i
            else answer env 200 (msg_of msg) (http_message_has_body msg) i)
      else if status = 200 \<or> status = 400 then answer env status (msg_of msg) (http_message_has_body msg) i
      else Done i)"

text \<open>After \<open>100\<close>: the rest of the body is fetched and becomes the body of the message.\<close>

definition preview :: "api_env \<Rightarrow> api_request \<Rightarrow> bytes \<times> api_request" where
  [simp]: "preview env i =
     (case read_the_rest (ae_http env) (ar_req i) (rw_conn (ar_w i)) of
        (bs, req, c) \<Rightarrow> (bs, set_conn c (i\<lparr>ar_req := req\<rparr>)))"

definition fetch_rest :: "api_env \<Rightarrow> api_request \<Rightarrow> api_request outcome" where
  "fetch_rest env i =
     (case preview env i of
        (bs, i1) \<Rightarrow>
          (let req = ar_req i1; i2 = i1\<lparr>ar_method := ir_method req\<rparr> in
           if ir_method req = ''REQMOD''
           then (case (ir_request req, ir_org req) of
                   (Some r, Some org) \<Rightarrow>
                     Done (i2\<lparr>ar_req := req\<lparr>ir_request := Some (r\<lparr>rq_body := BytesBody bs\<rparr>),
                                             ir_org := Some (org\<lparr>rq_body := BytesBody bs\<rparr>)\<rparr>\<rparr>)
                 | _ \<Rightarrow> Panic ''nil request'')
           else (case ir_response req of
                   None \<Rightarrow> Panic ''nil response''
                 | Some r \<Rightarrow> Done (set_response (Some (r\<lparr>rs_body := BytesBody bs\<rparr>)) i2))))"

text \<open>\<open>RespAndReqMods\<close>, with fuel for its recursion: \<open>None\<close> when the service has asked for more once too often.\<close>

definition default_request :: "api_request \<Rightarrow> api_request" where
  "default_request i =
     (case ir_request (ar_req i) of None \<Rightarrow> set_request (Some zero_request) i | Some r \<Rightarrow> i)"

definition before_service :: "api_env \<Rightarrow> bool \<Rightarrow> api_request \<Rightarrow> (bool \<times> api_request) outcome" where
  "before_service env partial i =
     bind_outcome (bodies_present i) (\<lambda>_. apply_business env partial (default_request i))"

fun resp_and_req_mods :: "api_env \<Rightarrow> nat \<Rightarrow> bool \<Rightarrow> api_request \<Rightarrow> api_request outcome option" where
  "resp_and_req_mods env 0 partial i = None"
| "resp_and_req_mods env (Suc n) partial i =
     (case before_service env partial i of
        Panic msg \<Rightarrow> Some (Panic msg)
      | Done (refused, i1) \<Rightarrow>
          (if refused then Some (Done i1)
           else case ask_service env partial i1 of
                  Panic msg \<Rightarrow> Some (Panic msg)
                | Done (res, i2) \<Rightarrow>
                    (if ar_shadow i2 then Some (Done i2)
                     else if so_status res = 100
                     then (case fetch_rest env i2 of
                             Panic msg \<Rightarrow> Some (Panic msg)
                           | Done i3 \<Rightarrow> resp_and_req_mods env n False i3)
                     else Some (answer_status env res i2))))"

section \<open>OPTIONS\<close>

definition enabled_methods :: "service_icap_info \<Rightarrow> string outcome" where
  "enabled_methods inst =
     (case (if si_resp_mode inst then [''RESPMOD''] else []) @ (if si_req_mode inst then [''REQMOD''] else []) of
        [] \<Rightarrow> Panic ''index out of range''
      | [m] \<Rightarrow> Done m
      | m # m' # _ \<Rightarrow> Done (m @ '', '' @ m'))"

definition service_preview :: "service_icap_info \<Rightarrow> bool \<times> string" where
  [simp]: "service_preview inst = (si_preview_enabled inst, si_preview_bytes inst)"

definition options_mode :: "api_env \<Rightarrow> api_request \<Rightarrow> api_request outcome" where
  "options_mode env i =
     bind_outcome (instance_of env (ar_service i)) (\<lambda>inst.
     bind_outcome (enabled_methods inst) (\<lambda>methods.
     let i1 = set_header ''Allow'' ''204'' (set_header ''Methods'' methods i);
         i2 = (case service_preview inst of (enabled, bytes) \<Rightarrow>
                 if enabled \<and> 0 \<le> fst (atoi bytes) then set_header ''Preview'' bytes i1 else i1)
     in answer env 200 NoMsg False (set_header ''Transfer-Preview'' ''*'' i2)))"

section \<open>The handler\<close>

definition request_processing :: "api_env \<Rightarrow> nat \<Rightarrow> api_request \<Rightarrow> api_request outcome option" where
  "request_processing env fuel i =
     (if ar_method i = ''OPTIONS'' then Some (options_mode env i)
      else case bind_outcome (load_body env i) host_header of
             Panic msg \<Rightarrow> Some (Panic msg)
           | Done i1 \<Rightarrow> resp_and_req_mods env fuel (is_partial i1) i1)"

text \<open>
  \<open>ToICAPEGServe\<close>: how the request was initialised and the state the handler returns in. In shadow mode
  this is the state another goroutine goes on processing.
\<close>

definition to_icapeg_serve :: "api_env \<Rightarrow> svc_globals \<Rightarrow> business_state \<Rightarrow> resp_writer \<Rightarrow> icap_request \<Rightarrow>
    (init_result \<times> api_request) outcome option" where
  "to_icapeg_serve env g biz w req =
     (case request_initialization env (new_api_request env g biz w req) of
        Panic msg \<Rightarrow> Some (Panic msg)
      | Done (Proceed, i) \<Rightarrow> map_option (\<lambda>m. bind_outcome m (\<lambda>i1. Done (Proceed, i1))) (request_processing env 2 i)
      | Done (res, i) \<Rightarrow> Some (Done (res, i)))"

section \<open>What the steps do\<close>

lemma set_simps [simp]:
  "ar_w (set_request r i) = ar_w i" "ir_request (ar_req (set_request r i)) = r"
  "ir_org (ar_req (set_request r i)) = ir_org (ar_req i)" "ir_response (ar_req (set_request r i)) = ir_response (ar_req i)"
  "ir_method (ar_req (set_request r i)) = ir_method (ar_req i)" "ir_header (ar_req (set_request r i)) = ir_header (ar_req i)"
  "ir_orig (ar_req (set_request r i)) = ir_orig (ar_req i)" "ir_end (ar_req (set_request r i)) = ir_end (ar_req i)"
  "ar_method (set_request r i) = ar_method i" "ar_biz (set_request r i) = ar_biz i"
  "ar_shadow (set_request r i) = ar_shadow i" "ar_204 (set_request r i) = ar_204 i"
  "ar_pending (set_request r i) = ar_pending i" "ar_business_applied (set_request r i) = ar_business_applied i"
  "ar_org_alias (set_request r i) = ar_org_alias i"
  "ar_req (set_conn c i) = ar_req i" "rw_conn (ar_w (set_conn c i)) = c"
  "rw_wrote_header (ar_w (set_conn c i)) = rw_wrote_header (ar_w i)" "rw_header (ar_w (set_conn c i)) = rw_header (ar_w i)"
  "ar_method (set_conn c i) = ar_method i" "ar_biz (set_conn c i) = ar_biz i"
  "ar_shadow (set_conn c i) = ar_shadow i" "ar_204 (set_conn c i) = ar_204 i"
  "ar_pending (set_conn c i) = ar_pending i" "ar_business_applied (set_conn c i) = ar_business_applied i"
  "ar_org_alias (set_conn c i) = ar_org_alias i"
  by (simp_all add: set_request_def set_conn_def)

lemma put_header_simps [simp]:
  "ar_req (put_header k v i) = ar_req i" "rw_conn (ar_w (put_header k v i)) = rw_conn (ar_w i)"
  "rw_wrote_header (ar_w (put_header k v i)) = rw_wrote_header (ar_w i)"
  "ar_method (put_header k v i) = ar_method i" "ar_biz (put_header k v i) = ar_biz i"
  "ar_shadow (put_header k v i) = ar_shadow i" "ar_204 (put_header k v i) = ar_204 i"
  "ar_pending (put_header k v i) = ar_pending i" "ar_business_applied (put_header k v i) = ar_business_applied i"
  "ar_org_alias (put_header k v i) = ar_org_alias i"
  by (simp_all add: put_header_def)

lemma put_headers_simps [simp]:
  "ar_req (fold (\<lambda>(k, v). put_header k v) hs i) = ar_req i"
  "rw_conn (ar_w (fold (\<lambda>(k, v). put_header k v) hs i)) = rw_conn (ar_w i)"
  "rw_wrote_header (ar_w (fold (\<lambda>(k, v). put_header k v) hs i)) = rw_wrote_header (ar_w i)"
  "ar_method (fold (\<lambda>(k, v). put_header k v) hs i) = ar_method i"
  "ar_biz (fold (\<lambda>(k, v). put_header k v) hs i) = ar_biz i"
  "ar_shadow (fold (\<lambda>(k, v). put_header k v) hs i) = ar_shadow i"
  "ar_204 (fold (\<lambda>(k, v). put_header k v) hs i) = ar_204 i"
  "ar_pending (fold (\<lambda>(k, v). put_header k v) hs i) = ar_pending i"
  "ar_business_applied (fold (\<lambda>(k, v). put_header k v) hs i) = ar_business_applied i"
  "ar_org_alias (fold (\<lambda>(k, v). put_header k v) hs i) = ar_org_alias i"
  by (induction hs arbitrary: i) (auto split: prod.splits)

lemma read_buffer [simp]: "read_body lib (BytesBody bs) c = Done (bs, None, BytesBody [], c)"
  by (simp add: read_body_def)

lemma write_msg_body_appends:
  assumes "write_msg_body lib msg w = Done w'"
  shows "rw_wrote_header w' = rw_wrote_header w \<and> (\<exists>more. rw_out w' = rw_out w @ more)"
proof -
  have out: "rw_out (w\<lparr>rw_conn := c\<rparr>) = c_out c" for c by (simp add: rw_out_def)
  show ?thesis
    using assms
    by (auto simp: write_msg_body_def bind_outcome_Done_iff cw_write_out out rw_out_def [symmetric]
        split: http_msg.splits option.splits dest!: read_body_output)
qed

text \<open>Whatever is written, the status line comes first, and only the answer is added to the output.\<close>

lemma write_header_starts:
  assumes "write_header lib code msg hasbody w = Done w'" and "\<not> rw_wrote_header w"
  shows "rw_wrote_header w' \<and> (\<exists>rest. rw_out w' = rw_out w @ status_line code @ rest)"
proof -
  let ?w = "header_written lib code msg hasbody w"
  have "rw_wrote_header ?w" "\<exists>rest. rw_out ?w = rw_out w @ status_line code @ rest"
    by (simp_all add: header_written_def)
  with assms show ?thesis
    using write_msg_body_appends [of lib msg ?w w'] by (cases hasbody) (auto simp: write_header_eq)
qed

lemma answer_starts:
  assumes "answer env code msg hasbody i = Done i'" and "\<not> rw_wrote_header (ar_w i)"
  shows "rw_wrote_header (ar_w i') \<and> (\<exists>rest. rw_out (ar_w i') = rw_out (ar_w i) @ status_line code @ rest)"
  using assms write_header_starts by (fastforce simp: answer_def bind_outcome_Done_iff)

lemma answer_keeps:
  assumes "answer env code msg hasbody i = Done i'"
  shows "ar_biz i' = ar_biz i" "ar_req i' = ar_req i" "ar_shadow i' = ar_shadow i"
  using assms by (auto simp: answer_def bind_outcome_Done_iff)

lemma required_service_contract:
  assumes "required_service env i = Done proc"
  shows "icap_service proc" and "quiet_service proc"
  using assms get_service_contract get_service_quiet
  by (auto simp: required_service_def bind_outcome_Done_iff split: option.splits)

text \<open>The contract of the services, on the state of the request.\<close>

lemma ask_service_effect:
  assumes "ask_service env p i = Done (res, i')"
  shows "(so_status res = 100 \<longleftrightarrow> p) \<and> (\<not> p \<longrightarrow> so_status res \<in> final_statuses) \<and>
    reads_on (rw_conn (ar_w i)) (rw_conn (ar_w i')) \<and> c_out (rw_conn (ar_w i')) = c_out (rw_conn (ar_w i)) \<and>
    rw_wrote_header (ar_w i') = rw_wrote_header (ar_w i) \<and> ar_biz i' = ar_biz i \<and> ar_shadow i' = ar_shadow i \<and> ar_method i' = ar_method i \<and> ar_pending i' = ar_pending i \<and>
    ar_business_applied i' = ar_business_applied i \<and> ar_204 i' = ar_204 i \<and> ar_org_alias i' = ar_org_alias i \<and>
    ir_method (ar_req i') = ir_method (ar_req i) \<and> ir_org (ar_req i') = ir_org (ar_req i) \<and>
    ir_orig (ar_req i') = ir_orig (ar_req i) \<and>
    (p \<longrightarrow> rw_conn (ar_w i') = rw_conn (ar_w i) \<and> ir_request (ar_req i') = ir_request (ar_req i) \<and>
          ir_response (ar_req i') = ir_response (ar_req i))"
proof -
  obtain proc st where s: "required_service env i = Done proc"
    "proc p \<lparr>ss_msg = \<lparr>hm_request = ir_request (ar_req i), hm_response = ir_response (ar_req i)\<rparr>,
       ss_conn = rw_conn (ar_w i), ss_icap = ir_header (ar_req i)\<rparr> = Done (res, st)"
    "i' = fold (\<lambda>(k, v). put_header k v) (so_headers res) (set_conn (ss_conn st)
       (i\<lparr>ar_req := (ar_req i)\<lparr>ir_request := hm_request (ss_msg st), ir_response := hm_response (ss_msg st),
                               ir_header := ss_icap st\<rparr>\<rparr>))"
    using assms by (auto simp: ask_service_def bind_outcome_Done_iff)
  note c = required_service_contract [OF s(1)]
  show ?thesis
    using icap_service.continue_iff_partial [OF c(1) s(2)] icap_service.partial_continue [OF c(1), of _ res st]
      icap_service.full_status [OF c(1), of _ res st] quiet_service.only_reads [OF c(2) s(2)] s(2)
    by (cases p) (simp_all add: s(3) reads_on_def)
qed

text \<open>A request as it is once its body has been loaded: the body is in memory.\<close>

definition loaded :: "api_request \<Rightarrow> bytes \<Rightarrow> bool" where
  "loaded i bs \<longleftrightarrow>
     (ar_method i = ''REQMOD'' \<and> ir_method (ar_req i) = ''REQMOD'' \<and>
        (\<exists>r org. ir_request (ar_req i) = Some r \<and> rq_body r = BytesBody bs \<and>
                 ir_org (ar_req i) = Some org \<and> rq_body org = BytesBody bs)) \<or>
     (ar_method i = ''RESPMOD'' \<and> ir_method (ar_req i) = ''RESPMOD'' \<and>
        (\<exists>r. ir_response (ar_req i) = Some r \<and> rs_body r = BytesBody bs))"

lemma run_business_effect:
  assumes "run_business env h benv p i = Done ((status, deferred, err), i')" and "loaded i bs" and "ar_method i = ''REQMOD''"
  shows "loaded i' bs \<and> rw_conn (ar_w i') = rw_conn (ar_w i) \<and> rw_wrote_header (ar_w i') = rw_wrote_header (ar_w i) \<and>
    ar_shadow i' = ar_shadow i \<and> ir_orig (ar_req i') = ir_orig (ar_req i) \<and>
    ar_business_applied i' = ar_business_applied i \<and> status \<in> {204, 400} \<and> (deferred \<longrightarrow> p \<and> status = 204) \<and>
    (bs_spawned (ar_biz i') = bs_spawned (ar_biz i) \<or>
       \<not> p \<and> \<not> deferred \<and> status = 204 \<and>
       (\<exists>t. bs_spawned (ar_biz i') = bs_spawned (ar_biz i) @ [t] \<and> rt_body t = bs))"
proof -
  let ?st = "(ar_biz i)\<lparr>bs_request := ir_request (ar_req i), bs_conn := rw_conn (ar_w i)\<rparr>"
  obtain st where s: "process_request h benv (ir_header (ar_req i)) p ?st = Done ((status, deferred, err), st)"
    "i' = set_conn (bs_conn st) (set_request (bs_request st) (i\<lparr>ar_biz := st\<rparr>))"
    using assms(1) by (auto simp: run_business_def bind_outcome_Done_iff)
  obtain r org where r: "ir_request (ar_req i) = Some r" "rq_body r = BytesBody bs" "ir_method (ar_req i) = ''REQMOD''"
    "ir_org (ar_req i) = Some org" "rq_body org = BytesBody bs"
    using assms(2,3) by (auto simp: loaded_def)
  have "bs_request ?st = Some r" using r by simp
  from process_request_loaded [OF s(1) this r(2)] r(3-) show ?thesis
    by (auto simp: s(2) loaded_def assms(3))
qed

lemma default_request_loaded:
  assumes "loaded i bs"
  shows "loaded (default_request i) bs \<and> ar_w (default_request i) = ar_w i \<and> ar_biz (default_request i) = ar_biz i \<and>
    ar_shadow (default_request i) = ar_shadow i \<and> ir_orig (ar_req (default_request i)) = ir_orig (ar_req i) \<and>
    ar_pending (default_request i) = ar_pending i \<and> ar_method (default_request i) = ar_method i \<and>
    ar_business_applied (default_request i) = ar_business_applied i"
  using assms by (auto simp: loaded_def default_request_def split: option.splits)

text \<open>The answer of a refusal: status 400 and nothing else.\<close>

definition answered :: "nat set \<Rightarrow> bytes \<Rightarrow> api_request \<Rightarrow> bool" where
  "answered codes before i \<longleftrightarrow>
     rw_wrote_header (ar_w i) \<and> (\<exists>code \<in> codes. \<exists>rest. rw_out (ar_w i) = before @ status_line code @ rest)"

lemma answer_answered:
  assumes "answer env code msg hasbody i = Done i'" and "\<not> rw_wrote_header (ar_w i)" and "code \<in> codes"
  shows "answered codes (rw_out (ar_w i)) i'"
  using answer_starts [OF assms(1,2)] assms(3) by (auto simp: answered_def)

lemma answered_mono: "answered {code} before i \<Longrightarrow> code \<in> codes \<Longrightarrow> answered codes before i"
  by (auto simp: answered_def)

lemma business_verdict_effect:
  assumes "run_business env h benv p i = Done ((status, deferred, err), i1)" and "loaded i bs" and "ar_method i = ''REQMOD''"
    and "conclude_business env status d i1 = Done (refused, i')"
    and "\<not> rw_wrote_header (ar_w i)"
  shows "ar_shadow i' = ar_shadow i \<and> ir_orig (ar_req i') = ir_orig (ar_req i) \<and>
    (bs_spawned (ar_biz i') = bs_spawned (ar_biz i) \<or>
       \<not> p \<and> \<not> refused \<and> (\<exists>t. bs_spawned (ar_biz i') = bs_spawned (ar_biz i) @ [t] \<and> rt_body t = bs)) \<and>
    (if refused then answered {400} (rw_out (ar_w i)) i'
     else loaded i' bs \<and> rw_conn (ar_w i') = rw_conn (ar_w i) \<and> \<not> rw_wrote_header (ar_w i'))"
proof -
  note r = run_business_effect [OF assms(1-3)]
  have o: "rw_out (ar_w i1) = rw_out (ar_w i)" using r by (simp add: rw_out_def)
  show ?thesis
  proof (cases "status = 400")
    case True
    with assms(4) have a: "answer env 400 NoMsg False (i1\<lparr>ar_pending := d\<rparr>) = Done i'" "refused"
      by (auto simp: conclude_business_def bind_outcome_Done_iff)
    from answer_keeps [OF a(1)] answer_answered [OF a(1), of "{400}"] r o a(2) assms(5) True show ?thesis by simp
  next
    case False
    with assms(4) have "i' = i1\<lparr>ar_pending := d\<rparr>" "\<not> refused" by (auto simp: conclude_business_def)
    with r assms(5) show ?thesis by (auto simp: loaded_def)
  qed
qed

lemma apply_business_effect:
  assumes "apply_business env p i = Done (refused, i')" and "loaded i bs" and "\<not> rw_wrote_header (ar_w i)"
  shows "ar_shadow i' = ar_shadow i \<and> ir_orig (ar_req i') = ir_orig (ar_req i) \<and>
    (bs_spawned (ar_biz i') = bs_spawned (ar_biz i) \<or>
       \<not> p \<and> \<not> refused \<and> (\<exists>t. bs_spawned (ar_biz i') = bs_spawned (ar_biz i) @ [t] \<and> rt_body t = bs)) \<and>
    (if refused then answered {400} (rw_out (ar_w i)) i'
     else loaded i' bs \<and> rw_conn (ar_w i') = rw_conn (ar_w i) \<and> \<not> rw_wrote_header (ar_w i'))"
proof -
  let ?i = "i\<lparr>ar_business_applied := True\<rparr>"
  consider (none) "\<not> refused" "i' = i \<or> i' = ?i"
    | (first) h status deferred err i1 where "ar_method i = ''REQMOD''"
        "run_business env h (ae_first env) p ?i = Done ((status, deferred, err), i1)"
        "conclude_business env status deferred i1 = Done (refused, i')"
    | (again) h status deferred err i1 where "ar_method i = ''REQMOD''" "\<not> p"
        "run_business env h (ae_flush env) False i = Done ((status, deferred, err), i1)"
        "conclude_business env status False i1 = Done (refused, i')"
  proof (cases "ar_business_applied i")
    case False
    show ?thesis
    proof (cases "ae_business env = None \<or> ar_method i \<noteq> ''REQMOD''")
      case True
      with False assms(1) show ?thesis by (intro none) (auto simp: apply_business_def Let_def split: option.splits)
    next
      case False': False
      then obtain h where "ae_business env = Some h" by auto
      with False False' assms(1) show ?thesis
        by (cases "run_business env h (ae_first env) p ?i") (auto simp: apply_business_def intro: first)
    qed
  next
    case True
    show ?thesis
    proof (cases "ae_business env = None \<or> \<not> (ar_pending i \<and> \<not> p \<and> ar_method i = ''REQMOD'')")
      case True': True
      with True assms(1) show ?thesis by (intro none) (auto simp: apply_business_def split: option.splits)
    next
      case False
      then obtain h where "ae_business env = Some h" by auto
      with True False assms(1) show ?thesis
        by (cases "run_business env h (ae_flush env) False i") (auto simp: apply_business_def intro: again)
    qed
  qed
  then show ?thesis
  proof cases
    case none
    with assms(2,3) show ?thesis by (auto simp: loaded_def)
  next
    case first
    have l: "loaded ?i bs" "ar_method ?i = ''REQMOD''" "\<not> rw_wrote_header (ar_w ?i)"
      using assms(2,3) first(1) by (auto simp: loaded_def)
    from business_verdict_effect [OF first(2) l(1,2) first(3) l(3)] show ?thesis by auto
  next
    case again
    from business_verdict_effect [OF again(3) assms(2) again(1) again(4) assms(3)] again(2) show ?thesis by simp
  qed
qed

lemma before_service_effect:
  assumes "before_service env p i = Done (refused, i')" and "loaded i bs" and "\<not> rw_wrote_header (ar_w i)"
  shows "ar_shadow i' = ar_shadow i \<and> ir_orig (ar_req i') = ir_orig (ar_req i) \<and>
    (bs_spawned (ar_biz i') = bs_spawned (ar_biz i) \<or>
       \<not> p \<and> \<not> refused \<and> (\<exists>t. bs_spawned (ar_biz i') = bs_spawned (ar_biz i) @ [t] \<and> rt_body t = bs)) \<and>
    (if refused then answered {400} (rw_out (ar_w i)) i'
     else loaded i' bs \<and> rw_conn (ar_w i') = rw_conn (ar_w i) \<and> \<not> rw_wrote_header (ar_w i'))"
proof -
  from assms(1) have "apply_business env p (default_request i) = Done (refused, i')"
    by (auto simp: before_service_def bind_outcome_Done_iff)
  from apply_business_effect [OF this, of bs] default_request_loaded [OF assms(2)] assms(3) show ?thesis by auto
qed

lemma read_the_rest_orig:
  "ir_orig req = ir_orig req' \<Longrightarrow> fst (read_the_rest lib req c) = fst (read_the_rest lib req' c)"
  by (simp add: read_the_rest_def Let_def split: option.splits)

lemma read_the_rest_effect:
  "read_the_rest lib req c = (bs, req', c') \<Longrightarrow> c_out c' = c_out c @ continue_line \<and> req' = req\<lparr>ir_orig := Some []\<rparr>"
  by (auto simp: read_the_rest_def Let_def split: option.splits)

lemma fetch_rest_effect:
  assumes "fetch_rest env i = Done i'" and "loaded i bs"
  shows "loaded i' (fst (read_the_rest (ae_http env) (ar_req i) (rw_conn (ar_w i)))) \<and>
    rw_out (ar_w i') = rw_out (ar_w i) @ continue_line \<and> rw_wrote_header (ar_w i') = rw_wrote_header (ar_w i) \<and>
    ar_biz i' = ar_biz i \<and> ar_shadow i' = ar_shadow i"
proof -
  obtain rest req c where r: "read_the_rest (ae_http env) (ar_req i) (rw_conn (ar_w i)) = (rest, req, c)"
    by (metis prod_cases3)
  note e = read_the_rest_effect [OF r]
  from assms(2) [unfolded loaded_def] show ?thesis
  proof (elim disjE conjE exE)
    fix q org
    assume "ar_method i = ''REQMOD''" "ir_method (ar_req i) = ''REQMOD''" "ir_request (ar_req i) = Some q"
      "ir_org (ar_req i) = Some org"
    with assms(1) e r show ?thesis by (auto simp: fetch_rest_def Let_def loaded_def rw_out_def)
  next
    fix q
    assume "ar_method i = ''RESPMOD''" "ir_method (ar_req i) = ''RESPMOD''" "ir_response (ar_req i) = Some q"
    with assms(1) e r show ?thesis by (auto simp: fetch_rest_def Let_def loaded_def rw_out_def set_response_def)
  qed
qed

abbreviation answer_codes :: "nat set" where
  "answer_codes \<equiv> {200, 204, 400, 408, 500}"

lemma answer_unmodified_answered:
  assumes "answer_unmodified env i = Done i'" and "\<not> rw_wrote_header (ar_w i)"
  shows "answered {200} (rw_out (ar_w i)) i' \<and> ar_biz i' = ar_biz i \<and> ar_shadow i' = ar_shadow i"
proof -
  obtain bd bs err left c r where a: "read_body (ae_http env) bd (rw_conn (ar_w i)) = Done (bs, err, left, c)"
    "answer env 200 (ReqMsg r) (http_message_has_body (SvcRequest r)) (set_request (Some r) (set_conn c i)) = Done i'"
    using assms(1) by (auto simp: answer_unmodified_def bind_outcome_Done_iff Let_def split: option.splits)
  have "rw_out (ar_w (set_request (Some r) (set_conn c i))) = rw_out (ar_w i)"
    using read_body_output [OF a(1)] by (simp add: rw_out_def)
  with answer_answered [OF a(2), of "{200}"] answer_keeps [OF a(2)] assms(2) show ?thesis by simp
qed

lemma answer_status_answered:
  assumes "answer_status env res i = Done i'" and "so_status res \<in> final_statuses" and "\<not> rw_wrote_header (ar_w i)"
  shows "answered answer_codes (rw_out (ar_w i)) i' \<and> ar_biz i' = ar_biz i \<and> ar_shadow i' = ar_shadow i"
proof -
  consider code msg hb where "code \<in> answer_codes" "answer env code msg hb i = Done i'"
    | "answer_unmodified env i = Done i'"
    using assms(1,2) that by (auto simp: answer_status_def Let_def final_statuses_def split: if_splits)
  then show ?thesis
  proof cases
    case 1
    from answer_answered [OF 1(2) assms(3) 1(1)] answer_keeps [OF 1(2)] show ?thesis by simp
  next
    case 2
    from answer_unmodified_answered [OF 2 assms(3)] answered_mono [of 200 _ i' answer_codes] show ?thesis by simp
  qed
qed

section \<open>A request from beginning to end\<close>

lemma ask_service_loaded:
  assumes "ask_service env True i = Done (res, i')" and "loaded i bs"
  shows "loaded i' bs \<and> rw_conn (ar_w i') = rw_conn (ar_w i)"
  using ask_service_effect [OF assms(1)] assms(2) by (auto simp: loaded_def)

lemma whole_body_pass:
  assumes "resp_and_req_mods env (Suc n) False i = Some (Done i')" and "loaded i bs" and "\<not> rw_wrote_header (ar_w i)"
  shows "(bs_spawned (ar_biz i') = bs_spawned (ar_biz i) \<or>
            (\<exists>t. bs_spawned (ar_biz i') = bs_spawned (ar_biz i) @ [t] \<and> rt_body t = bs)) \<and>
         (\<not> ar_shadow i \<longrightarrow> answered answer_codes (rw_out (ar_w i)) i')"
proof -
  obtain refused i1 where b: "before_service env False i = Done (refused, i1)"
    using assms(1) by (cases "before_service env False i") auto
  note e = before_service_effect [OF b assms(2,3)]
  show ?thesis
  proof (cases refused)
    case True
    with assms(1) b have "i' = i1" by simp
    with e True answered_mono [of 400 _ i' answer_codes] show ?thesis by auto
  next
    case False
    with assms(1) b obtain res i2 where s: "ask_service env False i1 = Done (res, i2)"
      by (cases "ask_service env False i1") auto
    note f = ask_service_effect [OF s]
    have o: "rw_out (ar_w i2) = rw_out (ar_w i)" using e f False by (simp add: rw_out_def)
    show ?thesis
    proof (cases "ar_shadow i2")
      case True
      with assms(1) b s False have "i' = i2" by simp
      with True e f False show ?thesis by auto
    next
      case noshadow: False
      with assms(1) b s False f have a: "answer_status env res i2 = Done i'" by simp
      have "\<not> rw_wrote_header (ar_w i2)" "so_status res \<in> final_statuses" using e f False by auto
      from answer_status_answered [OF a this(2,1)] e f o False show ?thesis by auto
    qed
  qed
qed

lemma preview_pass:
  assumes "resp_and_req_mods env (Suc (Suc n)) True i = Some (Done i')" and "loaded i bs" and "\<not> rw_wrote_header (ar_w i)"
  shows "(bs_spawned (ar_biz i') = bs_spawned (ar_biz i) \<or>
            (\<exists>t. bs_spawned (ar_biz i') = bs_spawned (ar_biz i) @ [t] \<and>
                 rt_body t = fst (read_the_rest (ae_http env) (ar_req i) (rw_conn (ar_w i))))) \<and>
         (\<not> ar_shadow i \<longrightarrow> answered {400} (rw_out (ar_w i)) i' \<or>
            answered answer_codes (rw_out (ar_w i) @ continue_line) i')"
proof -
  obtain refused i1 where b: "before_service env True i = Done (refused, i1)"
    using assms(1) by (cases "before_service env True i") auto
  note e = before_service_effect [OF b assms(2,3)]
  show ?thesis
  proof (cases refused)
    case True
    with assms(1) b have "i' = i1" by simp
    with e True show ?thesis by auto
  next
    case False
    with assms(1) b obtain res i2 where s: "ask_service env True i1 = Done (res, i2)"
      by (cases "ask_service env True i1") auto
    note f = ask_service_effect [OF s]
    have l: "loaded i2 bs" using ask_service_loaded [OF s] e False by simp
    show ?thesis
    proof (cases "ar_shadow i2")
      case True
      with assms(1) b s False have "i' = i2" by simp
      with True e f False show ?thesis by auto
    next
      case noshadow: False
      with assms(1) b s False f obtain i3 where
        r: "fetch_rest env i2 = Done i3" "resp_and_req_mods env (Suc n) False i3 = Some (Done i')"
        by (cases "fetch_rest env i2") auto
      note g = fetch_rest_effect [OF r(1) l]
      have orig: "fst (read_the_rest (ae_http env) (ar_req i2) (rw_conn (ar_w i2))) =
          fst (read_the_rest (ae_http env) (ar_req i) (rw_conn (ar_w i)))"
        using e f False read_the_rest_orig [of "ar_req i2" "ar_req i"] by simp
      have w: "\<not> rw_wrote_header (ar_w i3)" using e f g False by simp
      have o: "rw_out (ar_w i3) = rw_out (ar_w i) @ continue_line" using e f g False by (simp add: rw_out_def)
      from whole_body_pass [OF r(2) conjunct1 [OF g] w] e f g o orig False show ?thesis by auto
    qed
  qed
qed

lemma two_passes: "resp_and_req_mods env (Suc (Suc n)) p i \<noteq> None"
proof -
  have whole: "resp_and_req_mods env (Suc n) False i \<noteq> None" for n i
  proof (cases "before_service env False i")
    case (Done x)
    obtain refused i1 where "x = (refused, i1)" by (cases x)
    with Done show ?thesis
      using ask_service_effect [of env False i1] by (cases "ask_service env False i1") auto
  qed simp
  show ?thesis
  proof (cases "before_service env p i")
    case (Done x)
    obtain refused i1 where x: "x = (refused, i1)" by (cases x)
    show ?thesis
    proof (cases "ask_service env p i1")
      case s: (Done y)
      obtain res i2 where "y = (res, i2)" by (cases y)
      with Done x s show ?thesis
        using whole [of n] by (auto simp del: resp_and_req_mods.simps(2) simp: resp_and_req_mods.simps(2) [of env "Suc n"]
            split: outcome.splits)
    qed (use Done x in simp)
  qed simp
qed

text \<open>Loading leaves everything but the messages alone.\<close>

definition same_rest :: "api_request \<Rightarrow> api_request \<Rightarrow> bool" where
  "same_rest i i' \<longleftrightarrow>
     rw_out (ar_w i') = rw_out (ar_w i) \<and> rw_wrote_header (ar_w i') = rw_wrote_header (ar_w i) \<and>
     ar_biz i' = ar_biz i \<and> ar_shadow i' = ar_shadow i \<and> ar_business_applied i' = ar_business_applied i \<and>
     ir_orig (ar_req i') = ir_orig (ar_req i) \<and> ar_method i' = ar_method i \<and>
     ir_method (ar_req i') = ir_method (ar_req i)"

lemma load_request_effect:
  assumes "load_request env i = Done i'" and "ir_request (ar_req i) = Some r"
    and "read_body (ae_http env) (rq_body r) (rw_conn (ar_w i)) = Done (bs, err, left, c)"
  shows "same_rest i i' \<and> rw_conn (ar_w i') = c \<and> is_partial i' = is_partial i \<and>
    (\<exists>r' org. ir_request (ar_req i') = Some r' \<and> rq_body r' = BytesBody bs \<and>
              ir_org (ar_req i') = Some org \<and> rq_body org = BytesBody bs)"
  using assms read_body_output [OF assms(3)]
  by (cases "lib_new_request (ae_http env) (rq_method r) (lib_url_string (ae_http env) (rq_url r))")
    (auto simp: load_request_def same_rest_def rw_out_def Let_def is_partial_def)

lemma load_request_body:
  assumes "load_request env i = Done i'"
  obtains r bs err left c where "ir_request (ar_req i) = Some r"
    "read_body (ae_http env) (rq_body r) (rw_conn (ar_w i)) = Done (bs, err, left, c)"
  using assms by (auto simp: load_request_def bind_outcome_Done_iff split: option.splits)

lemma load_response_effect:
  assumes "load_response env i = Done i'"
  shows "same_rest i i' \<and> (\<exists>r bs. ir_response (ar_req i') = Some r \<and> rs_body r = BytesBody bs)"
proof -
  obtain r bs err left c where r: "ir_response (ar_req i) = Some r"
    "read_body (ae_http env) (rs_body r) (rw_conn (ar_w i)) = Done (bs, err, left, c)"
    using assms by (auto simp: load_response_def bind_outcome_Done_iff split: option.splits)
  with assms read_body_output [OF r(2)] show ?thesis
    by (auto simp: load_response_def same_rest_def rw_out_def set_response_def)
qed

lemma load_body_loaded:
  assumes "bind_outcome (load_body env i) host_header = Done i'" and "ir_method (ar_req i) = ar_method i"
    and "ar_method i \<in> {''REQMOD'', ''RESPMOD''}"
  shows "\<exists>bs. loaded i' bs \<and> same_rest i i'"
proof -
  obtain i1 where l: "load_body env i = Done i1" "host_header i1 = Done i'"
    using assms(1) by (auto simp: bind_outcome_Done_iff)
  show ?thesis
  proof (cases "ar_method i = ''RESPMOD''")
    case True
    with l(1) have r: "load_response env i = Done i1" by (simp add: load_body_def)
    from load_response_effect [OF this] l(2) True assms(2) show ?thesis
      by (auto simp: host_header_def loaded_def same_rest_def)
  next
    case False
    with l(1) assms(2,3) have r: "load_request env i = Done i1" by (simp add: load_body_def)
    then obtain r0 bs err left c where r0: "ir_request (ar_req i) = Some r0"
      "read_body (ae_http env) (rq_body r0) (rw_conn (ar_w i)) = Done (bs, err, left, c)" by (rule load_request_body)
    from load_request_effect [OF r r0] obtain r org where q: "same_rest i i1" "ir_request (ar_req i1) = Some r"
      "rq_body r = BytesBody bs" "ir_org (ar_req i1) = Some org" "rq_body org = BytesBody bs" by blast
    with l(2) False assms(2,3) show ?thesis
      by (auto simp: host_header_def loaded_def same_rest_def)
  qed
qed

end
