(* ===== verification/Answering.thy ===== *)
theory Answering
  imports ApiRequest
begin

text \<open>
  When the handler answers: a REQMOD request whose body can be read is processed without a panic, provided the
  service belongs to a known vendor, block pages can be encoded and the scanners behind the services answer.
\<close>

section \<open>Results that are there\<close>

text \<open>A computation that does not panic and whose result satisfies \<open>P\<close>.\<close>

definition completes :: "('a \<Rightarrow> bool) \<Rightarrow> 'a outcome \<Rightarrow> bool" where
  "completes P m \<longleftrightarrow> (\<exists>x. m = Done x \<and> P x)"

lemma completes_simps [simp]:
  "completes P (Done x) \<longleftrightarrow> P x"
  "\<not> completes P (Panic s)"
  "completes P (bind_outcome m f) \<longleftrightarrow> completes (\<lambda>x. completes P (f x)) m"
  by (cases m; simp add: completes_def)+

lemma completes_mono: "completes Q m \<Longrightarrow> (\<And>x. Q x \<Longrightarrow> P x) \<Longrightarrow> completes P m"
  by (auto simp: completes_def)

lemma completesD: "completes P m \<Longrightarrow> m = Done x \<Longrightarrow> P x"
  by (simp add: completes_def)

section \<open>Bodies that can be read at once\<close>

definition held :: "body \<Rightarrow> bool" where
  "held bd \<longleftrightarrow> (case bd of EmptyBody \<Rightarrow> True | BytesBody bs \<Rightarrow> True | _ \<Rightarrow> False)"

lemma held_simps [simp]: "held EmptyBody" "held (BytesBody bs)" "\<not> held NilBody" "\<not> held (ConnBody b n e)"
  by (simp_all add: held_def)

definition hm_held :: "http_message \<Rightarrow> bool" where
  "hm_held hm \<longleftrightarrow> (case hm_request hm of None \<Rightarrow> False | Some r \<Rightarrow> held (rq_body r))"

lemma hm_held_iff: "hm_held hm \<longleftrightarrow> (\<exists>r. hm_request hm = Some r \<and> held (rq_body r))"
  by (auto simp: hm_held_def split: option.splits)

lemma hm_held_set [simp]: "hm_held (hm\<lparr>hm_request := Some r\<rparr>) \<longleftrightarrow> held (rq_body r)" "hm_held (hm\<lparr>hm_response := rs\<rparr>) \<longleftrightarrow> hm_held hm"
  by (simp_all add: hm_held_def)

fun svc_held :: "svc_msg \<Rightarrow> bool" where
  "svc_held (SvcRequest r) = held (rq_body r)"
| "svc_held (SvcResponse r) = held (rs_body r)"
| "svc_held _ = True"

lemma read_body_held: "held bd \<Longrightarrow> completes (\<lambda>(bs, err, left, c'). c' = c \<and> held left) (read_body lib bd c)"
  by (cases bd) (simp_all add: read_body_def)

section \<open>The utilities\<close>

lemma copying_file_held:
  assumes "hm_held hm"
  shows "completes (\<lambda>(res, hm', c'). c' = c \<and> hm_held hm' \<and> (\<exists>file ct. res = Inr (file, Some ct)))
    (copying_file_to_the_buffer lib ''REQMOD'' hm c)"
proof -
  obtain r where r: "hm_request hm = Some r" "held (rq_body r)" using assms by (auto simp: hm_held_iff)
  show ?thesis
    by (auto simp: copying_file_to_the_buffer_def copying_file_req_def get_content_type_def r(1) Let_def split: prod.splits
        intro!: completes_mono [OF read_body_held [OF r(2)]])
qed

lemma returning_message_held:
  assumes "hm_held hm"
  shows "completes (\<lambda>(msg, hm'). svc_held msg \<and> hm_held hm') (returning_http_message_with_file ''REQMOD'' file hm)"
    and "completes (\<lambda>(msg, hm'). svc_held msg \<and> hm_held hm') (returning_http_message ''REQMOD'' file hm)"
  using assms by (auto simp: returning_http_message_with_file_def returning_http_message_def hm_held_iff Let_def)

definition pages_encode :: "svc_lib \<Rightarrow> bool" where
  "pages_encode lib \<longleftrightarrow> (\<forall>page. \<not> isl (sl_page_json lib page))"

lemma err_page_held:
  assumes "hm_held hm" and "pages_encode lib"
  shows "completes (\<lambda>(res, hm'). hm_held hm' \<and> (\<exists>page req. res = Inr (page, req))) (req_mod_err_page lib reason sv ident sz hm)"
proof -
  obtain r where r: "hm_request hm = Some r" using assms(1) by (auto simp: hm_held_iff)
  have "sl_page_json lib page \<noteq> Inl e" for page e
    using assms(2) sum.disc(1) by (metis pages_encode_def)
  then show ?thesis using r by (auto simp: req_mod_err_page_def Let_def split: sum.splits)
qed

lemma preparing_file_completes [simp]: "completes P (preparing_file_after_scanning lib file (Some ct) ''REQMOD'') \<longleftrightarrow>
    P (body_after_scanning lib ct file)"
  by (simp add: preparing_file_after_scanning_def)

lemma max_size_held:
  assumes "hm_held hm" and "pages_encode lib"
  shows "completes (\<lambda>(status, f, msg, hm'). hm_held hm' \<and> f \<noteq> None) (if_max_file_size_exc lib ro sv ''REQMOD'' file pp sz md hm)"
  using assms by (auto simp: if_max_file_size_exc_def intro!: completes_mono [OF err_page_held])

lemma status_204_held:
  assumes "hm_held hm" and "file \<noteq> None"
  shows "completes (\<lambda>(prep, msg', hm'). hm_held hm') (if_status_is_204_with_file lib ''REQMOD'' status file gz (Some ct) msg e hm)"
  using assms by (auto simp: if_status_is_204_with_file_def intro!: completes_mono [OF returning_message_held(1)])

lemma icap_status_204_held:
  assumes "hm_held hm"
  shows "completes (\<lambda>(prep, msg', hm'). hm_held hm' \<and> svc_held msg') (if_icap_status_is_204 lib ''REQMOD'' 204 file gz (Some ct) msg hm)"
  using assms by (auto simp: if_icap_status_is_204_def intro!: completes_mono [OF returning_message_held(2)])

lemma check_the_extension_held:
  assumes "hm_held hm" and "pages_encode lib"
  shows "completes (\<lambda>(go, status, msg, hm'). hm_held hm' \<and> svc_held msg)
    (check_the_extension lib fe arrs pe re be r4 gz sv ''REQMOD'' ident uri (Some ct) file pp sz md hm)"
  using assms
  by (auto simp: check_the_extension_def split: option.splits svc_msg.splits
      intro!: completes_mono [OF err_page_held] completes_mono [OF icap_status_204_held])

lemma log_headers_held: "hm_held hm \<Longrightarrow> completes (\<lambda>hs. True) (log_http_msg_headers ''REQMOD'' hm)"
  by (auto simp: log_http_msg_headers_def hm_held_iff)

lemma request_of_held: "hm_held hm \<Longrightarrow> completes (\<lambda>r. True) (request_of hm)"
  by (auto simp: request_of_def hm_held_iff)

lemma content_type_of_held: "hm_held hm \<Longrightarrow> ca_method ca = ''REQMOD'' \<Longrightarrow> completes (\<lambda>ct. True) (content_type_of ca hm)"
  by (auto simp: content_type_of_def hm_held_iff)

section \<open>The services\<close>

text \<open>A service that answers: the connection as it was, and every body it returns or keeps in memory.\<close>

definition answers :: "conn_io \<Rightarrow> (svc_out \<times> svc_state) outcome \<Rightarrow> bool" where
  "answers c = completes (\<lambda>(r, st). ss_conn st = c \<and> svc_held (so_msg r) \<and> hm_held (ss_msg st))"

lemma answers_simps [simp]:
  "answers c (Done (r, st)) \<longleftrightarrow> ss_conn st = c \<and> svc_held (so_msg r) \<and> hm_held (ss_msg st)"
  "\<not> answers c (Panic s)"
  "answers c (bind_outcome m f) \<longleftrightarrow> completes (\<lambda>x. answers c (f x)) m"
  by (simp_all add: answers_def)

lemma stop_logged_answers:
  assumes "hm_held (ss_msg st)" and "svc_held msg" and "ca_method ca = ''REQMOD''"
  shows "answers (ss_conn st) (stop_logged ca status msg hs b st)"
  using assms by (auto simp: stop_logged_def intro!: completes_mono [OF log_headers_held])

lemma answers_at: "answers c m \<Longrightarrow> c = c' \<Longrightarrow> answers c' m"
  by simp

lemma max_size_answers:
  assumes "hm_held (ss_msg st)" and "pages_encode lib" and "ca_method ca = ''REQMOD''"
  shows "answers (ss_conn st) (max_size_stop lib cfg ca file (Some ct) pp sz hs b st)"
  using assms
  by (auto simp: max_size_stop_def set_msg_body_def split: option.splits svc_msg.splits
      intro!: completes_mono [OF max_size_held] completes_mono [OF status_204_held] stop_logged_answers [THEN answers_at])

lemma block_answers:
  assumes "hm_held (ss_msg st)" and "pages_encode lib" and "ca_method ca = ''REQMOD''"
  shows "answers (ss_conn st) (block_stop lib cfg ca fh pp sz hs rhs b st)"
  using assms
  by (auto simp: block_stop_def intro!: completes_mono [OF err_page_held] stop_logged_answers [THEN answers_at])

lemma echo_answers:
  assumes "hm_held (ss_msg st)" and "pages_encode lib" and "ca_method ca = ''REQMOD''"
  shows "answers (ss_conn st) (echo_processing lib cfg ca p st)"
  unfolding echo_processing_def Let_def
  using assms
  by (auto intro!: completes_mono [OF log_headers_held] completes_mono [OF copying_file_held] completes_mono [OF request_of_held]
      completes_mono [OF content_type_of_held] completes_mono [OF check_the_extension_held] completes_mono [OF returning_message_held(1)]
      max_size_answers [THEN answers_at] stop_logged_answers [THEN answers_at])

lemma scan_processing_answers:
  assumes "\<And>file ct sz b st. hm_held (ss_msg st) \<Longrightarrow> answers (ss_conn st) (scan file (Some ct) sz b st)"
    and "hm_held (ss_msg st)" and "pages_encode lib" and "ca_method ca = ''REQMOD''"
  shows "answers (ss_conn st) (scan_processing lib cfg ca scan p st)"
  unfolding scan_processing_def Let_def byte_range_def
  using assms(2-4)
  by (auto intro!: completes_mono [OF log_headers_held] completes_mono [OF copying_file_held] completes_mono [OF request_of_held]
      completes_mono [OF content_type_of_held] completes_mono [OF check_the_extension_held] completes_mono [OF returning_message_held(1)]
      max_size_answers [THEN answers_at] stop_logged_answers [THEN answers_at] assms(1) [THEN answers_at])

text \<open>The scanner of a vendor answers: the daemon has a verdict or an error in time, the address of the lookup can be
  parsed.\<close>

definition scanner_answers :: "scan_lib \<Rightarrow> string \<Rightarrow> bool" where
  "scanner_answers sl vendor \<longleftrightarrow>
     (vendor = ''clamav'' \<longrightarrow> (\<forall>file results. scl_clamd sl file \<noteq> Inr (False, results))) \<and>
     (vendor = ''clhashlookup'' \<longrightarrow> (\<forall>url timeout. scl_lookup sl url timeout \<noteq> BadUrl))"

lemma clamav_scan_answers:
  assumes "hm_held (ss_msg st)" and "pages_encode (scl_svc sl)" and "ca_method ca = ''REQMOD''" and "scanner_answers sl ''clamav''"
  shows "answers (ss_conn st) (clamav_scan sl cfg ca file (Some ct) sz b st)"
proof -
  have "scl_clamd sl file \<noteq> Inr (False, results)" for results using assms(4) by (simp add: scanner_answers_def)
  with assms(1-3) show ?thesis
    by (auto simp: clamav_scan_def Let_def set_msg_body_def split: sum.splits option.splits svc_msg.splits
        intro!: block_answers completes_mono [OF icap_status_204_held] stop_logged_answers [THEN answers_at])
qed

lemma hashlookup_scan_answers:
  assumes "hm_held (ss_msg st)" and "pages_encode (scl_svc sl)" and "ca_method ca = ''REQMOD''" and "scanner_answers sl ''clhashlookup''"
  shows "answers (ss_conn st) (hashlookup_scan sl cfg ca file (Some ct) sz b st)"
proof -
  have "completes (\<lambda>x. True) (send_file_to_scan sl cfg file)"
    using assms(4) by (auto simp: send_file_to_scan_def scanner_answers_def Let_def split: lookup_result.splits)
  note sent = completes_mono [OF this]
  from assms(1-3) show ?thesis
    by (auto simp: hashlookup_scan_def Let_def split: sum.splits
        intro!: sent block_answers completes_mono [OF log_headers_held] completes_mono [OF returning_message_held(1)])
qed

lemma get_service_answers:
  assumes "get_service sl g vendor ca = Done (Some proc)" and "hm_held (ss_msg st)" and "pages_encode (scl_svc sl)"
    and "ca_method ca = ''REQMOD''" and "scanner_answers sl vendor"
  shows "answers (ss_conn st) (proc p st)"
proof -
  have "answers (ss_conn st) (clamav_processing sl c ca p st)" if "scanner_answers sl ''clamav''" for c
    unfolding clamav_processing_def by (intro scan_processing_answers clamav_scan_answers assms that; assumption)
  moreover have "answers (ss_conn st) (hashlookup_processing sl c ca p st)" if "scanner_answers sl ''clhashlookup''" for c
    unfolding hashlookup_processing_def by (intro scan_processing_answers hashlookup_scan_answers assms that; assumption)
  ultimately show ?thesis
    using get_service_Some [OF assms(1)] echo_answers [OF assms(2-4)] assms(5) by auto
qed

section \<open>The service of a request\<close>

definition known_vendor :: "string \<Rightarrow> bool" where
  "known_vendor v \<longleftrightarrow> v \<in> {''echo'', ''clhashlookup'', ''clamav''}"

text \<open>Every service of a known vendor finds the configuration of its vendor.\<close>

lemma init_service_config_keeps:
  "(sg_echo g \<noteq> None \<longrightarrow> sg_echo (init_service_config read v name g) \<noteq> None) \<and>
   (sg_hashlookup g \<noteq> None \<longrightarrow> sg_hashlookup (init_service_config read v name g) \<noteq> None) \<and>
   (sg_clamav g \<noteq> None \<longrightarrow> sg_clamav (init_service_config read v name g) \<noteq> None)"
  by (auto simp: init_service_config_def do_once_def split: option.splits)

definition vendor_ready :: "string \<Rightarrow> svc_globals \<Rightarrow> bool" where
  "vendor_ready v g \<longleftrightarrow> (v = ''echo'' \<longrightarrow> sg_echo g \<noteq> None) \<and> (v = ''clhashlookup'' \<longrightarrow> sg_hashlookup g \<noteq> None) \<and>
     (v = ''clamav'' \<longrightarrow> sg_clamav g \<noteq> None)"

lemma init_service_config_ready:
  "vendor_ready v (init_service_config read v name g)" "vendor_ready v g \<Longrightarrow> vendor_ready v (init_service_config read' v' name g)"
  using init_service_config_keeps [of g read' v' name]
  by (simp_all add: vendor_ready_def init_service_config_def do_once_def split: option.splits)

lemma services_ready:
  assumes "(name, inst) \<in> set insts"
  shows "vendor_ready (si_vendor inst) (fold (\<lambda>(name, inst). init_service_config (read (si_vendor inst)) (si_vendor inst) name) insts g)"
proof -
  have keep: "vendor_ready v g \<Longrightarrow> vendor_ready v (fold (\<lambda>(name, inst). init_service_config (read (si_vendor inst)) (si_vendor inst) name) xs g)"
    for v xs g
    by (induction xs arbitrary: g) (auto intro: init_service_config_ready(2))
  show ?thesis
    using assms by (induction insts arbitrary: g) (auto intro: keep init_service_config_ready(1))
qed

lemma get_service_ready:
  assumes "known_vendor v" and "vendor_ready v g"
  shows "\<exists>proc. get_service sl g v ca = Done (Some proc)"
proof -
  consider (echo) "v = ''echo''" | (hashlookup) "v = ''clhashlookup''" | (clamav) "v = ''clamav''"
    using assms(1) by (auto simp: known_vendor_def)
  then show ?thesis
  proof cases
    case echo
    with assms(2) obtain c where "sg_echo g = Some c" by (auto simp: vendor_ready_def)
    with echo show ?thesis by (simp add: get_service_def new_echo_service_def)
  next
    case hashlookup
    with assms(2) obtain c where "sg_hashlookup g = Some c" by (auto simp: vendor_ready_def)
    with hashlookup show ?thesis by (simp add: get_service_def new_hashlookup_service_def)
  next
    case clamav
    with assms(2) obtain c where "sg_clamav g = Some c" by (auto simp: vendor_ready_def)
    with clamav show ?thesis by (simp add: get_service_def new_clamav_service_def)
  qed
qed

text \<open>The request has a service to go to, which answers: the vendor is known and has its configuration, block pages can be
  encoded, the scanner answers. Every step leaves it with that.\<close>

definition service_answers :: "api_env \<Rightarrow> api_request \<Rightarrow> bool" where
  "service_answers env i \<longleftrightarrow> known_vendor (ar_vendor i) \<and> vendor_ready (ar_vendor i) (ar_globals i) \<and>
     pages_encode (scl_svc (ae_scan env)) \<and> scanner_answers (ae_scan env) (ar_vendor i)"

definition same_service :: "api_request \<Rightarrow> api_request \<Rightarrow> bool" where
  "same_service i i' \<longleftrightarrow> ar_vendor i' = ar_vendor i \<and> ar_globals i' = ar_globals i \<and> ar_method i' = ar_method i"

lemma same_service_answers: "same_service i i' \<Longrightarrow> service_answers env i \<Longrightarrow> service_answers env i'"
  by (simp add: same_service_def service_answers_def)

lemma same_service_trans: "same_service i j \<Longrightarrow> same_service j k \<Longrightarrow> same_service i k"
  by (simp add: same_service_def)

lemma same_service_simps [simp]:
  "same_service i i" "same_service i (set_request r i)" "same_service i (set_conn c i)" "same_service i (set_response rs i)"
  "same_service i (put_header k v i)" "same_service i (fold (\<lambda>(k, v). put_header k v) hs i)" "same_service i (default_request i)"
proof -
  show put: "same_service i (put_header k v i)" for k v i by (simp add: same_service_def put_header_def)
  show "same_service i (fold (\<lambda>(k, v). put_header k v) hs i)"
    by (induction hs arbitrary: i) (auto intro: same_service_trans [OF put] simp: same_service_def [of i i for i])
qed (simp_all add: same_service_def set_request_def set_conn_def set_response_def default_request_def split: option.split)

lemma same_service_update [simp]:
  "same_service i (j\<lparr>ar_w := w\<rparr>) \<longleftrightarrow> same_service i j" "same_service i (j\<lparr>ar_req := r\<rparr>) \<longleftrightarrow> same_service i j"
  "same_service i (j\<lparr>ar_biz := b\<rparr>) \<longleftrightarrow> same_service i j" "same_service i (j\<lparr>ar_pending := p\<rparr>) \<longleftrightarrow> same_service i j"
  "same_service i (j\<lparr>ar_business_applied := p\<rparr>) \<longleftrightarrow> same_service i j" "same_service i (j\<lparr>ar_org_alias := p\<rparr>) \<longleftrightarrow> same_service i j"
  by (simp_all add: same_service_def)

section \<open>Steps that complete\<close>

lemma answer_completes:
  assumes "\<forall>r. msg = ReqMsg r \<longrightarrow> held (rq_body r)" and "\<forall>r. msg = RespMsg r \<longrightarrow> held (rs_body r)"
  shows "completes (\<lambda>i'. same_service i i') (answer env code msg hb i)"
proof -
  have "completes (\<lambda>w'. True) (write_msg_body lib msg w)" for lib w
    using assms by (cases msg) (auto simp: write_msg_body_def intro!: completes_mono [OF read_body_held])
  from completes_mono [OF this] have "completes (\<lambda>w'. True) (write_header lib code msg hb w)" for lib w
    by (auto simp: write_header_eq)
  note written = completes_mono [OF this]
  show ?thesis by (auto simp: answer_def intro!: written)
qed

lemma plain_answer_completes: "completes (\<lambda>i'. same_service i i') (answer env code NoMsg hb i)"
  by (rule answer_completes) simp_all

lemma process_request_completes:
  assumes "bs_request st = Some r" and "rq_body r = BytesBody bs"
  shows "completes (\<lambda>x. True) (process_request h env icap p st)"
proof -
  have snap: "completes (\<lambda>x. True) (snapshot_body lib st')" if "\<exists>r bs. bs_request st' = Some r \<and> rq_body r = BytesBody bs" for lib st'
    using that by (auto simp: snapshot_body_def)
  have "completes (\<lambda>x. True) (apply_config lib p identity attrs cfg st')" if "\<exists>r bs. bs_request st' = Some r \<and> rq_body r = BytesBody bs"
    for lib identity attrs cfg st'
    using completes_mono [OF snap [OF that, of lib]] by (auto simp: apply_config_def)
  then have "completes (\<lambda>x. True) (route_request h env p identity attrs st')" if "\<exists>r bs. bs_request st' = Some r \<and> rq_body r = BytesBody bs"
    for identity attrs st'
    using that by (auto simp: route_request_def Let_def split: sum.splits option.splits)
  then show ?thesis
    using assms by (auto simp: process_request_def Let_def split: prod.splits sum.splits)
qed

lemma business_completes:
  assumes "loaded i bs" and "ar_method i = ''REQMOD''"
  shows "completes (\<lambda>(refused, i'). same_service i i') (bind_outcome (run_business env h benv p i)
      (\<lambda>((status, deferred, err), i2). conclude_business env status (d deferred) i2))"
proof -
  obtain r where r: "ir_request (ar_req i) = Some r" "rq_body r = BytesBody bs" using assms by (auto simp: loaded_def)
  have p: "completes (\<lambda>x. True) (process_request h benv (ir_header (ar_req i)) p
      ((ar_biz i)\<lparr>bs_request := ir_request (ar_req i), bs_conn := rw_conn (ar_w i)\<rparr>))"
    by (rule process_request_completes [OF _ r(2)]) (simp add: r(1))
  have c: "completes (\<lambda>(refused, i'). same_service j i') (conclude_business env status q j)" for status q j
  proof -
    have "same_service (j\<lparr>ar_pending := q\<rparr>) = same_service j" by (simp add: same_service_def fun_eq_iff)
    with plain_answer_completes [of "j\<lparr>ar_pending := q\<rparr>" env 400 False] show ?thesis
      by (simp add: conclude_business_def Let_def)
  qed
  have s: "same_service i (set_conn c (set_request r (i\<lparr>ar_biz := st\<rparr>)))" for c r st
    by (simp add: same_service_def set_conn_def set_request_def)
  show ?thesis
    by (auto simp: run_business_def intro!: completes_mono [OF p] completes_mono [OF c] intro: same_service_trans [OF s])
qed

lemma before_service_completes:
  assumes "loaded i bs" and "ar_method i = ''REQMOD''"
  shows "completes (\<lambda>(refused, i'). same_service i i') (before_service env p i)"
proof -
  let ?i = "i\<lparr>ar_business_applied := True\<rparr>"
  have b: "completes (\<lambda>u. True) (bodies_present i)" and d: "default_request i = i"
    using assms by (auto simp: bodies_present_def loaded_def default_request_def)
  have l: "loaded ?i bs" "ar_method ?i = ''REQMOD''" using assms by (simp_all add: loaded_def)
  have "same_service ?i = same_service i" by (simp add: same_service_def fun_eq_iff)
  then have "completes (\<lambda>(refused, i'). same_service i i') (apply_business env p i)"
    using business_completes [OF l, of env _ "ae_first env" p "\<lambda>d. d"] business_completes [OF assms, of env _ "ae_flush env" False "\<lambda>d. False"]
    by (auto simp: apply_business_def Let_def split: option.splits)
  then show ?thesis by (auto simp: before_service_def d intro!: completes_mono [OF b])
qed

definition request_held :: "api_request \<Rightarrow> bool" where
  "request_held i \<longleftrightarrow> (\<exists>r. ir_request (ar_req i) = Some r \<and> held (rq_body r)) \<and>
     (\<exists>org. ir_org (ar_req i) = Some org \<and> held (rq_body org))"

lemma loaded_held: "loaded i bs \<Longrightarrow> ar_method i = ''REQMOD'' \<Longrightarrow> request_held i"
  by (auto simp: loaded_def request_held_def)

lemma ask_service_completes:
  assumes "service_answers env i" and "ar_method i = ''REQMOD''" and "request_held i"
  shows "completes (\<lambda>(res, i'). same_service i i' \<and> rw_conn (ar_w i') = rw_conn (ar_w i) \<and> request_held i' \<and> svc_held (so_msg res))
    (ask_service env p i)"
proof -
  let ?st = "\<lparr>ss_msg = \<lparr>hm_request = ir_request (ar_req i), hm_response = ir_response (ar_req i)\<rparr>,
      ss_conn = rw_conn (ar_w i), ss_icap = ir_header (ar_req i)\<rparr>"
  obtain proc where s: "get_service (ae_scan env) (ar_globals i) (ar_vendor i) (call_of env i) = Done (Some proc)"
    using get_service_ready [of "ar_vendor i" "ar_globals i" "ae_scan env" "call_of env i"] assms(1) by (auto simp: service_answers_def)
  have h: "hm_held (ss_msg ?st)" using assms(3) by (auto simp: request_held_def hm_held_iff)
  have "answers (ss_conn ?st) (proc p ?st)"
    using get_service_answers [OF s h] assms(1,2) by (simp add: service_answers_def call_of_def)
  then have fin: "completes (\<lambda>(r, st). ss_conn st = rw_conn (ar_w i) \<and> svc_held (so_msg r) \<and> hm_held (ss_msg st)) (proc p ?st)"
    by (simp add: answers_def)
  have same: "same_service i (fold (\<lambda>(k, v). put_header k v) hs (set_conn c (i\<lparr>ar_req := r\<rparr>)))" for hs c r
    by (rule same_service_trans [OF _ same_service_simps(6)]) (simp add: same_service_def set_conn_def)
  show ?thesis
    using assms(3)
    by (auto simp: ask_service_def required_service_def s request_held_def hm_held_iff
        intro!: completes_mono [OF fin] same)
qed

lemma answer_status_completes:
  assumes "ar_method i = ''REQMOD''" and "request_held i" and "svc_held (so_msg res)"
  shows "completes (\<lambda>i'. True) (answer_status env res i)"
proof -
  have m: "completes (\<lambda>i'. True) (answer env code (msg_of (so_msg res)) hb i)" for code hb
    using assms(3) by (intro completes_mono [OF answer_completes]) (auto simp: msg_of_def split: svc_msg.splits)
  have r: "completes (\<lambda>i'. True) (answer env code (ReqMsg r) hb k)" if "held (rq_body r)" for code r hb k
    using that by (intro completes_mono [OF answer_completes]) auto
  have b: "completes held (org_body i)"
    using assms(2) by (auto simp: org_body_def request_held_def)
  have u: "completes (\<lambda>i'. True) (answer_unmodified env i)"
    using assms(2) by (auto simp: answer_unmodified_def Let_def request_held_def intro!: completes_mono [OF b] completes_mono [OF read_body_held] r)
  show ?thesis
    using m u assms(1) completes_mono [OF plain_answer_completes [of i env]] by (auto simp: answer_status_def Let_def)
qed

lemma whole_pass_completes:
  assumes "loaded i bs" and "ar_method i = ''REQMOD''" and "service_answers env i"
    and "\<not> rw_wrote_header (ar_w i)"
  shows "\<exists>i'. resp_and_req_mods env (Suc n) False i = Some (Done i')"
proof -
  obtain refused i1 where b: "before_service env False i = Done (refused, i1)" "same_service i i1"
    using before_service_completes [OF assms(1,2), of env False] by (auto simp: completes_def)
  show ?thesis
  proof (cases refused)
    case True
    with b(1) show ?thesis by simp
  next
    case False
    have i1: "service_answers env i1" "ar_method i1 = ''REQMOD''"
      using b(2) assms(2) same_service_answers [OF b(2) assms(3)] by (simp_all add: same_service_def)
    with before_service_effect [OF b(1) assms(1,4)] False loaded_held have h: "request_held i1" by auto
    obtain res i2 where s: "ask_service env False i1 = Done (res, i2)" "same_service i1 i2" "request_held i2" "svc_held (so_msg res)"
      using ask_service_completes [OF i1 h, of False] by (auto simp: completes_def)
    have "so_status res \<noteq> 100" using ask_service_effect [OF s(1)] by simp
    moreover obtain i3 where "answer_status env res i2 = Done i3"
      using answer_status_completes [OF _ s(3,4), of env] s(2) i1(2) by (auto simp: completes_def same_service_def)
    ultimately show ?thesis using b(1) s(1) False by simp
  qed
qed

lemma preview_pass_completes:
  assumes "loaded i bs" and "ar_method i = ''REQMOD''" and "service_answers env i"
    and "\<not> rw_wrote_header (ar_w i)"
  shows "\<exists>i'. resp_and_req_mods env (Suc (Suc n)) True i = Some (Done i')"
proof -
  obtain refused i1 where b: "before_service env True i = Done (refused, i1)" "same_service i i1"
    using before_service_completes [OF assms(1,2), of env True] by (auto simp: completes_def)
  show ?thesis
  proof (cases refused)
    case True
    with b(1) show ?thesis by simp
  next
    case False
    have i1: "service_answers env i1" "ar_method i1 = ''REQMOD''"
      using b(2) assms(2) same_service_answers [OF b(2) assms(3)] by (simp_all add: same_service_def)
    note e = before_service_effect [OF b(1) assms(1,4)]
    with i1 False have l: "loaded i1 bs" "request_held i1" using loaded_held by auto
    obtain res i2 where s: "ask_service env True i1 = Done (res, i2)" "same_service i1 i2"
      using ask_service_completes [OF i1 l(2), of True] by (auto simp: completes_def)
    note f = ask_service_effect [OF s(1)]
    have l2: "loaded i2 bs" using ask_service_loaded [OF s(1) l(1)] by simp
    show ?thesis
    proof (cases "ar_shadow i2")
      case True
      with b(1) s(1) False show ?thesis by simp
    next
      case noshadow: False
      have i2: "ar_method i2 = ''REQMOD''" "service_answers env i2"
        using s(2) i1(2) same_service_answers [OF s(2) i1(1)] by (simp_all add: same_service_def)
      obtain rest req c where q: "read_the_rest (ae_http env) (ar_req i2) (rw_conn (ar_w i2)) = (rest, req, c)"
        by (metis prod_cases3)
      with read_the_rest_effect [OF q] i2 l2 obtain i3 where r: "fetch_rest env i2 = Done i3" "same_service i2 i3"
        by (auto simp: fetch_rest_def Let_def loaded_def same_service_def set_conn_def)
      note g = fetch_rest_effect [OF r(1) l2]
      have "\<not> rw_wrote_header (ar_w i3)" using e f g False by simp
      moreover have "ar_method i3 = ''REQMOD''" "service_answers env i3"
        using r(2) i2(1) same_service_answers [OF r(2) i2(2)] by (simp_all add: same_service_def)
      ultimately obtain i' where "resp_and_req_mods env (Suc n) False i3 = Some (Done i')"
        using whole_pass_completes [OF conjunct1 [OF g]] by blast
      then show ?thesis using b(1) s(1) False noshadow f r(1) by simp
    qed
  qed
qed

lemma read_body_done:
  assumes "bd \<noteq> NilBody"
  shows "\<exists>bs err left c'. read_body lib bd c = Done (bs, err, left, c')"
proof (cases bd)
  case (ConnBody buf n err)
  then show ?thesis by (auto simp: read_body_def simp del: read_all.simps split: option.split prod.split)
qed (use assms in \<open>simp_all add: read_body_def\<close>)

lemma request_processing_completes:
  assumes "ar_method i = ''REQMOD''" and "ir_method (ar_req i) = ''REQMOD''" and "service_answers env i"
    and "\<not> rw_wrote_header (ar_w i)" and "ir_request (ar_req i) = Some r" and "rq_body r \<noteq> NilBody"
  shows "\<exists>i'. request_processing env 2 i = Some (Done i')"
proof -
  obtain bs err left c where rb: "read_body (ae_http env) (rq_body r) (rw_conn (ar_w i)) = Done (bs, err, left, c)"
    using read_body_done [OF assms(6)] by blast
  then obtain i1 where l: "load_request env i = Done i1" "same_service i i1"
    using assms(5) by (cases "lib_new_request (ae_http env) (rq_method r) (lib_url_string (ae_http env) (rq_url r))")
      (auto simp: load_request_def Let_def same_service_def set_conn_def)
  from load_request_effect [OF l(1) assms(5) rb] obtain r' org where e: "same_rest i i1"
    "ir_request (ar_req i1) = Some r'" "rq_body r' = BytesBody bs" "ir_org (ar_req i1) = Some org" "rq_body org = BytesBody bs" by blast
  define i2 where "i2 = set_request (Some (r'\<lparr>rq_header := hset (rq_header r') ''Host'' (rq_host r')\<rparr>)) i1"
  have h: "bind_outcome (load_body env i) host_header = Done i2"
    using assms(1,2) l e by (simp add: load_body_def host_header_def i2_def same_rest_def)
  have s: "same_service i1 i2" by (simp add: i2_def)
  have i2: "loaded i2 bs" "ar_method i2 = ''REQMOD''" "service_answers env i2" "\<not> rw_wrote_header (ar_w i2)"
    using e assms(1,2,4) same_service_answers [OF same_service_trans [OF l(2) s] assms(3)]
    by (auto simp: loaded_def i2_def same_rest_def)
  then have "\<exists>i'. resp_and_req_mods env (Suc (Suc 0)) (is_partial i2) i2 = Some (Done i')"
    using whole_pass_completes [OF i2(1-4), of "Suc 0"] preview_pass_completes [OF i2(1-4), of 0]
    by (cases "is_partial i2") auto
  then show ?thesis using h assms(1) by (simp add: request_processing_def numeral_2_eq_2)
qed

end
