(* ===== verification/ApiProperties.thy ===== *)
theory ApiProperties
  imports Answering
begin

text \<open>
  The properties of the request handler of \<open>api/icap-request.go\<close>: what an ICAP client gets for a request,
  what is recorded of it, and where the handler fails.
\<close>

section \<open>One answer, one recording\<close>

text \<open>C6: Outside shadow mode processing ends within two calls of the service, and unless it panics exactly one answer
  has been written, with one of five statuses, behind at most one \<open>100 Continue\<close>. It does not panic on a REQMOD request
  that has a body, be it empty, when the vendor is known and configured, block pages can be encoded and the vendor's scanner
  answers (ClamAV within its five seconds): such a request is always answered.\<close>

theorem request_answered_once:
  assumes "ir_method (ar_req i) = ar_method i" and "ar_method i \<in> {''REQMOD'', ''RESPMOD''}"
    and "\<not> ar_shadow i" and "\<not> rw_wrote_header (ar_w i)"
  shows "\<exists>r. request_processing env 2 i = Some r \<and>
    (\<forall>i'. r = Done i' \<longrightarrow> rw_wrote_header (ar_w i') \<and>
       (\<exists>asked \<in> {[], continue_line}. \<exists>code \<in> {200, 204, 400, 408, 500}. \<exists>rest.
          rw_out (ar_w i') = rw_out (ar_w i) @ asked @ status_line code @ rest)) \<and>
    (ar_method i = ''REQMOD'' \<and> service_answers env i \<and> (\<exists>rq. ir_request (ar_req i) = Some rq \<and> rq_body rq \<noteq> NilBody) \<longrightarrow>
       (\<exists>i'. r = Done i'))"
proof (cases "bind_outcome (load_body env i) host_header")
  case (Panic msg)
  with assms request_processing_completes [of i env] show ?thesis by (auto simp: request_processing_def)
next
  case (Done i1)
  from load_body_loaded [OF this assms(1,2)] obtain bs where l: "loaded i1 bs" "same_rest i i1" by blast
  have w: "\<not> rw_wrote_header (ar_w i1)" "\<not> ar_shadow i1" "rw_out (ar_w i1) = rw_out (ar_w i)"
    using l(2) assms(3,4) by (simp_all add: same_rest_def)
  obtain r where r: "resp_and_req_mods env (Suc (Suc 0)) (is_partial i1) i1 = Some r"
    using two_passes [of env 0] by blast
  have "rw_wrote_header (ar_w i') \<and> (\<exists>asked \<in> {[], continue_line}. \<exists>code \<in> answer_codes. \<exists>rest.
          rw_out (ar_w i') = rw_out (ar_w i) @ asked @ status_line code @ rest)" if "r = Done i'" for i'
  proof (cases "is_partial i1")
    case True
    from preview_pass [OF _ l(1) w(1)] r True that w(2,3)
    have "answered {400} (rw_out (ar_w i)) i' \<or> answered answer_codes (rw_out (ar_w i) @ continue_line) i'" by auto
    then show ?thesis by (fastforce simp: answered_def)
  next
    case False
    from whole_body_pass [OF _ l(1) w(1)] r False that w(2,3)
    have "answered answer_codes (rw_out (ar_w i)) i'" by auto
    then show ?thesis by (fastforce simp: answered_def)
  qed
  moreover from r Done assms(2) have "request_processing env 2 i = Some r" by (auto simp: request_processing_def numeral_2_eq_2)
  ultimately show ?thesis using request_processing_completes [of i env] assms(1,4) by auto
qed

text \<open>C7: A request is recorded at most once, although the business logic is asked twice when a preview was
  sent, and what is recorded is the whole body: the body as it was read, or after a preview what
  \<open>GetTheRest\<close> delivers.\<close>

theorem request_recorded_once:
  assumes "request_processing env 2 i = Some (Done i')"
    and "ir_method (ar_req i) = ''REQMOD''" and "ar_method i = ''REQMOD''" and "\<not> rw_wrote_header (ar_w i)"
    and "ir_request (ar_req i) = Some r"
    and "read_body (ae_http env) (rq_body r) (rw_conn (ar_w i)) = Done (bs, err, left, c)"
  shows "bs_spawned (ar_biz i') = bs_spawned (ar_biz i) \<or>
    (\<exists>t. bs_spawned (ar_biz i') = bs_spawned (ar_biz i) @ [t] \<and>
         rt_body t = (if is_partial i then fst (read_the_rest (ae_http env) (ar_req i) c) else bs))"
proof -
  obtain i1 i2 where s: "load_request env i = Done i1" "host_header i1 = Done i2"
    "resp_and_req_mods env (Suc (Suc 0)) (is_partial i2) i2 = Some (Done i')"
  proof -
    have e: "request_processing env 2 i = (case bind_outcome (load_request env i) host_header of
        Panic msg \<Rightarrow> Some (Panic msg) | Done i2 \<Rightarrow> resp_and_req_mods env 2 (is_partial i2) i2)"
      using assms(2,3) by (simp add: request_processing_def load_body_def)
    show thesis
    proof (cases "bind_outcome (load_request env i) host_header")
      case (Panic msg)
      with e assms(1) show thesis by simp
    next
      case (Done i2)
      with e assms(1) have "resp_and_req_mods env (Suc (Suc 0)) (is_partial i2) i2 = Some (Done i')"
        by (simp only: numeral_2_eq_2 outcome.case)
      with Done that show thesis by (auto simp only: bind_outcome_Done_iff)
    qed
  qed
  from load_request_effect [OF s(1) assms(5,6)] obtain r' org where
    l: "same_rest i i1" "rw_conn (ar_w i1) = c" "is_partial i1 = is_partial i" "ir_request (ar_req i1) = Some r'"
      "rq_body r' = BytesBody bs" "ir_org (ar_req i1) = Some org" "rq_body org = BytesBody bs" by blast
  have i2: "i2 = set_request (Some (r'\<lparr>rq_header := hset (rq_header r') ''Host'' (rq_host r')\<rparr>)) i1"
    using s(2) l(1,4) assms(3) by (simp add: host_header_def same_rest_def)
  have "loaded i2 bs"
    using l assms(2,3) by (simp add: i2 loaded_def same_rest_def)
  moreover have "rw_conn (ar_w i2) = c" "is_partial i2 = is_partial i" "ar_biz i2 = ar_biz i"
      "\<not> rw_wrote_header (ar_w i2)" "ir_orig (ar_req i2) = ir_orig (ar_req i)"
    using l(1-3) assms(4) by (simp_all add: i2 same_rest_def is_partial_def)
  ultimately have h: "loaded i2 bs" "rw_conn (ar_w i2) = c" "is_partial i2 = is_partial i"
    "ar_biz i2 = ar_biz i" "\<not> rw_wrote_header (ar_w i2)" "ir_orig (ar_req i2) = ir_orig (ar_req i)" by blast+
  show ?thesis
  proof (cases "is_partial i")
    case True
    then have "resp_and_req_mods env (Suc (Suc 0)) True i2 = Some (Done i')" using s(3) h(3) by (simp only:)
    from preview_pass [OF this h(1,5)] True h(2,4) read_the_rest_orig [OF h(6), of "ae_http env" c]
    show ?thesis by simp
  next
    case False
    then have "resp_and_req_mods env (Suc (Suc 0)) False i2 = Some (Done i')" using s(3) h(3) by (simp only:)
    from whole_body_pass [OF this h(1,5)] False h(4) show ?thesis by simp
  qed
qed

section \<open>Refusals\<close>

text \<open>C8: A request the business logic refuses is answered with status 400 and reaches no service: nothing
  depends on what the services would have said.\<close>

theorem refused_request_not_scanned:
  assumes "loaded i bs" and "ar_method i = ''REQMOD''" and "\<not> ar_business_applied i" and "\<not> rw_wrote_header (ar_w i)"
    and "ae_business env = Some h"
    and "process_request h (ae_first env) (ir_header (ar_req i)) p
           ((ar_biz i)\<lparr>bs_request := ir_request (ar_req i), bs_conn := rw_conn (ar_w i)\<rparr>) = Done ((400, d, err), st)"
  shows "\<exists>i'. resp_and_req_mods (env\<lparr>ae_scan := services\<rparr>) (Suc n) p i = Some (Done i') \<and>
    resp_and_req_mods env (Suc n) p i = Some (Done i') \<and>
    rw_wrote_header (ar_w i') \<and> (\<exists>rest. rw_out (ar_w i') = rw_out (ar_w i) @ status_line 400 @ rest) \<and>
    bs_spawned (ar_biz i') = bs_spawned (ar_biz i)"
proof -
  obtain r org where r: "ir_request (ar_req i) = Some r" "rq_body r = BytesBody bs"
    "ir_org (ar_req i) = Some org" "rq_body org = BytesBody bs"
    using assms(1,2) by (auto simp: loaded_def)
  let ?i = "i\<lparr>ar_business_applied := True\<rparr>"
  let ?i1 = "set_conn (bs_conn st) (set_request (bs_request st) (?i\<lparr>ar_biz := st\<rparr>))"
  have run: "run_business e h (ae_first env) p ?i = Done ((400, d, err), ?i1)" for e
    using assms(6) by (simp add: run_business_def)
  have w: "\<not> rw_wrote_header (ar_w (?i1\<lparr>ar_pending := d\<rparr>))" using assms(4) by simp
  obtain i' where a: "answer env 400 NoMsg False (?i1\<lparr>ar_pending := d\<rparr>) = Done i'"
    using w by (auto simp: answer_def write_header_def Let_def)
  have same: "answer (env\<lparr>ae_scan := services\<rparr>) = answer env" by (intro ext) (simp add: answer_def)
  have "before_service e p i = Done (True, i')" if "ae_business e = Some h" "ae_first e = ae_first env" "answer e = answer env" for e
    using that r assms(2,3) run a
    by (simp add: before_service_def bodies_present_def default_request_def apply_business_def conclude_business_def)
  then have b: "before_service env p i = Done (True, i')" "before_service (env\<lparr>ae_scan := services\<rparr>) p i = Done (True, i')"
    using assms(5) same by simp_all
  have "bs_request ((ar_biz i)\<lparr>bs_request := ir_request (ar_req i), bs_conn := rw_conn (ar_w i)\<rparr>) = Some r"
    using r by simp
  from process_request_loaded [OF assms(6) this r(2)] have "bs_spawned st = bs_spawned (ar_biz i)"
    "bs_conn st = rw_conn (ar_w i)" by simp_all
  then have "bs_spawned (ar_biz i') = bs_spawned (ar_biz i)"
    "rw_out (ar_w (?i1\<lparr>ar_pending := d\<rparr>)) = rw_out (ar_w i)"
    using answer_keeps(1) [OF a] by (simp_all add: rw_out_def)
  with b answer_starts [OF a w] show ?thesis by simp
qed

text \<open>The code a request is refused with before anything of it is read, if it is.\<close>

definition refusal_code :: "api_env \<Rightarrow> icap_request \<Rightarrow> nat option" where
  "refusal_code env req =
     (let name = drop 1 (u_path (ir_url req)); m = ir_method req in
      if name \<notin> set (ac_services (ae_config env)) then Some 404
      else if m \<in> {''OPTIONS'', ''options''} then None
      else if m \<notin> {''REQMOD'', ''RESPMOD''} then Some 405
      else (case map_of (ac_instances (ae_config env)) name of
              None \<Rightarrow> None
            | Some inst \<Rightarrow> if (if m = ''REQMOD'' then si_req_mode inst else si_resp_mode inst) then None else Some 405))"

lemma answer_unread:
  assumes "\<not> rw_wrote_header (ar_w i)"
  shows "\<exists>i' rest. answer env code NoMsg False i = Done i' \<and> c_in (rw_conn (ar_w i')) = c_in (rw_conn (ar_w i)) \<and>
    ar_biz i' = ar_biz i \<and> ar_req i' = ar_req i \<and> rw_out (ar_w i') = rw_out (ar_w i) @ status_line code @ rest"
proof -
  obtain w where w: "write_header (ae_http env) code NoMsg False (ar_w i) = Done w"
    using assms by (simp add: write_header_eq)
  then have a: "answer env code NoMsg False i = Done (i\<lparr>ar_w := w\<rparr>)" by (simp add: answer_def)
  from write_header_plain [OF w] answer_starts [OF a assms] a show ?thesis by auto
qed

text \<open>C14: A request for a service that is not configured is refused with 404, one with a method the service does not
  offer, or that is none of ICAP's, with 405, and no other is refused at this point. No byte of the body of a refused
  request has been read and nothing else has happened.\<close>

theorem refused_without_reading:
  assumes "u_path (ir_url (ar_req i)) \<noteq> []" and "\<not> rw_wrote_header (ar_w i)"
  shows "case refusal_code env (ar_req i) of
      None \<Rightarrow> \<forall>i'. request_initialization env i \<noteq> Done (Refused, i')
    | Some code \<Rightarrow> \<exists>i' rest. request_initialization env i = Done (Refused, i') \<and>
        c_in (rw_conn (ar_w i')) = c_in (rw_conn (ar_w i)) \<and> ar_biz i' = ar_biz i \<and> ar_req i' = ar_req i \<and>
        rw_out (ar_w i') = rw_out (ar_w i) @ status_line code @ rest"
proof -
  let ?s = "drop 1 (u_path (ir_url (ar_req i)))"
  let ?i1 = "i\<lparr>ar_service := ?s\<rparr>"
  let ?i2 = "?i1\<lparr>ar_method := ir_method (ar_req i)\<rparr>"
  have np: "prepare_service env i3 \<noteq> Done (Refused, i')" for i3 i'
    by (auto simp: prepare_service_def bind_outcome_Done_iff Let_def split: if_splits)
  obtain i4 r4 where n: "answer env 404 NoMsg False ?i1 = Done i4" "c_in (rw_conn (ar_w i4)) = c_in (rw_conn (ar_w i))"
    "ar_biz i4 = ar_biz i" "ar_req i4 = ar_req i" "rw_out (ar_w i4) = rw_out (ar_w i) @ status_line 404 @ r4"
    using answer_unread [of ?i1 env 404] assms(2) by auto
  obtain i5 r5 where o: "answer env 405 NoMsg False ?i2 = Done i5" "c_in (rw_conn (ar_w i5)) = c_in (rw_conn (ar_w i))"
    "ar_biz i5 = ar_biz i" "ar_req i5 = ar_req i" "rw_out (ar_w i5) = rw_out (ar_w i) @ status_line 405 @ r5"
    using answer_unread [of ?i2 env 405] assms(2) by auto
  show ?thesis
  proof (cases "?s \<in> set (ac_services (ae_config env))")
    case False
    with assms(1) n show ?thesis by (auto simp: refusal_code_def request_initialization_def Let_def)
  next
    case True
    let ?m = "is_method_allowed env ?i2"
    from True assms(1) have i: "request_initialization env i = (if ir_method (ar_req i) = ''options'' then prepare_service env ?i2
        else bind_outcome ?m (\<lambda>ok. if \<not> ok then Done (Refused, i5) else prepare_service env ?i2))"
      using o(1) by (cases ?m) (simp_all add: request_initialization_def Let_def)
    show ?thesis
    proof (cases "map_of (ac_instances (ae_config env)) ?s")
      case None
      with True i np o show ?thesis
        by (auto simp: refusal_code_def Let_def is_method_allowed_def instance_of_def)
    next
      case (Some inst)
      with True i np o show ?thesis
        by (auto simp: refusal_code_def Let_def is_method_allowed_def instance_of_def)
    qed
  qed
qed

section \<open>What goes back\<close>

lemma answer_plain:
  assumes "\<not> rw_wrote_header (ar_w i)" and "msg_header (ae_http env) msg = hdr"
  shows "\<exists>i'. answer env code msg False i = Done i' \<and> rw_header (ar_w i') = response_header (ae_http env) msg False (ar_w i) \<and>
    rw_out (ar_w i') = rw_out (ar_w i) @ status_line code @ header_write (rw_header (ar_w i')) @ crlf @
      (case hdr of None \<Rightarrow> [] | Some bs \<Rightarrow> bs)"
  using assms by (auto simp: answer_def write_header_def response_header_def Let_def)

lemma answer_bytes:
  assumes "\<not> rw_wrote_header (ar_w i)"
    and "msg = ReqMsg q \<and> rq_body q = BytesBody bs \<or> msg = RespMsg r \<and> rs_body r = BytesBody bs"
    and "msg_header (ae_http env) msg = Some hdr"
  shows "\<exists>i'. answer env code msg True i = Done i' \<and> rw_header (ar_w i') = response_header (ae_http env) msg True (ar_w i) \<and>
    rw_out (ar_w i') = rw_out (ar_w i) @ status_line code @ header_write (rw_header (ar_w i')) @ crlf @ hdr @
      (if bs = [] then [] else chunk_encode bs)"
  using write_header_bytes [OF assms(1-3), of code] by (auto simp: answer_def)

text \<open>C9: A request the service has no objection to goes back, when the client does not take 204, with
  exactly the body that came, whatever the service made of it: status 200, a Content-Length that is the
  length of the body, and the body as one chunk or none.\<close>

theorem unmodified_body_returned:
  assumes "loaded i bs" and "ar_method i = ''REQMOD''" and "\<not> ar_org_alias i" and "\<not> ar_204 i"
    and "\<not> rw_wrote_header (ar_w i)" and "ask_service env False i = Done (res, i1)" and "so_status res = 204"
    and "ir_request (ar_req i1) = Some r"
  shows "\<exists>i' r'. answer_status env res i1 = Done i' \<and> hget (rq_header r') ''Content-Length'' = itoa (length bs) \<and>
    rw_out (ar_w i') = rw_out (ar_w i) @ status_line 200 @ header_write (rw_header (ar_w i')) @ crlf @
      http_request_header (ae_http env) r' @ (if bs = [] then [] else chunk_encode bs) \<and>
    hget (rw_header (ar_w i')) ''Encapsulated'' = encap_text [(''req-hdr'', 0),
      (if bs = [] then ''null-body'' else ''req-body'', length (http_request_header (ae_http env) r'))]"
proof -
  note f = ask_service_effect [OF assms(6)]
  obtain org where org: "ir_org (ar_req i) = Some org" "rq_body org = BytesBody bs"
    using assms(1,2) by (auto simp: loaded_def)
  define r' where "r' = r\<lparr>rq_body := BytesBody bs, rq_header := hset (rq_header r) ''Content-Length'' (itoa (length bs))\<rparr>"
  let ?i = "set_request (Some r') (set_conn (rw_conn (ar_w i1)) i1)"
  have hb: "http_message_has_body (SvcRequest r') \<longleftrightarrow> bs \<noteq> []"
    using itoa_inject [of "length bs" 0]
    by (auto simp: http_message_has_body_def r'_def hget_hset_same itoa_def digits_rev.simps [of _ 0] digit_char_def)
  have e: "answer_status env res i1 = answer env 200 (ReqMsg r') (bs \<noteq> []) ?i"
    using f assms(2-4,7,8) org hb
    by (simp add: answer_status_def answer_unmodified_def org_body_def r'_def [symmetric] Let_def)
  have w: "\<not> rw_wrote_header (ar_w ?i)" and o: "rw_out (ar_w ?i) = rw_out (ar_w i)"
    using f assms(5) by (simp_all add: rw_out_def)
  have b: "ReqMsg r' = ReqMsg r' \<and> rq_body r' = BytesBody bs \<or> ReqMsg r' = RespMsg rs \<and> rs_body rs = BytesBody bs" for rs
    by (simp add: r'_def)
  have cl: "hget (rq_header r') ''Content-Length'' = itoa (length bs)" by (simp add: r'_def hget_hset_same)
  show ?thesis
  proof (cases "bs = []")
    case True
    with answer_plain [OF w, where msg = "ReqMsg r'" and code = 200 and env = env] e o cl show ?thesis
      by (auto simp: msg_header_def response_header_encapsulated encap_value_text)
  next
    case False
    with answer_bytes [OF w b, where code = 200 and env = env] e o cl show ?thesis
      by (auto simp: msg_header_def response_header_encapsulated encap_value_text)
  qed
qed

section \<open>OPTIONS\<close>

lemma map_of_set_header:
  "rw_header (ar_w (set_header k v i)) = hset (rw_header (ar_w i)) k v" "rw_wrote_header (ar_w (set_header k v i)) = rw_wrote_header (ar_w i)"
  "rw_out (ar_w (set_header k v i)) = rw_out (ar_w i)"
  by (simp_all add: set_header_def rw_set_header_def rw_out_def)

lemma option_keys:
  "canonical_key ''Methods'' = ''Methods''" "canonical_key ''Allow'' = ''Allow''" "canonical_key ''Preview'' = ''Preview''"
  "canonical_key ''Transfer-Preview'' = ''Transfer-Preview''" "canonical_key ''Encapsulated'' = ''Encapsulated''"
  "canonical_key ''Date'' = ''Date''"
  by code_simp+

lemma hget_response_header:
  "canonical_key k \<noteq> ''Encapsulated'' \<Longrightarrow> canonical_key k \<noteq> ''Date'' \<Longrightarrow>
     hget (response_header lib msg hb w) k = hget (rw_header w) k"
  by (simp add: response_header_def Let_def hget_hset option_keys)

text \<open>\<open>OPTIONS\<close> announces exactly the modes of the service, 204, and the preview when the service wants one,
  with no encapsulated part.\<close>

theorem options_announced:
  assumes "ar_method i = ''OPTIONS''" and "map_of (ac_instances (ae_config env)) (ar_service i) = Some inst"
    and "si_req_mode inst \<or> si_resp_mode inst" and "\<not> rw_wrote_header (ar_w i)" and "hget (rw_header (ar_w i)) ''Preview'' = []"
  shows "\<exists>i'. request_processing env n i = Some (Done i') \<and>
    rw_out (ar_w i') = rw_out (ar_w i) @ status_line 200 @ header_write (rw_header (ar_w i')) @ crlf \<and>
    hget (rw_header (ar_w i')) ''Methods'' =
      (if si_resp_mode inst \<and> si_req_mode inst then ''RESPMOD, REQMOD'' else if si_resp_mode inst then ''RESPMOD'' else ''REQMOD'') \<and>
    hget (rw_header (ar_w i')) ''Allow'' = ''204'' \<and> hget (rw_header (ar_w i')) ''Encapsulated'' = ''null-body=0'' \<and>
    hget (rw_header (ar_w i')) ''Preview'' =
      (if si_preview_enabled inst \<and> 0 \<le> fst (atoi (si_preview_bytes inst)) then si_preview_bytes inst else [])"
proof -
  define methods where "methods = (if si_resp_mode inst \<and> si_req_mode inst then ''RESPMOD, REQMOD''
      else if si_resp_mode inst then ''RESPMOD'' else ''REQMOD'')"
  have m: "enabled_methods inst = Done methods"
    using assms(3) by (auto simp: enabled_methods_def methods_def)
  define i1 where "i1 = set_header ''Allow'' ''204'' (set_header ''Methods'' methods i)"
  define i2 where "i2 = (if si_preview_enabled inst \<and> 0 \<le> fst (atoi (si_preview_bytes inst))
      then set_header ''Preview'' (si_preview_bytes inst) i1 else i1)"
  define i3 where "i3 = set_header ''Transfer-Preview'' ''*'' i2"
  have e: "request_processing env n i = Some (answer env 200 NoMsg False i3)"
    using assms(1,2) m by (simp add: request_processing_def options_mode_def instance_of_def i1_def i2_def i3_def Let_def)
  have w: "\<not> rw_wrote_header (ar_w i3)" and o: "rw_out (ar_w i3) = rw_out (ar_w i)"
    using assms(4) by (simp_all add: i1_def i2_def i3_def map_of_set_header)
  have h: "hget (rw_header (ar_w i3)) ''Methods'' = methods" "hget (rw_header (ar_w i3)) ''Allow'' = ''204''"
    "hget (rw_header (ar_w i3)) ''Preview'' =
      (if si_preview_enabled inst \<and> 0 \<le> fst (atoi (si_preview_bytes inst)) then si_preview_bytes inst else [])"
    using assms(5) by (simp_all add: i1_def i2_def i3_def map_of_set_header hget_hset option_keys)
  have en: "encap_value (ae_http env) (rw_method (ar_w i3)) NoMsg False = ''null-body=0''"
    by (simp add: encap_value_def)
  from answer_plain [OF w refl, where code = 200 and env = env and msg = NoMsg] obtain i' where
    a: "answer env 200 NoMsg False i3 = Done i'" "rw_header (ar_w i') = response_header (ae_http env) NoMsg False (ar_w i3)"
      "rw_out (ar_w i') = rw_out (ar_w i3) @ status_line 200 @ header_write (rw_header (ar_w i')) @ crlf"
    by (auto simp: msg_header_def)
  from a(2) h have "hget (rw_header (ar_w i')) ''Methods'' = methods" "hget (rw_header (ar_w i')) ''Allow'' = ''204''"
    "hget (rw_header (ar_w i')) ''Preview'' =
      (if si_preview_enabled inst \<and> 0 \<le> fst (atoi (si_preview_bytes inst)) then si_preview_bytes inst else [])"
    "hget (rw_header (ar_w i')) ''Encapsulated'' = ''null-body=0''"
    by (simp_all add: hget_response_header option_keys response_header_encapsulated en)
  with e a o show ?thesis unfolding methods_def by auto
qed

section \<open>Where the handler fails\<close>

lemma byte_range_stop:
  assumes "scan_processing lib cfg ca scan False st = Done (res, st')" and "byte_range ca (ss_msg st)"
  shows "so_status res = 204 \<and> so_msg res = SvcHttpMsg"
  using assms by (auto simp: scan_processing_def bind_outcome_Done_iff Let_def)

lemma scanner_service:
  assumes "required_service env i = Done proc" and "ar_vendor i \<in> {''clamav'', ''clhashlookup''}"
  shows "\<exists>lib cfg scan. proc = scan_processing lib cfg (call_of env i) scan"
  using assms
  by (fastforce simp: required_service_def bind_outcome_Done_iff clamav_processing_def hashlookup_processing_def
      split: option.splits dest!: get_service_Some)

text \<open>A 206 response that a scanner passes on unscanned is lost when the client does not take 204: the
  answer is a status 200 without any HTTP message.\<close>

theorem byte_range_response_lost:
  assumes "loaded i bs" and "ar_method i = ''RESPMOD''" and "ir_response (ar_req i) = Some r" and "rs_code r = 206"
    and "ar_vendor i \<in> {''clamav'', ''clhashlookup''}" and "\<not> ar_204 i" and "\<not> ar_shadow i" and "\<not> rw_wrote_header (ar_w i)"
    and "resp_and_req_mods env (Suc n) False i = Some (Done i')"
  shows "rw_out (ar_w i') = rw_out (ar_w i) @ status_line 200 @ header_write (rw_header (ar_w i')) @ crlf \<and>
    hget (rw_header (ar_w i')) ''Encapsulated'' = ''null-body=0''"
proof -
  let ?i1 = "if ar_business_applied i then default_request i else (default_request i)\<lparr>ar_business_applied := True\<rparr>"
  have b: "before_service env False i = Done (False, ?i1)"
    using assms(1-3) default_request_loaded [OF assms(1)]
    by (auto simp: before_service_def bodies_present_def apply_business_def loaded_def Let_def split: option.splits)
  have d: "ar_method ?i1 = ''RESPMOD''" "ir_response (ar_req ?i1) = Some r" "ar_vendor ?i1 = ar_vendor i" "ar_204 ?i1 = ar_204 i"
      "ar_shadow ?i1 = ar_shadow i" "rw_wrote_header (ar_w ?i1) = rw_wrote_header (ar_w i)" "rw_out (ar_w ?i1) = rw_out (ar_w i)"
    using assms(2,3) by (simp_all add: default_request_def rw_out_def set_request_def split: option.splits)
  from assms(9) b obtain res i2 where s: "ask_service env False ?i1 = Done (res, i2)"
    by (cases "ask_service env False ?i1") auto
  obtain proc st where proc: "required_service env ?i1 = Done proc"
    "proc False \<lparr>ss_msg = \<lparr>hm_request = ir_request (ar_req ?i1), hm_response = ir_response (ar_req ?i1)\<rparr>,
       ss_conn = rw_conn (ar_w ?i1), ss_icap = ir_header (ar_req ?i1)\<rparr> = Done (res, st)"
    using s by (auto simp only: ask_service_def bind_outcome_Done_iff prod.case outcome.inject prod.inject split_paired_Ex)
  obtain lib cfg scan where "proc = scan_processing lib cfg (call_of env ?i1) scan"
    using scanner_service [OF proc(1)] assms(5) d(3) by auto
  then have so: "so_status res = 204 \<and> so_msg res = SvcHttpMsg"
    using byte_range_stop proc(2) d(1,2) assms(4) by (fastforce simp: byte_range_def call_of_def)
  note f = ask_service_effect [OF s]
  have w: "\<not> rw_wrote_header (ar_w i2)" and o: "rw_out (ar_w i2) = rw_out (ar_w i)"
    using f d assms(8) by (simp_all add: rw_out_def)
  have "answer env 200 NoMsg False i2 = Done i'"
    using assms(9) b s so f d assms(6,7) by (simp add: answer_status_def msg_of_def http_message_has_body_def)
  with answer_plain [OF w refl, where code = 200 and env = env and msg = NoMsg] o show ?thesis
    by (auto simp: msg_header_def response_header_encapsulated encap_value_def)
qed

text \<open>What comes before the service keeps the body and the mode, whether or not an answer has been written.\<close>

lemma business_keeps_loaded:
  assumes "loaded i bs" and "ar_method i = ''REQMOD''" and "bind_outcome (run_business env h benv p i)
      (\<lambda>((status, deferred, err), i2). conclude_business env status (d deferred) i2) = Done (refused, i')"
  shows "ar_shadow i' = ar_shadow i \<and> (\<not> refused \<longrightarrow> loaded i' bs)"
proof -
  obtain status deferred err i2 where r: "run_business env h benv p i = Done ((status, deferred, err), i2)"
    "conclude_business env status (d deferred) i2 = Done (refused, i')"
    using assms(3) by (auto simp: bind_outcome_Done_iff)
  from run_business_effect [OF r(1) assms(1,2)] r(2) answer_keeps(3) [of env 400 NoMsg False "i2\<lparr>ar_pending := d deferred\<rparr>"]
  show ?thesis by (auto simp: conclude_business_def Let_def bind_outcome_Done_iff loaded_def split: if_splits)
qed

lemma before_service_loaded:
  assumes "loaded i bs" and "before_service env p i = Done (refused, i')"
  shows "ar_shadow i' = ar_shadow i \<and> (\<not> refused \<longrightarrow> loaded i' bs)"
proof -
  let ?j = "default_request i"
  have j: "loaded ?j bs" "ar_shadow ?j = ar_shadow i" using default_request_loaded [OF assms(1)] by simp_all
  from j(1) have l: "loaded (?j\<lparr>ar_business_applied := True\<rparr>) bs" by (simp add: loaded_def)
  from assms(2) have "apply_business env p ?j = Done (refused, i')"
    by (auto simp: before_service_def bind_outcome_Done_iff)
  then show ?thesis
    using j l business_keeps_loaded [OF j(1), of env _ _ _ "\<lambda>_. False"] business_keeps_loaded [OF l, of env _ _ _ "\<lambda>d. d"]
    by (cases "ar_business_applied ?j") (auto simp: apply_business_def Let_def split: if_splits option.splits)
qed

lemma load_empty:
  assumes "ar_method i = ir_method (ar_req i)"
    and "ir_method (ar_req i) = ''REQMOD'' \<and> (\<exists>r. ir_request (ar_req i) = Some r \<and> rq_body r = BytesBody []) \<or>
         ir_method (ar_req i) = ''RESPMOD'' \<and> (\<exists>r. ir_response (ar_req i) = Some r \<and> rs_body r = BytesBody [])"
  shows "\<exists>i1. bind_outcome (load_body env i) host_header = Done i1 \<and> loaded i1 [] \<and> ar_shadow i1 = ar_shadow i"
  using assms(2)
proof (elim disjE conjE exE)
  fix r
  assume r: "ir_method (ar_req i) = ''REQMOD''" "ir_request (ar_req i) = Some r" "rq_body r = BytesBody []"
  obtain i1 where l: "load_request env i = Done i1"
    using r by (simp add: load_request_def Let_def)
  have "read_body (ae_http env) (rq_body r) (rw_conn (ar_w i)) = Done ([], None, BytesBody [], rw_conn (ar_w i))"
    using r(3) by simp
  from load_request_effect [OF l r(2) this] l r(1) assms(1) show ?thesis
    by (auto simp: load_body_def host_header_def loaded_def same_rest_def)
next
  fix r
  assume r: "ir_method (ar_req i) = ''RESPMOD''" "ir_response (ar_req i) = Some r" "rs_body r = BytesBody []"
  with assms(1) show ?thesis
    by (simp add: load_body_def load_response_def host_header_def loaded_def set_response_def)
qed

lemma shadow_initialised:
  assumes "request_initialization env i = Done (Shadowed, i')"
  obtains i2 where "shadow_service env i2 = Done i'" "rw_conn (ar_w i2) = rw_conn (ar_w i)"
    "rw_wrote_header (ar_w i2) = rw_wrote_header (ar_w i)" "ar_req i2 = ar_req i"
    "ar_204 i2 = is_204_allowed (ir_header (ar_req i))" "ar_shadow i2" "ar_method i2 = ir_method (ar_req i)"
proof -
  obtain i1 where p: "prepare_service env i1 = Done (Shadowed, i')" "ar_w i1 = ar_w i" "ar_req i1 = ar_req i"
    "ar_method i1 = ir_method (ar_req i)"
    using assms(1) by (auto simp: request_initialization_def Let_def bind_outcome_Done_iff split: if_splits)
  then show thesis
    using that by (auto simp: prepare_service_def bind_outcome_Done_iff Let_def split: if_splits)
qed

lemma shadow_run:
  assumes "bind_outcome (load_body env i) host_header = Done i1" and "loaded i1 bs" and "ar_shadow i1"
    and "ar_method i \<noteq> ''OPTIONS''" and "request_processing env 2 i = Some (Done j)"
  shows "(\<exists>i2. before_service env (is_partial i1) i1 = Done (True, i2) \<and> j = i2) \<or>
    (\<exists>i2 verdict. before_service env (is_partial i1) i1 = Done (False, i2) \<and> loaded i2 bs \<and>
       ask_service env (is_partial i1) i2 = Done (verdict, j))"
proof -
  have r: "resp_and_req_mods env (Suc (Suc 0)) (is_partial i1) i1 = Some (Done j)"
    using assms(1,4,5) by (simp add: request_processing_def numeral_2_eq_2)
  obtain refused i2 where b: "before_service env (is_partial i1) i1 = Done (refused, i2)"
    using r by (cases "before_service env (is_partial i1) i1") auto
  note l = before_service_loaded [OF assms(2) b]
  show ?thesis
  proof (cases refused)
    case True
    with r b show ?thesis by simp
  next
    case False
    with r b obtain res i3 where a: "ask_service env (is_partial i1) i2 = Done (res, i3)"
      by (cases "ask_service env (is_partial i1) i2") auto
    have "ar_shadow i3" using ask_service_effect [OF a] l assms(3) by simp
    with r b False a have "j = i3" by simp
    with a b False l show ?thesis by auto
  qed
qed

text \<open>C15: In shadow mode the answer is given before the body is kept. For a client that takes 204 it is a 204, given with
  the connection and the message as they were, so that a body on the connection is read by the processing that goes on and,
  at the same time, taken for the next request. For any other client writing the answer uses the body up: if the service is
  asked at all, it is asked once, about a message with an empty body, and its verdict is dropped.\<close>

theorem shadow_mode_loses_body:
  assumes "request_initialization env i = Done (Shadowed, i')" and "\<not> rw_wrote_header (ar_w i)"
  shows "(is_204_allowed (ir_header (ar_req i)) \<longrightarrow> c_in (rw_conn (ar_w i')) = c_in (rw_conn (ar_w i)) \<and> ar_req i' = ar_req i \<and>
       answered {204} (rw_out (ar_w i)) i') \<and>
    (\<not> is_204_allowed (ir_header (ar_req i)) \<and> ir_method (ar_req i) \<in> {''REQMOD'', ''RESPMOD''} \<longrightarrow>
       (\<exists>i1. bind_outcome (load_body env i') host_header = Done i1 \<and> loaded i1 [] \<and>
         (\<forall>j. request_processing env 2 i' = Some (Done j) \<longrightarrow>
            (\<exists>i2. before_service env (is_partial i1) i1 = Done (True, i2) \<and> j = i2) \<or>
            (\<exists>i2 verdict. before_service env (is_partial i1) i1 = Done (False, i2) \<and> loaded i2 [] \<and>
               ask_service env (is_partial i1) i2 = Done (verdict, j)))))"
proof -
  obtain i2 where s: "shadow_service env i2 = Done i'" "rw_conn (ar_w i2) = rw_conn (ar_w i)"
    "rw_wrote_header (ar_w i2) = rw_wrote_header (ar_w i)" "ar_req i2 = ar_req i" "ar_204 i2 = is_204_allowed (ir_header (ar_req i))"
    "ar_shadow i2" "ar_method i2 = ir_method (ar_req i)"
    by (rule shadow_initialised [OF assms(1)])
  define i3 where "i3 = (if ac_debugging_headers (ae_config env)
      then put_header ''X-ICAPeg-Shadow-Service'' ''true'' i2 else i2)"
  have i3: "rw_conn (ar_w i3) = rw_conn (ar_w i)" "ar_req i3 = ar_req i" "ar_204 i3 = is_204_allowed (ir_header (ar_req i))"
    "ar_shadow i3" "ar_method i3 = ir_method (ar_req i)" "\<not> rw_wrote_header (ar_w i3)"
    using s assms(2) by (simp_all add: i3_def)
  show ?thesis
  proof (cases "is_204_allowed (ir_header (ar_req i))")
    case True
    with s(1) i3 have a: "answer env 204 NoMsg False i3 = Done i'"
      by (simp add: shadow_service_def i3_def [symmetric])
    then have "c_in (rw_conn (ar_w i')) = c_in (rw_conn (ar_w i3))"
      using write_header_plain by (fastforce simp: answer_def bind_outcome_Done_iff)
    with True i3 answer_keeps(2) [OF a] answer_answered [OF a i3(6), of "{204}"] show ?thesis by (simp add: rw_out_def)
  next
    case False
    have "\<exists>i1. bind_outcome (load_body env i') host_header = Done i1 \<and> loaded i1 [] \<and> ar_shadow i1 = ar_shadow i'"
      if m: "ir_method (ar_req i) \<in> {''REQMOD'', ''RESPMOD''}"
    proof (rule load_empty)
      show "ar_method i' = ir_method (ar_req i')"
        using s(1) i3 False by (auto simp: shadow_service_def i3_def [symmetric] bind_outcome_Done_iff set_response_def answer_def
            split: option.splits if_splits)
      show "ir_method (ar_req i') = ''REQMOD'' \<and> (\<exists>r. ir_request (ar_req i') = Some r \<and> rq_body r = BytesBody []) \<or>
         ir_method (ar_req i') = ''RESPMOD'' \<and> (\<exists>r. ir_response (ar_req i') = Some r \<and> rs_body r = BytesBody [])"
        using s(1) i3 False m by (auto simp: shadow_service_def i3_def [symmetric] bind_outcome_Done_iff set_response_def answer_def
            split: option.splits if_splits)
    qed
    moreover have "ar_shadow i'"
      using s(1) i3 False by (auto simp: shadow_service_def i3_def [symmetric] bind_outcome_Done_iff set_response_def answer_def
          split: option.splits if_splits)
    moreover have "ar_method i' = ir_method (ar_req i)"
      using s(1) i3 False by (auto simp: shadow_service_def i3_def [symmetric] bind_outcome_Done_iff set_response_def answer_def
          split: option.splits if_splits)
    ultimately show ?thesis
      using False shadow_run [of env i'] by auto
  qed
qed

text \<open>A method spelt \<open>options\<close> passes every check and then panics on the response that is not there; in shadow
  mode this happens in a goroutine of its own, where nothing recovers.\<close>

theorem lower_case_options_panics:
  assumes "request_initialization env i = Done (res, i')" and "res \<noteq> Refused"
    and "ir_method (ar_req i) = ''options''" and "ir_response (ar_req i) = None"
  shows "request_processing env 2 i' = Some (Panic ''nil response'')"
proof -
  obtain i1 where p: "prepare_service env i1 = Done (res, i')" "ar_req i1 = ar_req i" "ar_method i1 = ''options''"
    using assms(1-3) by (auto simp: request_initialization_def Let_def bind_outcome_Done_iff split: if_splits)
  have shadow: "ar_req k' = ar_req k \<and> ar_method k' = ar_method k" if "shadow_service env k = Done k'" "ir_method (ar_req k) = ''options''" for k k'
    using that by (auto simp: shadow_service_def Let_def answer_def bind_outcome_Done_iff split: if_splits)
  have "ar_req i' = ar_req i \<and> ar_method i' = ''options''"
    using p assms(3) shadow by (auto simp: prepare_service_def bind_outcome_Done_iff Let_def split: if_splits)
  with assms(3,4) have r: "ar_method i' = ''options''" "ir_method (ar_req i') = ''options''" "ir_response (ar_req i') = None"
    by simp_all
  then have "before_service env p i' = Panic ''nil response''" for p
    by (simp add: before_service_def bodies_present_def)
  with r show ?thesis
    by (simp add: request_processing_def load_body_def host_header_def numeral_2_eq_2)
qed

lemma map_of_hdels: "map_of (foldl hdel h ks) k = (if k \<in> canonical_key ` set ks then None else map_of h k)"
  by (induction ks arbitrary: h) (auto simp: map_of_hdel)

lemma del_all_keys_empty:
  assumes "\<forall>k. map_of h k \<noteq> None \<longrightarrow> canonical_key k = k"
  shows "map_of (del_all_keys h) k = None"
proof (cases "map_of h k")
  case (Some v)
  then have "k \<in> set (map fst h)" "canonical_key k = k" using assms by (force dest: map_of_SomeD)+
  then show ?thesis by (auto simp: del_all_keys_def map_of_hdels intro: image_eqI [of _ _ k])
qed (simp add: del_all_keys_def map_of_hdels)

text \<open>C16: The page for a blocked request is never sent: the request that replaces it has no Content-Length, so
  that it is taken for one without a body.\<close>

theorem blocked_request_page_lost:
  assumes "block_stop lib cfg ca file_hash page_path sz hs rhs before st = Done (res, st')"
    and "ca_method ca = ''REQMOD''" and "so_status res = 200" and "\<not> rw_wrote_header (ar_w i)"
    and "\<forall>r. hm_request (ss_msg st) = Some r \<longrightarrow> (\<forall>k. map_of (rq_header r) k \<noteq> None \<longrightarrow> canonical_key k = k)"
  shows "\<exists>i' r. answer_status env res i = Done i' \<and> so_msg res = SvcRequest r \<and> (\<exists>page. rq_body r = BytesBody page) \<and>
    rw_out (ar_w i') = rw_out (ar_w i) @ status_line 200 @ header_write (rw_header (ar_w i')) @ crlf @
      http_request_header (ae_http env) r \<and>
    hget (rw_header (ar_w i')) ''Encapsulated'' =
      encap_text [(''req-hdr'', 0), (''null-body'', length (http_request_header (ae_http env) r))]"
proof -
  obtain page req hm1 where p: "req_mod_err_page lib ''fileIsNotSafe'' (ca_service ca) file_hash sz (ss_msg st) =
      Done (Inr (page, req), hm1)" "so_msg res = SvcRequest (req\<lparr>rq_body := BytesBody page\<rparr>)"
  proof (cases "req_mod_err_page lib ''fileIsNotSafe'' (ca_service ca) file_hash sz (ss_msg st)")
    case (Done x)
    obtain y hm1 where "x = (y, hm1)" by (cases x)
    with Done assms(1-3) that show thesis
      by (cases y) (auto simp: block_stop_def stop_logged_def bind_outcome_Done_iff)
  qed (use assms(1,2) in \<open>simp add: block_stop_def\<close>)
  then obtain r where r: "hm_request (ss_msg st) = Some r"
      "rq_header req = hset (del_all_keys (rq_header r)) ''Host'' (sl_web_host lib)"
    by (auto simp: req_mod_err_page_def Let_def split: option.splits sum.splits)
  have "canonical_key ''Content-Length'' \<noteq> canonical_key ''Host''" by code_simp
  with r assms(5) have "hget (rq_header req) ''Content-Length'' = []"
    by (simp add: hget_hset) (simp add: hget_def del_all_keys_empty)
  then have e: "answer_status env res i = answer env 200 (ReqMsg (req\<lparr>rq_body := BytesBody page\<rparr>)) False i"
    using assms(3) p(2) by (simp add: answer_status_def msg_of_def http_message_has_body_def)
  with answer_plain [OF assms(4) refl, where code = 200 and env = env and msg = "ReqMsg (req\<lparr>rq_body := BytesBody page\<rparr>)"] p(2)
  show ?thesis by (auto simp: msg_header_def response_header_encapsulated encap_value_text)
qed

section \<open>Concrete requests\<close>

definition sample_instance :: service_icap_info where
  "sample_instance = \<lparr>si_vendor = ''echo'', si_service_caption = ''echo service'', si_service_tag = ''ECHO ICAP'',
     si_req_mode = True, si_resp_mode = True, si_shadow_service = False, si_preview_enabled = True,
     si_preview_bytes = ''1024''\<rparr>"

definition sample_app :: "service_icap_info \<Rightarrow> app_config" where
  "sample_app inst = \<lparr>ac_port = 1344, ac_log_level = ''debug'', ac_write_logs = True, ac_debugging_headers = False,
     ac_services = [''scan''], ac_instances = [(''scan'', inst)]\<rparr>"

definition sample_api_env :: "service_icap_info \<Rightarrow> business_handler option \<Rightarrow> api_env" where
  "sample_api_env inst h = \<lparr>ae_http = sample_lib, ae_scan = sample_scan (Inr (True, [])) BadUrl,
     ae_config = sample_app inst, ae_read = \<lambda>vendor name. sample_config, ae_business = h,
     ae_first = sample_business_env, ae_flush = sample_business_env, ae_metadata = ''id''\<rparr>"

definition sample_writer :: "string \<Rightarrow> resp_writer" where
  "sample_writer m = \<lparr>rw_conn = \<lparr>c_in = \<lparr>rbuf = [], under = \<lparr>segs = [], net_err = EOF\<rparr>\<rparr>, c_out = []\<rparr>, rw_method = m,
     rw_header = [], rw_wrote_header = False, rw_wrote_raw = False, rw_chunked = False\<rparr>"

definition sample_icap :: "string \<Rightarrow> header \<Rightarrow> icap_request" where
  "sample_icap m h = new_icap_request\<lparr>ir_method := m, ir_url := zero_url\<lparr>u_path := ''/scan''\<rparr>, ir_header := h,
     ir_request := Some (zero_request\<lparr>rq_method := ''POST'', rq_body := BytesBody ''hello''\<rparr>),
     ir_response := (if m = ''RESPMOD'' then Some (sample_response\<lparr>rs_code := 206, rs_body := BytesBody ''hello''\<rparr>) else None)\<rparr>"

definition no_services :: svc_globals where
  "no_services = \<lparr>sg_echo = None, sg_hashlookup = None, sg_clamav = None\<rparr>"

definition sample_new :: "service_icap_info \<Rightarrow> string \<Rightarrow> header \<Rightarrow> api_request" where
  "sample_new inst m h = new_api_request (sample_api_env inst None) no_services sample_business_state (sample_writer m) (sample_icap m h)"

text \<open>The same after initialisation.\<close>

definition sample_api :: "service_icap_info \<Rightarrow> string \<Rightarrow> header \<Rightarrow> api_request" where
  "sample_api inst m h = (sample_new inst m h)\<lparr>ar_service := ''scan'', ar_method := m, ar_vendor := si_vendor inst\<rparr>"

definition sample_user :: header where
  "sample_user = [(''X-Client-Username'', [''ann''])]"

lemma sample_run:
  "(case request_processing (sample_api_env sample_instance (Some sample_handler)) 2 (sample_api sample_instance ''REQMOD'' sample_user) of
     Some (Done i') \<Rightarrow> map rt_body (bs_spawned (ar_biz i')) = [''hello''] \<and> rw_wrote_header (ar_w i')
   | _ \<Rightarrow> False)"
  by code_simp

abbreviation sample_recording :: api_request where
  "sample_recording \<equiv> sample_api sample_instance ''REQMOD'' sample_user"

lemma sample_fields:
  "ar_method (sample_api inst m h) = m" "ir_method (ar_req (sample_api inst m h)) = m"
  "\<not> rw_wrote_header (ar_w (sample_api inst m h))" "\<not> ar_shadow (sample_api inst m h)" "\<not> ar_204 (sample_api inst m h)"
  "\<not> ar_business_applied (sample_api inst m h)" "\<not> ar_org_alias (sample_api inst m h)"
  "ir_request (ar_req (sample_api inst m h)) = Some (zero_request\<lparr>rq_method := ''POST'', rq_body := BytesBody ''hello''\<rparr>)"
  "ir_header (ar_req (sample_api inst m h)) = h" "rw_header (ar_w (sample_api inst m h)) = []"
  "ar_vendor (sample_api inst m h) = si_vendor inst" "ar_service (sample_api inst m h) = ''scan''"
  by (simp_all add: sample_api_def sample_new_def new_api_request_def sample_writer_def sample_icap_def new_icap_request_def)

lemma request_answered_once_witness:
  "\<exists>i'. request_processing (sample_api_env sample_instance (Some sample_handler)) 2 sample_recording = Some (Done i') \<and>
     rw_wrote_header (ar_w i') \<and> (\<exists>asked code rest. rw_out (ar_w i') = asked @ status_line code @ rest)"
proof -
  let ?env = "sample_api_env sample_instance (Some sample_handler)"
  have i: "ir_method (ar_req sample_recording) = ar_method sample_recording" "ar_method sample_recording \<in> {''REQMOD'', ''RESPMOD''}"
    "\<not> ar_shadow sample_recording" "\<not> rw_wrote_header (ar_w sample_recording)"
    by (simp_all add: sample_fields)
  have "sl_page_json (scl_svc (ae_scan ?env)) page = Inr (ep_reason page)" for page
    by (simp add: sample_api_env_def sample_scan_def sample_svc_def)
  then have p: "pages_encode (scl_svc (ae_scan ?env))" by (simp add: pages_encode_def)
  have v: "known_vendor (ar_vendor sample_recording)" "vendor_ready (ar_vendor sample_recording) (ar_globals sample_recording)"
    by code_simp+
  have "scanner_answers (ae_scan ?env) (ar_vendor sample_recording)"
    by (simp add: scanner_answers_def sample_fields sample_instance_def)
  with p v have "service_answers ?env sample_recording" by (simp add: service_answers_def)
  moreover have "\<exists>rq. ir_request (ar_req sample_recording) = Some rq \<and> rq_body rq \<noteq> NilBody"
    using sample_fields(8) by simp
  moreover have "rw_out (ar_w sample_recording) = []" by code_simp
  ultimately show ?thesis using request_answered_once [OF i, of ?env] sample_fields(1) by fastforce
qed

lemma request_recorded_once_witness:
  "\<exists>i' t. request_processing (sample_api_env sample_instance (Some sample_handler)) 2 sample_recording = Some (Done i') \<and>
     bs_spawned (ar_biz i') = [t] \<and> rt_body t = ''hello''"
proof -
  obtain i' where r: "request_processing (sample_api_env sample_instance (Some sample_handler)) 2 sample_recording = Some (Done i')"
      "map rt_body (bs_spawned (ar_biz i')) = [''hello'']"
    using sample_run by (auto split: option.splits outcome.splits)
  have p: "\<not> is_partial sample_recording" and n: "bs_spawned (ar_biz sample_recording) = []"
    by code_simp+
  have b: "read_body lib (rq_body (zero_request\<lparr>rq_method := ''POST'', rq_body := BytesBody ''hello''\<rparr>)) c =
      Done (''hello'', None, BytesBody [], c)" for lib c
    by simp
  from request_recorded_once [OF r(1) sample_fields(2,1,3) sample_fields(8) b] r p n show ?thesis by auto
qed

text \<open>The request after its body has been loaded.\<close>

definition sample_loaded :: "service_icap_info \<Rightarrow> string \<Rightarrow> header \<Rightarrow> api_request" where
  "sample_loaded inst m h = (let i = sample_api inst m h in
     i\<lparr>ar_req := (ar_req i)\<lparr>ir_org := Some (zero_request\<lparr>rq_body := BytesBody ''hello''\<rparr>)\<rparr>\<rparr>)"

lemma sample_loaded_ok:
  "loaded (sample_loaded inst ''REQMOD'' h) ''hello''" "loaded (sample_loaded inst ''RESPMOD'' h) ''hello''"
  by (simp_all add: loaded_def sample_loaded_def Let_def sample_fields)
    (simp add: sample_api_def sample_new_def new_api_request_def sample_icap_def)

definition strict_env :: api_env where
  "strict_env = (sample_api_env sample_instance (Some sample_handler))
     \<lparr>ae_first := sample_business_env\<lparr>be_tenant_row := \<lambda>t. DbNoRows\<rparr>\<rparr>"

definition sample_refused :: api_request where
  "sample_refused = sample_loaded sample_instance ''REQMOD'' sample_user"

lemma sample_refusal:
  "(case process_request sample_handler (ae_first strict_env) (ir_header (ar_req sample_refused)) False
      ((ar_biz sample_refused)\<lparr>bs_request := ir_request (ar_req sample_refused), bs_conn := rw_conn (ar_w sample_refused)\<rparr>) of
      Done ((status, deferred, err), st) \<Rightarrow> status = 400 | Panic _ \<Rightarrow> False)"
  by code_simp

lemma refused_request_not_scanned_witness:
  "\<exists>i' rest. resp_and_req_mods strict_env 1 False sample_refused = Some (Done i') \<and> rw_wrote_header (ar_w i') \<and>
     rw_out (ar_w i') = rw_out (ar_w sample_refused) @ status_line 400 @ rest"
proof -
  obtain deferred err st where r: "process_request sample_handler (ae_first strict_env) (ir_header (ar_req sample_refused)) False
      ((ar_biz sample_refused)\<lparr>bs_request := ir_request (ar_req sample_refused), bs_conn := rw_conn (ar_w sample_refused)\<rparr>) =
      Done ((400, deferred, err), st)"
    using sample_refusal by (auto split: outcome.splits prod.splits)
  have i: "loaded sample_refused ''hello''" "ar_method sample_refused = ''REQMOD''"
    "\<not> ar_business_applied sample_refused" "\<not> rw_wrote_header (ar_w sample_refused)" "ae_business strict_env = Some sample_handler"
    using sample_loaded_ok(1) [of sample_instance sample_user]
    by (simp_all add: sample_refused_def strict_env_def sample_api_env_def)
      (simp_all add: sample_loaded_def Let_def sample_fields)
  from refused_request_not_scanned [OF i r, of "sample_scan (Inr (True, [])) BadUrl" 0] show ?thesis by auto
qed

definition unknown_service :: api_request where
  "unknown_service = (sample_new sample_instance ''REQMOD'' [])\<lparr>ar_req := (sample_icap ''REQMOD'' [])\<lparr>ir_url := zero_url\<lparr>u_path := ''/none''\<rparr>\<rparr>\<rparr>"

definition response_only :: service_icap_info where
  "response_only = sample_instance\<lparr>si_req_mode := False\<rparr>"

lemma refused_without_reading_witness:
  "(\<exists>i' rest. request_initialization (sample_api_env sample_instance None) unknown_service = Done (Refused, i') \<and>
     rw_out (ar_w i') = rw_out (ar_w unknown_service) @ status_line 404 @ rest) \<and>
   (\<exists>i' rest. request_initialization (sample_api_env response_only None) (sample_new response_only ''REQMOD'' []) = Done (Refused, i') \<and>
     rw_out (ar_w i') = rw_out (ar_w (sample_new response_only ''REQMOD'' [])) @ status_line 405 @ rest)"
proof
  have w: "u_path (ir_url (ar_req unknown_service)) \<noteq> []" "\<not> rw_wrote_header (ar_w unknown_service)"
    "u_path (ir_url (ar_req (sample_new response_only ''REQMOD'' []))) \<noteq> []"
    "\<not> rw_wrote_header (ar_w (sample_new response_only ''REQMOD'' []))"
    by (simp_all add: unknown_service_def sample_new_def new_api_request_def sample_writer_def sample_icap_def)
  have c: "refusal_code (sample_api_env sample_instance None) (ar_req unknown_service) = Some 404"
    "refusal_code (sample_api_env response_only None) (ar_req (sample_new response_only ''REQMOD'' [])) = Some 405"
    by code_simp+
  from refused_without_reading [OF w(1,2), of "sample_api_env sample_instance None"] c(1)
  show "\<exists>i' rest. request_initialization (sample_api_env sample_instance None) unknown_service = Done (Refused, i') \<and>
     rw_out (ar_w i') = rw_out (ar_w unknown_service) @ status_line 404 @ rest" by auto
  from refused_without_reading [OF w(3,4), of "sample_api_env response_only None"] c(2)
  show "\<exists>i' rest. request_initialization (sample_api_env response_only None) (sample_new response_only ''REQMOD'' []) = Done (Refused, i') \<and>
     rw_out (ar_w i') = rw_out (ar_w (sample_new response_only ''REQMOD'' [])) @ status_line 405 @ rest" by auto
qed

lemma sample_clean:
  "(case ask_service (sample_api_env sample_instance None) False (sample_loaded (sample_instance\<lparr>si_vendor := ''clamav''\<rparr>) ''REQMOD'' []) of
      Done (res, i1) \<Rightarrow> so_status res = 204 \<and> ir_request (ar_req i1) \<noteq> None | Panic _ \<Rightarrow> False)"
  by code_simp

abbreviation clamav_instance :: service_icap_info where
  "clamav_instance \<equiv> sample_instance\<lparr>si_vendor := ''clamav''\<rparr>"

lemma unmodified_body_returned_witness:
  "\<exists>res i1 i' r'. ask_service (sample_api_env sample_instance None) False (sample_loaded clamav_instance ''REQMOD'' []) = Done (res, i1) \<and>
     answer_status (sample_api_env sample_instance None) res i1 = Done i' \<and>
     hget (rq_header r') ''Content-Length'' = ''5'' \<and>
     hget (rw_header (ar_w i')) ''Encapsulated'' =
       encap_text [(''req-hdr'', 0), (''req-body'', length (http_request_header sample_lib r'))]"
proof -
  obtain res i1 r where a: "ask_service (sample_api_env sample_instance None) False (sample_loaded clamav_instance ''REQMOD'' []) = Done (res, i1)"
    "so_status res = 204" "ir_request (ar_req i1) = Some r"
    using sample_clean by (auto split: outcome.splits prod.splits)
  have i: "ar_method (sample_loaded clamav_instance ''REQMOD'' []) = ''REQMOD''"
    "\<not> ar_org_alias (sample_loaded clamav_instance ''REQMOD'' [])" "\<not> ar_204 (sample_loaded clamav_instance ''REQMOD'' [])"
    "\<not> rw_wrote_header (ar_w (sample_loaded clamav_instance ''REQMOD'' []))"
    by (simp_all add: sample_loaded_def Let_def sample_fields)
  have l: "itoa (length ''hello'') = ''5''" and h: "ae_http (sample_api_env sample_instance None) = sample_lib"
    by (code_simp, simp add: sample_api_env_def)
  from unmodified_body_returned [OF sample_loaded_ok(1) i a] a(1) show ?thesis unfolding l h by fastforce
qed

lemma options_announced_witness:
  "\<exists>i'. request_processing (sample_api_env sample_instance None) 2 (sample_api sample_instance ''OPTIONS'' []) = Some (Done i') \<and>
     hget (rw_header (ar_w i')) ''Methods'' = ''RESPMOD, REQMOD'' \<and> hget (rw_header (ar_w i')) ''Preview'' = ''1024''"
proof -
  have m: "map_of (ac_instances (ae_config (sample_api_env sample_instance None))) (ar_service (sample_api sample_instance ''OPTIONS'' []))
      = Some sample_instance"
    by (simp add: sample_api_env_def sample_app_def sample_fields)
  have r: "si_req_mode sample_instance \<or> si_resp_mode sample_instance"
    and p: "hget (rw_header (ar_w (sample_api sample_instance ''OPTIONS'' []))) ''Preview'' = []"
    and b: "si_resp_mode sample_instance" "si_req_mode sample_instance" "si_preview_bytes sample_instance = ''1024''"
    by (simp add: sample_instance_def, simp add: sample_fields, simp_all add: sample_instance_def)
  have "itoa 1024 = ''1024''" by (simp add: itoa_def digits_rev.simps digit_char_def)
  then have "0 \<le> fst (atoi ''1024'')" using atoi_itoa [of 1024] by simp
  then have pb: "si_preview_enabled sample_instance \<and> 0 \<le> fst (atoi (si_preview_bytes sample_instance))"
    by (simp add: sample_instance_def)
  from options_announced [OF sample_fields(1) m r sample_fields(3) p, of 2] pb b show ?thesis by auto
qed

lemma sample_byte_range:
  "(case resp_and_req_mods (sample_api_env clamav_instance None) 1 False (sample_loaded clamav_instance ''RESPMOD'' []) of
      Some (Done i') \<Rightarrow> True | _ \<Rightarrow> False)"
  by code_simp

lemma byte_range_response_lost_witness:
  "\<exists>i'. resp_and_req_mods (sample_api_env clamav_instance None) 1 False (sample_loaded clamav_instance ''RESPMOD'' []) = Some (Done i') \<and>
     hget (rw_header (ar_w i')) ''Encapsulated'' = ''null-body=0''"
proof -
  obtain i' where a: "resp_and_req_mods (sample_api_env clamav_instance None) (Suc 0) False
      (sample_loaded clamav_instance ''RESPMOD'' []) = Some (Done i')"
    using sample_byte_range by (auto split: option.splits outcome.splits)
  have i: "ar_method (sample_loaded clamav_instance ''RESPMOD'' []) = ''RESPMOD''"
    "ar_vendor (sample_loaded clamav_instance ''RESPMOD'' []) \<in> {''clamav'', ''clhashlookup''}"
    "\<not> ar_204 (sample_loaded clamav_instance ''RESPMOD'' [])" "\<not> ar_shadow (sample_loaded clamav_instance ''RESPMOD'' [])"
    "\<not> rw_wrote_header (ar_w (sample_loaded clamav_instance ''RESPMOD'' []))"
    by (simp_all add: sample_loaded_def Let_def sample_fields)
  have r: "ir_response (ar_req (sample_loaded clamav_instance ''RESPMOD'' [])) =
      Some (sample_response\<lparr>rs_code := 206, rs_body := BytesBody ''hello''\<rparr>)"
    by (simp add: sample_loaded_def Let_def sample_api_def sample_new_def new_api_request_def sample_icap_def)
  have c: "rs_code (sample_response\<lparr>rs_code := 206, rs_body := BytesBody ''hello''\<rparr>) = 206" by simp
  from byte_range_response_lost [OF sample_loaded_ok(2) i(1) r c i(2-5) a] a show ?thesis by auto
qed

abbreviation shadow_instance :: service_icap_info where
  "shadow_instance \<equiv> sample_instance\<lparr>si_shadow_service := True\<rparr>"

lemma sample_shadow:
  "(case request_initialization (sample_api_env shadow_instance None) (sample_new shadow_instance ''REQMOD'' []) of
      Done (Shadowed, i') \<Rightarrow> True | _ \<Rightarrow> False)"
  by code_simp

lemma shadow_mode_loses_body_witness:
  "\<exists>i' i1. request_initialization (sample_api_env shadow_instance None) (sample_new shadow_instance ''REQMOD'' []) = Done (Shadowed, i') \<and>
     bind_outcome (load_body (sample_api_env shadow_instance None) i') host_header = Done i1 \<and> loaded i1 []"
proof -
  obtain i' where a: "request_initialization (sample_api_env shadow_instance None) (sample_new shadow_instance ''REQMOD'' [])
      = Done (Shadowed, i')"
    using sample_shadow by (auto split: outcome.splits prod.splits init_result.splits)
  have w: "\<not> rw_wrote_header (ar_w (sample_new shadow_instance ''REQMOD'' []))"
    and h: "ir_header (ar_req (sample_new shadow_instance ''REQMOD'' [])) = []"
    and m: "ir_method (ar_req (sample_new shadow_instance ''REQMOD'' [])) = ''REQMOD''"
    by (simp_all add: sample_new_def new_api_request_def sample_writer_def sample_icap_def new_icap_request_def)
  from shadow_mode_loses_body [OF a w] h m a show ?thesis by (auto simp: is_204_allowed_def)
qed

lemma sample_lower_case:
  "(case request_initialization (sample_api_env sample_instance None) (sample_new sample_instance ''options'' []) of
      Done (Proceed, i') \<Rightarrow> True | _ \<Rightarrow> False)"
  by code_simp

lemma lower_case_options_panics_witness:
  "\<exists>i'. request_initialization (sample_api_env sample_instance None) (sample_new sample_instance ''options'' []) = Done (Proceed, i') \<and>
     request_processing (sample_api_env sample_instance None) 2 i' = Some (Panic ''nil response'')"
proof -
  obtain i' where a: "request_initialization (sample_api_env sample_instance None) (sample_new sample_instance ''options'' [])
      = Done (Proceed, i')"
    using sample_lower_case by (auto split: outcome.splits prod.splits init_result.splits)
  have "ir_method (ar_req (sample_new sample_instance ''options'' [])) = ''options''"
    "ir_response (ar_req (sample_new sample_instance ''options'' [])) = None"
    by (simp_all add: sample_new_def new_api_request_def sample_icap_def)
  from lower_case_options_panics [OF a _ this] a show ?thesis by simp
qed

lemma sample_block:
  "(case block_stop sample_svc sample_config (sample_call\<lparr>ca_method := ''REQMOD''\<rparr>) [] ''block-page.html'' ''5'' [] [] [] (sample_state ''hello'') of
      Done (res, st') \<Rightarrow> so_status res = 200 | Panic _ \<Rightarrow> False)"
  by code_simp

lemma blocked_request_page_lost_witness:
  "\<exists>res st' i' r page. block_stop sample_svc sample_config (sample_call\<lparr>ca_method := ''REQMOD''\<rparr>) [] ''block-page.html'' ''5'' [] [] []
       (sample_state ''hello'') = Done (res, st') \<and>
     answer_status (sample_api_env sample_instance None) res (sample_api sample_instance ''REQMOD'' []) = Done i' \<and>
     so_msg res = SvcRequest r \<and> rq_body r = BytesBody page \<and>
     hget (rw_header (ar_w i')) ''Encapsulated'' = encap_text [(''req-hdr'', 0),
       (''null-body'', length (http_request_header (ae_http (sample_api_env sample_instance None)) r))]"
proof -
  obtain res st' where a: "block_stop sample_svc sample_config (sample_call\<lparr>ca_method := ''REQMOD''\<rparr>) [] ''block-page.html'' ''5'' [] [] []
       (sample_state ''hello'') = Done (res, st')" "so_status res = 200"
    using sample_block by (auto split: outcome.splits prod.splits)
  have m: "ca_method (sample_call\<lparr>ca_method := ''REQMOD''\<rparr>) = ''REQMOD''" by simp
  have h: "\<forall>r. hm_request (ss_msg (sample_state ''hello'')) = Some r \<longrightarrow> (\<forall>k. map_of (rq_header r) k \<noteq> None \<longrightarrow> canonical_key k = k)"
    by (simp add: sample_state_def zero_request_def)
  from blocked_request_page_lost [OF a(1) m a(2) sample_fields(3) h, of "sample_api_env sample_instance None"] a(1)
  show ?thesis by blast
qed

end
