(* ===== verification/IcapegServer.thy ===== *)
theory IcapegServer
  imports ApiProperties
begin

text \<open>
  The server as \<open>server/server.go\<close> puts it together: every path is handled by \<open>ToICAPEGServe\<close>. What is proved
  of the connection loop for any handler that only consumes input is brought to the handler of the
  program, by following the input through it.
\<close>

section \<open>The handler\<close>

text \<open>
  \<open>icap.HandleFunc("/", api.ToICAPEGServe)\<close>. The services and the business logic are shared by all connections:
  \<open>st\<close> gives their state when the request comes to the handler, and as the input a connection still has
  tells its requests apart, every interleaving with other connections is some \<open>st\<close>. \<open>None\<close> does not occur
  (\<open>to_icapeg_serve_ends\<close>).
\<close>

definition api_handler :: "api_env \<Rightarrow> (resp_writer \<Rightarrow> icap_request \<Rightarrow> svc_globals \<times> business_state) \<Rightarrow> icap_handler" where
  "api_handler env st w req =
     (case st w req of (g, biz) \<Rightarrow>
       (case to_icapeg_serve env g biz w req of
          None \<Rightarrow> Panic ''not reached''
        | Some m \<Rightarrow> bind_outcome m (\<lambda>(res, i). Done (ar_w i))))"

definition icapeg_mux :: "api_env \<Rightarrow> (resp_writer \<Rightarrow> icap_request \<Rightarrow> svc_globals \<times> business_state) \<Rightarrow>
    serve_mux outcome" where
  "icapeg_mux env st = mux_handle (ae_http env) ''/'' (api_handler env st) []"

section \<open>Input is only consumed\<close>

definition pend :: "api_request \<Rightarrow> nat" where
  "pend i = length (conn_pending (c_in (rw_conn (ar_w i))))"

lemma cw_write_in: "c_in (rw_conn (snd (snd (cw_write p w)))) = c_in (rw_conn w)"
  by (simp add: cw_write_out)

lemma write_msg_body_pending:
  assumes "write_msg_body lib msg w = Done w'"
  shows "length (conn_pending (c_in (rw_conn w'))) \<le> length (conn_pending (c_in (rw_conn w)))"
  using assms
  by (auto simp: write_msg_body_def bind_outcome_Done_iff cw_write_in reads_on_def
      split: option.splits http_msg.splits dest!: read_body_reads_on)

lemma write_header_pending:
  assumes "write_header lib code msg hb w = Done w'"
  shows "length (conn_pending (c_in (rw_conn w'))) \<le> length (conn_pending (c_in (rw_conn w)))"
proof -
  have "c_in (rw_conn (header_written lib code msg hb w)) = c_in (rw_conn w)"
    by (simp add: header_written_def)
  with assms write_msg_body_pending [of lib msg "header_written lib code msg hb w" w'] show ?thesis
    by (auto simp: write_header_eq split: if_splits)
qed

lemma rw_write_pending:
  assumes "rw_write lib p w = Done (n, err, w')"
  shows "length (conn_pending (c_in (rw_conn w'))) \<le> length (conn_pending (c_in (rw_conn w)))"
  using assms write_header_pending
  by (fastforce simp: rw_write_def bind_outcome_Done_iff cw_write_out split: if_splits)

lemma answer_pending: "answer env code msg hb i = Done i' \<Longrightarrow> pend i' \<le> pend i"
  using write_header_pending by (fastforce simp: answer_def bind_outcome_Done_iff pend_def)

lemma pend_simps [simp]:
  "pend (set_request r i) = pend i" "pend (set_response rs i) = pend i" "pend (put_header k v i) = pend i"
  "pend (set_header k v i) = pend i" "pend (set_conn c i) = length (conn_pending (c_in c))"
  by (simp_all add: pend_def set_response_def set_header_def rw_set_header_def)

lemma shadow_service_pending: "shadow_service env i = Done i' \<Longrightarrow> pend i' \<le> pend i"
proof -
  have w: "rw_write lib p (ar_w i1) = Done (n, err, w) \<Longrightarrow> pend (i1\<lparr>ar_w := w\<rparr>) \<le> pend i1" for lib p i1 n err w
    using rw_write_pending by (fastforce simp: pend_def)
  assume a: "shadow_service env i = Done i'"
  define i1 where "i1 = (if ac_debugging_headers (ae_config env)
      then put_header ''X-ICAPeg-Shadow-Service'' ''true'' i else i)"
  have "pend i1 = pend i" by (simp add: i1_def)
  with a show ?thesis
    by (auto simp: shadow_service_def i1_def [symmetric] Let_def bind_outcome_Done_iff split: if_splits option.splits
        dest!: w dest: answer_pending intro: order_trans)
qed

lemma prepare_service_pending: "prepare_service env i = Done (res, i') \<Longrightarrow> pend i' \<le> pend i"
proof -
  assume a: "prepare_service env i = Done (res, i')"
  obtain inst where i: "instance_of env (ar_service i) = Done inst"
    using a by (auto simp: prepare_service_def bind_outcome_Done_iff)
  define i3 where "i3 = (put_header ''Service'' (si_service_caption inst)
      (put_header ''ISTag'' (istag_value (scl_svc (ae_scan env))) (i\<lparr>ar_vendor := si_vendor inst\<rparr>)))
      \<lparr>ar_204 := is_204_allowed (ir_header (ar_req i)), ar_shadow := si_shadow_service inst\<rparr>"
  have p: "pend i3 = pend i" by (simp add: i3_def pend_def)
  have "shadow_service env i3 = Done i' \<or> i' = i3 \<or> i' = put_header ''X-ICAPeg-Shadow-Service'' ''false'' i3"
    using a i by (auto simp: prepare_service_def bind_outcome_Done_iff Let_def i3_def split: if_splits)
  then show ?thesis using p shadow_service_pending by fastforce
qed

lemma request_initialization_pending:
  assumes "request_initialization env i = Done (res, i')"
  shows "pend i' \<le> pend i"
proof -
  have k: "pend (i\<lparr>ar_service := x\<rparr>) = pend i" "pend (i\<lparr>ar_service := x, ar_method := y\<rparr>) = pend i" for x y
    by (simp_all add: pend_def)
  show ?thesis
    using assms k
    by (auto simp: request_initialization_def Let_def bind_outcome_Done_iff split: if_splits
        dest!: answer_pending prepare_service_pending)
qed

lemma process_request_reads_on:
  assumes "process_request h env icap p st = Done ((status, deferred, err), st')"
  shows "reads_on (bs_conn st) (bs_conn st')"
  using assms
proof (cases rule: process_request_cases)
  case (matched identity attrs cfg st2)
  have "reads_on (bs_conn st2) (bs_conn st1)" if "snapshot_body lib st2 = Done (bd, st1)" for lib bd st1
    using that by (auto simp: snapshot_body_def bind_outcome_Done_iff split: option.splits if_splits dest: read_body_reads_on)
  with apply_config_result [OF matched(6)] matched(5) show ?thesis by auto
qed simp_all

lemma run_business_pending: "run_business env h benv p i = Done (res, i') \<Longrightarrow> pend i' \<le> pend i"
  by (cases res) (auto simp: run_business_def bind_outcome_Done_iff pend_def reads_on_def dest!: process_request_reads_on)

lemma conclude_business_pending: "conclude_business env status d i = Done (refused, i') \<Longrightarrow> pend i' \<le> pend i"
proof -
  have "pend (i\<lparr>ar_pending := d\<rparr>) = pend i" by (simp add: pend_def)
  then show "conclude_business env status d i = Done (refused, i') \<Longrightarrow> pend i' \<le> pend i"
    by (auto simp: conclude_business_def Let_def bind_outcome_Done_iff split: if_splits dest!: answer_pending)
qed

lemma before_service_pending:
  assumes "before_service env p i = Done (refused, i')"
  shows "pend i' \<le> pend i"
proof -
  let ?j = "default_request i" let ?k = "?j\<lparr>ar_business_applied := True\<rparr>"
  have d: "pend ?j = pend i" "pend ?k = pend i" by (simp_all add: default_request_def pend_def split: option.splits)
  have a: "apply_business env p ?j = Done (refused, i')"
    using assms by (auto simp: before_service_def bind_outcome_Done_iff)
  have both: "pend i' \<le> pend j" if "bind_outcome (run_business env h benv q j) (\<lambda>((status, deferred, err), i2).
      conclude_business env status (f deferred) i2) = Done (refused, i')" for h benv q j f
    using that
    by (auto simp: bind_outcome_Done_iff intro: order_trans [OF conclude_business_pending run_business_pending])
  show ?thesis
    using a d both [of _ _ _ ?k "\<lambda>d. d"] both [of _ _ _ ?j "\<lambda>d. False"]
    by (auto simp: apply_business_def Let_def split: if_splits option.splits)
qed

lemma ask_service_pending: "ask_service env p i = Done (res, i') \<Longrightarrow> pend i' \<le> pend i"
  using ask_service_effect [of env p i res i'] by (simp add: pend_def reads_on_def)

lemma answer_status_pending:
  assumes "answer_status env res i = Done i'"
  shows "pend i' \<le> pend i"
proof -
  have "answer_unmodified env i = Done i' \<Longrightarrow> pend i' \<le> pend i"
    by (auto simp: answer_unmodified_def bind_outcome_Done_iff Let_def reads_on_def pend_def [of i] split: option.splits
        dest!: answer_pending read_body_reads_on)
  with assms answer_pending show ?thesis
    by (auto simp: answer_status_def Let_def split: if_splits)
qed

lemma fetch_rest_pending:
  assumes "fetch_rest env i = Done i'"
  shows "pend i' \<le> pend i"
proof -
  obtain bs req c where r: "read_the_rest (ae_http env) (ar_req i) (rw_conn (ar_w i)) = (bs, req, c)"
    by (metis prod_cases3)
  have "pend i' = length (conn_pending (c_in c))"
    using assms r by (auto simp: fetch_rest_def Let_def pend_def set_response_def split: if_splits option.splits)
  with read_the_rest_pending [OF r] show ?thesis by (simp add: pend_def)
qed

lemma resp_and_req_mods_pending:
  "resp_and_req_mods env n p i = Some (Done i') \<Longrightarrow> pend i' \<le> pend i"
proof (induction n arbitrary: p i)
  case (Suc n)
  from Suc.prems obtain refused i1 where b: "before_service env p i = Done (refused, i1)"
    by (cases "before_service env p i") auto
  note le1 = before_service_pending [OF b]
  show ?case
  proof (cases refused)
    case True
    with Suc.prems b le1 show ?thesis by simp
  next
    case False
    with Suc.prems b obtain res i2 where s: "ask_service env p i1 = Done (res, i2)"
      by (cases "ask_service env p i1") auto
    note le2 = order_trans [OF ask_service_pending [OF s] le1]
    consider "i' = i2" | i3 where "fetch_rest env i2 = Done i3" "resp_and_req_mods env n False i3 = Some (Done i')"
      | "answer_status env res i2 = Done i'"
      using Suc.prems b s False by (auto split: if_splits outcome.splits)
    then show ?thesis
    proof cases
      case 1
      with le2 show ?thesis by simp
    next
      case 2
      from order_trans [OF Suc.IH [OF 2(2)] order_trans [OF fetch_rest_pending [OF 2(1)] le2]] show ?thesis .
    next
      case 3
      from order_trans [OF answer_status_pending [OF 3] le2] show ?thesis .
    qed
  qed
qed simp

lemma load_body_pending:
  assumes "bind_outcome (load_body env i) host_header = Done i'"
  shows "pend i' \<le> pend i"
proof -
  obtain i1 where l: "load_body env i = Done i1" "host_header i1 = Done i'"
    using assms by (auto simp: bind_outcome_Done_iff)
  have "load_request env i = Done i1 \<Longrightarrow> pend i1 \<le> pend i" "load_response env i = Done i1 \<Longrightarrow> pend i1 \<le> pend i"
    by (auto simp: load_request_def load_response_def bind_outcome_Done_iff Let_def reads_on_def pend_def [of i]
        split: option.splits dest!: read_body_reads_on)
  with l(1) have "pend i1 \<le> pend i" by (auto simp: load_body_def split: if_splits)
  moreover have "pend i' = pend i1" using l(2) by (auto simp: host_header_def split: if_splits option.splits)
  ultimately show ?thesis by simp
qed

lemma options_mode_pending: "options_mode env i = Done i' \<Longrightarrow> pend i' \<le> pend i"
  by (auto simp: options_mode_def bind_outcome_Done_iff Let_def split: if_splits dest!: answer_pending)

lemma request_processing_pending:
  assumes "request_processing env n i = Some (Done i')"
  shows "pend i' \<le> pend i"
proof (cases "ar_method i = ''OPTIONS''")
  case True
  with assms options_mode_pending show ?thesis by (simp add: request_processing_def)
next
  case False
  with assms obtain i1 where "bind_outcome (load_body env i) host_header = Done i1"
    "resp_and_req_mods env n (is_partial i1) i1 = Some (Done i')"
    by (cases "bind_outcome (load_body env i) host_header") (auto simp: request_processing_def)
  with load_body_pending resp_and_req_mods_pending show ?thesis by (blast intro: order_trans)
qed

section \<open>The connection loop\<close>

lemma to_icapeg_serve_ends: "to_icapeg_serve env g biz w req \<noteq> None"
proof -
  have "request_processing env 2 i \<noteq> None" for i
    using two_passes [of env 0] by (auto simp: request_processing_def numeral_2_eq_2 split: outcome.splits)
  then show ?thesis by (auto simp: to_icapeg_serve_def split: outcome.splits init_result.splits)
qed

lemma to_icapeg_serve_pending:
  assumes "to_icapeg_serve env g biz w req = Some (Done (res, i))"
  shows "pend i \<le> length (conn_pending (c_in (rw_conn w)))"
proof -
  have new: "pend (new_api_request env g biz w req) = length (conn_pending (c_in (rw_conn w)))"
    by (simp add: new_api_request_def pend_def)
  obtain r i1 where i: "request_initialization env (new_api_request env g biz w req) = Done (r, i1)"
    using assms by (cases "request_initialization env (new_api_request env g biz w req)") (auto simp: to_icapeg_serve_def)
  then have le: "pend i1 \<le> length (conn_pending (c_in (rw_conn w)))"
    using request_initialization_pending new by fastforce
  show ?thesis
  proof (cases "r = Proceed")
    case True
    with assms i obtain m where m: "request_processing env 2 i1 = Some m" "bind_outcome m (\<lambda>i1. Done (Proceed, i1)) = Done (res, i)"
      by (auto simp: to_icapeg_serve_def)
    then have "request_processing env 2 i1 = Some (Done i)" by (auto simp: bind_outcome_Done_iff)
    from order_trans [OF request_processing_pending [OF this] le] show ?thesis .
  next
    case False
    with assms i have "i1 = i" by (cases r) (auto simp: to_icapeg_serve_def)
    with le show ?thesis by simp
  qed
qed

lemma consumes_only_api_handler: "consumes_only (api_handler env st)"
proof -
  have "length (conn_pending (c_in (rw_conn w'))) \<le> length (conn_pending (c_in (rw_conn w)))"
    if "api_handler env st w req = Done w'" for w req w'
    using that to_icapeg_serve_pending [of env "fst (st w req)" "snd (st w req)" w req]
    by (auto simp: api_handler_def bind_outcome_Done_iff pend_def split: option.splits prod.splits)
  then show ?thesis by (simp add: consumes_only_def)
qed

lemma rw_set_header_conn [simp]: "rw_conn (rw_set_header k v w) = rw_conn w"
  by (simp add: rw_set_header_def)

lemma consumes_only_redirect: "consumes_only (redirect lib url code)"
  using write_header_plain
  by (fastforce simp: consumes_only_def redirect_def bind_outcome_Done_iff)

lemma match_handler_mem: "match_handler m path = Some h \<Longrightarrow> h \<in> snd ` set m"
proof -
  have "foldl (match_step path) best m = Some (h, n) \<Longrightarrow> h \<in> snd ` set m \<or> (\<exists>k. best = Some (h, k))" for best n
    by (induction m arbitrary: best) (fastforce simp: match_step_def split: if_splits option.splits prod.splits)+
  from this [of None] show "match_handler m path = Some h \<Longrightarrow> h \<in> snd ` set m"
    by (auto simp: match_handler_def)
qed

lemma consumes_only_mux_serve:
  assumes "\<forall>h \<in> snd ` set m. consumes_only h"
  shows "consumes_only (mux_serve lib m)"
proof -
  have "length (conn_pending (c_in (rw_conn w'))) \<le> length (conn_pending (c_in (rw_conn w)))"
    if a: "mux_serve lib m w r = Done w'" for w r w'
  proof (cases "clean_path (u_path (ir_url r)) = u_path (ir_url r)")
    case False
    with a write_header_plain show ?thesis by (fastforce simp: mux_serve_def Let_def)
  next
    case True
    with a obtain h where "h w r = Done w'" "h \<in> snd ` set m \<or> h = not_found lib"
      by (auto simp: mux_serve_def Let_def split: option.splits dest: match_handler_mem)
    with assms consumes_only_not_found show ?thesis unfolding consumes_only_def by blast
  qed
  then show ?thesis by (simp add: consumes_only_def)
qed

text \<open>C27: Serving a connection ends: whatever bytes a peer sends, in whatever state the other connections
  have put the services and the business logic, the server leaves the connection after at most one request per
  byte received. Registering the handler never panics.\<close>

theorem icapeg_connection_ends:
  assumes "\<forall>l. 0 < lib_room (ae_http env) l" and "length (conn_pending (c_in c)) < fuel"
  shows "case icapeg_mux env st of
           Panic _ \<Rightarrow> False
         | Done m \<Rightarrow> (case serve (ae_http env) (mux_serve (ae_http env) m) addr fuel c of
             None \<Rightarrow> False
           | Some (reqs, end, c') \<Rightarrow> length reqs \<le> fuel)"
proof -
  obtain m where m: "icapeg_mux env st = Done m" and "\<forall>h \<in> snd ` set m. consumes_only h"
    using consumes_only_api_handler consumes_only_redirect by (simp add: icapeg_mux_def mux_handle_def)
  then have "consumes_only (mux_serve (ae_http env) m)" by (intro consumes_only_mux_serve)
  from serve_terminates [OF this assms, of addr] m show ?thesis by auto
qed

lemma icapeg_connection_ends_witness:
  "\<forall>st. case icapeg_mux (sample_api_env sample_instance None) st of
      Panic _ \<Rightarrow> False
    | Done m \<Rightarrow> (case serve sample_lib (mux_serve sample_lib m) ''10.0.0.1'' 60
          (new_conn \<lparr>segs = [''OPTIONS icap://h/echo ICAP/1.0'' @ crlf, crlf @ ''RESPMOD ''], net_err = EOF\<rparr>) of
        None \<Rightarrow> False | Some (reqs, end, c') \<Rightarrow> length reqs \<le> 60)"
proof -
  let ?env = "sample_api_env sample_instance None"
  let ?c = "new_conn \<lparr>segs = [''OPTIONS icap://h/echo ICAP/1.0'' @ crlf, crlf @ ''RESPMOD ''], net_err = EOF\<rparr>"
  have lib: "ae_http ?env = sample_lib" by (simp add: sample_api_env_def)
  then have "\<forall>l. 0 < lib_room (ae_http ?env) l" by (simp add: sample_lib_def)
  moreover have "length (conn_pending (c_in ?c)) < 60" by (simp add: new_conn_def conn_pending_def)
  ultimately show ?thesis using icapeg_connection_ends [of ?env ?c 60] by (simp only: lib) blast
qed

end
