(* ===== verification/ApiLog.thy ===== *)
theory ApiLog
  imports ApiRequest
begin

text \<open>
  The record \<open>api/icap-request.go\<close> logs of a transaction: the metadata that names it, the headers of the
  ICAP request and response, and with them the headers of the HTTP message before and after. Encoding as
  JSON is a parameter (\<open>sl_json_marshal\<close>); random numbers are the parameter \<open>pick\<close>.
\<close>

section \<open>The name of a transaction\<close>

definition identifier_string :: string where
  "identifier_string = ''abcdefghijklmnopqrstuvwxyz0123456789''"

definition generate_icap_req_metadata :: "(nat \<Rightarrow> nat) \<Rightarrow> nat \<Rightarrow> string" where
  "generate_icap_req_metadata pick len = map (\<lambda>k. identifier_string ! pick k) [0..<len]"

section \<open>Headers\<close>

text \<open>The joined values the loops compute are not used: the list of values itself is logged.\<close>

definition header_json :: "header \<Rightarrow> (string \<times> json) list \<Rightarrow> (string \<times> json) list" where
  "header_json h start = fold (\<lambda>(key, value). AList.update key (JArray (map JString value))) h start"

definition log_icap_req_headers :: "api_request \<Rightarrow> (string \<times> json) list" where
  "log_icap_req_headers i =
     header_json (ir_header (ar_req i))
       [(''ICAP-Requested-URL'', JString (''icap://'' @ u_host (ir_url (ar_req i)) @ ''/'' @ ar_service i))]"

definition log_icap_res_headers :: "nat \<Rightarrow> api_request \<Rightarrow> (string \<times> json) list" where
  "log_icap_res_headers status i =
     header_json (rw_header (ar_w i)) [(''ICAP-Response-Status-Code'', JNumber (itoa status))]"

definition message_json :: "(string \<times> string) list \<Rightarrow> json" where
  "message_json kvs = JObject (map (\<lambda>(k, v). (k, JString v)) kvs)"

section \<open>The record\<close>

text \<open>The encoded record loses its backslashes.\<close>

definition log_line :: "svc_lib \<Rightarrow> (string \<times> json) list \<Rightarrow> string" where
  "log_line lib obj = filter (\<lambda>c. c \<noteq> CHR 0x5C) (sl_json_marshal lib obj)"

text \<open>\<open>PrepareLogMsg\<close>, which every message goes through.\<close>

definition prepare_log_msg :: "svc_lib \<Rightarrow> string \<Rightarrow> string \<Rightarrow> string" where
  "prepare_log_msg lib metadata msg = log_line lib [(''X-ICAP-Metadata'', JString metadata), (''log'', JString msg)]"

text \<open>
  \<open>allHeaders\<close>: \<open>req_headers\<close> are the headers kept since the beginning of the request; they get the HTTP
  message and are kept on. Vendor messages are always empty.
\<close>

definition all_headers :: "svc_lib \<Rightarrow> nat \<Rightarrow> (string \<times> string) list \<Rightarrow> (string \<times> string) list \<Rightarrow> api_request \<Rightarrow>
    (string \<times> json) list \<Rightarrow> string \<times> (string \<times> json) list" where
  "all_headers lib status before after i req_headers =
     (let resp = log_icap_res_headers status i;
          req = AList.update ''HTTP-Message'' (message_json before) req_headers;
          resp1 = (if status = 200 then AList.update ''HTTP-Message'' (message_json after) resp else resp);
          mode = (if ar_method i = ''REQMOD'' then ''ICAP-REQMOD-'' else ''ICAP-RESPMOD-'')
      in (log_line lib [(''Vendor-Messages'', JObject []), (mode @ ''Request'', JObject req),
                        (mode @ ''Response'', JObject resp1)], req))"

text \<open>The record of OPTIONS.\<close>

definition options_headers :: "svc_lib \<Rightarrow> (string \<times> json) list \<Rightarrow> api_request \<Rightarrow> string" where
  "options_headers lib req_headers i =
     log_line lib [(''ICAP-OPTIONS-Request'', JObject req_headers),
                   (''ICAP-OPTIONS-Response'', JObject (log_icap_res_headers 200 i))]"

section \<open>What is logged\<close>

lemma metadata_letters:
  assumes "\<And>k. pick k < 36"
  shows "length (generate_icap_req_metadata pick len) = len \<and>
    set (generate_icap_req_metadata pick len) \<subseteq> set identifier_string"
proof -
  have "length identifier_string = 36" by (simp add: identifier_string_def)
  then have "identifier_string ! pick k \<in> set identifier_string" for k by (simp add: assms)
  then show ?thesis by (auto simp: generate_icap_req_metadata_def)
qed

lemma map_of_header_json:
  assumes "distinct (map fst h)"
  shows "map_of (header_json h start) key =
    (case map_of h key of Some vs \<Rightarrow> Some (JArray (map JString vs)) | None \<Rightarrow> map_of start key)"
  using assms
proof (induction h arbitrary: start)
  case (Cons kv h)
  obtain k vs where kv: "kv = (k, vs)" by (cases kv)
  with Cons.prems have "k \<notin> fst ` set h" by simp
  then have "map_of h k = None" by (simp add: map_of_eq_None_iff)
  with Cons show ?case by (auto simp: kv header_json_def update_conv' split: option.split)
qed (simp add: header_json_def)

text \<open>The record names the status and, with all its values, every header of the response.\<close>

lemma response_headers_logged:
  assumes "distinct (map fst (rw_header (ar_w i)))" and "map_of (rw_header (ar_w i)) ''ICAP-Response-Status-Code'' = None"
  shows "map_of (log_icap_res_headers status i) ''ICAP-Response-Status-Code'' = Some (JNumber (itoa status)) \<and>
    (\<forall>(key, vs) \<in> set (rw_header (ar_w i)). map_of (log_icap_res_headers status i) key = Some (JArray (map JString vs)))"
  using assms by (auto simp: log_icap_res_headers_def map_of_header_json)

end
