(* ===== verification/Startup.thy ===== *)
theory Startup
  imports IcapegServer ApiLog
begin

text \<open>
  \<open>StartServer\<close> of \<open>server/server.go\<close>: environment files, configuration, business logic and the listener,
  in the order they are set up, and the server that results; and the page of the server on port 8081.
  Signals and the idle ticker are left out.

  \<open>godotenv.Load\<close> is a parameter: given a path and the environment of the process it fails or gives the
  environment afterwards. So are the settings library and what the business logic meets while it is set up.
\<close>

section \<open>The environment\<close>

type_synonym environ = "string \<rightharpoonup> string"

definition getenv :: "environ \<Rightarrow> string \<Rightarrow> string" where
  "getenv e name = (case e name of None \<Rightarrow> [] | Some v \<Rightarrow> v)"

definition env_files :: "string list" where
  "env_files = [''.env'', ''../.env'', ''icapeg/.env'']"

text \<open>The files that could be loaded, and the environment afterwards.\<close>

fun load_env_files :: "(string \<Rightarrow> environ \<Rightarrow> environ option) \<Rightarrow> string list \<Rightarrow> environ \<Rightarrow> string list \<times> environ" where
  "load_env_files load [] e = ([], e)"
| "load_env_files load (p # ps) e =
     (case load p e of
        None \<Rightarrow> load_env_files load ps e
      | Some e1 \<Rightarrow> (case load_env_files load ps e1 of (names, e2) \<Rightarrow> (p # names, e2)))"

definition business_config_of :: "environ \<Rightarrow> business_config" where
  "business_config_of e =
     (let or_default = (\<lambda>v d. if v = [] then d else v) in
      \<lparr>bc_database_url = getenv e ''DATABASE_URL'', bc_sqs_queue_url = getenv e ''RECORDING_QUEUE_URL'',
       bc_sqs_region = or_default (getenv e ''AWS_REGION'') ''us-east-1'',
       bc_access_key_id = getenv e ''AWS_ACCESS_KEY_ID'', bc_secret_access_key = getenv e ''AWS_SECRET_ACCESS_KEY'',
       bc_s3_bucket = or_default (getenv e ''URAI_FILE_BUCKET'') ''stage-urai'',
       bc_ldap_host = getenv e ''LDAP_HOST'', bc_ldap_port = getenv e ''LDAP_PORT'',
       bc_ldap_base_dn = getenv e ''LDAP_BASE_DN'', bc_ldap_bind_dn = getenv e ''LDAP_BIND_DN'',
       bc_ldap_bind_password = getenv e ''LDAP_BIND_PASSWORD''\<rparr>)"

section \<open>Starting\<close>

record icapeg =
  ig_loaded :: "string list"
  ig_env :: environ
  ig_config :: app_config
  ig_business_error :: "go_error option"
  ig_business :: "business_handler option"
  ig_address :: string

text \<open>
  The settings read the environment as the files left it, and so does the denylist of the business logic.
  An error of the business logic is logged and the server goes on.
\<close>

definition start_server :: "(string \<Rightarrow> environ \<Rightarrow> environ option) \<Rightarrow> settings \<Rightarrow> setup_env \<Rightarrow> environ \<Rightarrow> icapeg startup" where
  "start_server load s setup e0 =
     (case load_env_files load env_files e0 of (names, e) \<Rightarrow>
       and_then (config_init (s\<lparr>st_env := getenv e\<rparr>)) (\<lambda>cfg.
       case init_with_ldap (setup\<lparr>se_denylist := getenv e ''CANDIDATE_DENYLIST''\<rparr>) (business_config_of e) (False, None) of
         (err, started, handler) \<Rightarrow>
           Started \<lparr>ig_loaded = names, ig_env = e, ig_config = cfg, ig_business_error = err, ig_business = handler,
                    ig_address = '':'' @ itoa_int (ac_port cfg)\<rparr>))"

text \<open>The summary of the recording pipeline that is logged once.\<close>

datatype pipeline_note = RecordingDisabled | DatabaseReady | TenantUnset | DatabaseUrlEmpty | QueueUnset | QueueSet

definition log_recording_pipeline_env :: "environ \<Rightarrow> business_handler option \<Rightarrow> string \<Rightarrow> string \<Rightarrow> pipeline_note list" where
  "log_recording_pipeline_env e handler database_url queue_url =
     (if handler = None then [RecordingDisabled]
      else [DatabaseReady] @
           (if trim_space (getenv e ''TENANT_ID'') = [] then [TenantUnset] else []) @
           (if trim_space database_url = [] then [DatabaseUrlEmpty] else []) @
           (if trim_space queue_url = [] then [QueueUnset] else [QueueSet]))"

text \<open>
  What the handler of the running server sees: the configuration and the business logic of the start, and
  the world (\<open>env\<close>) for the rest.
\<close>

definition running_env :: "icapeg \<Rightarrow> api_env \<Rightarrow> api_env" where
  "running_env sv env = env\<lparr>ae_config := ig_config sv, ae_business := ig_business sv\<rparr>"

text \<open>
  \<open>icap.ListenAndServe\<close> with a nil handler: the default multiplexer, in which \<open>ToICAPEGServe\<close> is registered.
  An address that cannot be listened on ends the process.
\<close>

definition listen_address :: "string \<Rightarrow> string" where
  "listen_address addr = (if addr = [] then '':1344'' else addr)"

definition listen_and_serve :: "(string \<Rightarrow> go_error option) \<Rightarrow> icapeg \<Rightarrow> api_env \<Rightarrow>
    (resp_writer \<Rightarrow> icap_request \<Rightarrow> svc_globals \<times> business_state) \<Rightarrow> nat \<Rightarrow> accept_event list \<Rightarrow>
    ((icap_request list \<times> serve_end \<times> conn_io) option list \<times> go_error option) outcome startup" where
  "listen_and_serve listen sv env st fuel evs =
     (case listen (listen_address (ig_address sv)) of
        Some err \<Rightarrow> Exited (err_text err)
      | None \<Rightarrow>
          Started (bind_outcome (icapeg_mux (running_env sv env) st) (\<lambda>m.
            Done (server_serve (ae_http env) m None fuel evs))))"

section \<open>The page server\<close>

text \<open>\<open>HtmlMessage\<close>, the page for a blocked request: its first lines parse the default page, and so does the
  branch for another page.\<close>

definition html_message :: "svc_lib \<Rightarrow> bytes \<Rightarrow> bytes outcome" where
  "html_message lib request_body =
     (let html_tmpl = sl_template lib ''block-page.html'';
          page = sl_page_decode lib request_body;
          tmpl = (if ep_exception_page page \<noteq> []
                  then (case sl_template lib ''block-page.html'' of Some t \<Rightarrow> Some t | None \<Rightarrow> html_tmpl)
                  else html_tmpl)
      in case tmpl of None \<Rightarrow> Panic ''nil template'' | Some t \<Rightarrow> Done (t page))"

lemma exception_page_not_shown:
  "html_message lib request_body =
     (case sl_template lib ''block-page.html'' of
        None \<Rightarrow> Panic ''nil template''
      | Some t \<Rightarrow> Done (t (sl_page_decode lib request_body)))"
  by (simp add: html_message_def Let_def split: option.split)

section \<open>Environment files\<close>

text \<open>
  What godotenv documents of \<open>Load\<close>, for what the files hold (\<open>None\<close> for one that is not there or not
  readable): the variables of a file are added, and one that is set already keeps its value.
\<close>

definition adds_variables :: "(string \<Rightarrow> environ option) \<Rightarrow> (string \<Rightarrow> environ \<Rightarrow> environ option) \<Rightarrow> bool" where
  "adds_variables files load \<longleftrightarrow> (\<forall>p e. load p e = map_option (\<lambda>f. f ++ e) (files p))"

text \<open>The first of several layers that sets a variable gives its value.\<close>

fun layered :: "environ option list \<Rightarrow> environ" where
  "layered [] name = None"
| "layered (None # layers) name = layered layers name"
| "layered (Some f # layers) name = (case f name of Some v \<Rightarrow> Some v | None \<Rightarrow> layered layers name)"

lemma load_env_files_layers:
  assumes "adds_variables files load"
  shows "load_env_files load ps e = (filter (\<lambda>p. files p \<noteq> None) ps, layered (Some e # map files ps))"
proof (induction ps arbitrary: e)
  case Nil
  show ?case by (auto split: option.split)
next
  case (Cons p ps)
  show ?case
  proof (cases "files p")
    case None
    with assms Cons [of e] show ?thesis by (auto simp: adds_variables_def fun_eq_iff split: option.split)
  next
    case (Some f)
    with assms Cons [of "f ++ e"] show ?thesis
      by (auto simp: adds_variables_def fun_eq_iff map_add_def split: option.split)
  qed
qed

section \<open>Without business logic\<close>

text \<open>Without a handler nothing touches the state of the business logic.\<close>

lemma answer_biz: "answer env code msg hb i = Done i' \<Longrightarrow> ar_biz i' = ar_biz i"
  by (auto simp: answer_def bind_outcome_Done_iff)

lemma biz_simps [simp]:
  "ar_biz (put_header k v i) = ar_biz i" "ar_biz (set_header k v i) = ar_biz i" "ar_biz (set_response rs i) = ar_biz i"
  "ar_biz (set_conn c i) = ar_biz i"
  by (simp_all add: put_header_def set_header_def set_response_def set_conn_def)

lemma shadow_service_biz: "shadow_service env i = Done i' \<Longrightarrow> ar_biz i' = ar_biz i"
  by (auto simp: shadow_service_def Let_def bind_outcome_Done_iff split: if_splits option.splits dest!: answer_biz)

lemma request_initialization_biz:
  assumes "request_initialization env i = Done (res, i')"
  shows "ar_biz i' = ar_biz i"
proof -
  have p: "prepare_service env j = Done (res, i') \<Longrightarrow> ar_biz i' = ar_biz j" for j
    by (auto simp: prepare_service_def Let_def bind_outcome_Done_iff split: if_splits dest!: shadow_service_biz)
  show ?thesis
    using assms
    by (auto simp: request_initialization_def Let_def bind_outcome_Done_iff split: if_splits dest!: answer_biz p)
qed

lemma before_service_biz:
  assumes "ae_business env = None" and "before_service env p i = Done (refused, i')"
  shows "\<not> refused \<and> ar_biz i' = ar_biz i"
  using assms
  by (auto simp: before_service_def apply_business_def default_request_def Let_def bind_outcome_Done_iff
      split: if_splits option.splits)

lemma ask_service_biz: "ask_service env p i = Done (res, i') \<Longrightarrow> ar_biz i' = ar_biz i"
proof -
  have "ar_biz (fold (\<lambda>(k, v). put_header k v) hs j) = ar_biz j" for hs j
    by (induction hs arbitrary: j) auto
  then show "ask_service env p i = Done (res, i') \<Longrightarrow> ar_biz i' = ar_biz i"
    by (auto simp: ask_service_def bind_outcome_Done_iff)
qed

lemma answer_status_biz: "answer_status env res i = Done i' \<Longrightarrow> ar_biz i' = ar_biz i"
  by (auto simp: answer_status_def answer_unmodified_def bind_outcome_Done_iff Let_def
      split: if_splits option.splits dest!: answer_biz)

lemma fetch_rest_biz: "fetch_rest env i = Done i' \<Longrightarrow> ar_biz i' = ar_biz i"
  by (auto simp: fetch_rest_def Let_def split: if_splits option.splits prod.splits)

lemma resp_and_req_mods_biz:
  assumes "ae_business env = None" and "resp_and_req_mods env n p i = Some (Done i')"
  shows "ar_biz i' = ar_biz i"
  using assms(2)
proof (induction n arbitrary: p i)
  case (Suc n)
  from Suc.prems obtain refused i1 where b: "before_service env p i = Done (refused, i1)"
    by (cases "before_service env p i") auto
  note b1 = before_service_biz [OF assms(1) b]
  then obtain res i2 where s: "ask_service env p i1 = Done (res, i2)"
    using Suc.prems b by (cases "ask_service env p i1") auto
  consider "i' = i2" | i3 where "fetch_rest env i2 = Done i3" "resp_and_req_mods env n False i3 = Some (Done i')"
    | "answer_status env res i2 = Done i'"
    using Suc.prems b s b1 by (auto split: if_splits outcome.splits)
  then show ?case
    using Suc.IH fetch_rest_biz answer_status_biz ask_service_biz [OF s] b1 by cases auto
qed simp

lemma load_body_biz: "load_body env i = Done i' \<Longrightarrow> ar_biz i' = ar_biz i"
proof -
  have "load_request env i = Done i' \<Longrightarrow> ar_biz i' = ar_biz i"
    by (cases "lib_new_request (ae_http env) (rq_method (the (ir_request (ar_req i))))
                 (lib_url_string (ae_http env) (rq_url (the (ir_request (ar_req i)))))")
      (auto simp: load_request_def Let_def bind_outcome_Done_iff split: option.splits)
  moreover have "load_response env i = Done i' \<Longrightarrow> ar_biz i' = ar_biz i"
    by (auto simp: load_response_def bind_outcome_Done_iff split: option.splits)
  ultimately show "load_body env i = Done i' \<Longrightarrow> ar_biz i' = ar_biz i"
    by (auto simp: load_body_def split: if_splits)
qed

lemma request_processing_biz:
  assumes "ae_business env = None" and "request_processing env n i = Some (Done i')"
  shows "ar_biz i' = ar_biz i"
proof (cases "ar_method i = ''OPTIONS''")
  case True
  with assms(2) show ?thesis
    by (auto simp: request_processing_def options_mode_def Let_def bind_outcome_Done_iff split: if_splits dest!: answer_biz)
next
  case False
  with assms(2) obtain i1 where l: "bind_outcome (load_body env i) host_header = Done i1"
    "resp_and_req_mods env n (is_partial i1) i1 = Some (Done i')"
    by (cases "bind_outcome (load_body env i) host_header") (auto simp: request_processing_def)
  from l(1) load_body_biz have "ar_biz i1 = ar_biz i"
    by (fastforce simp: host_header_def bind_outcome_Done_iff split: if_splits option.splits)
  with resp_and_req_mods_biz [OF assms(1) l(2)] show ?thesis by simp
qed

lemma to_icapeg_serve_biz:
  assumes "ae_business env = None" and "to_icapeg_serve env g biz w req = Some (Done (res, i))"
  shows "ar_biz i = biz"
proof -
  obtain r i1 where r: "request_initialization env (new_api_request env g biz w req) = Done (r, i1)"
    using assms(2) by (auto simp: to_icapeg_serve_def split: outcome.splits)
  have b: "ar_biz i1 = biz"
    using request_initialization_biz [OF r] by (simp add: new_api_request_def)
  show ?thesis
    using assms(2) r b request_processing_biz [OF assms(1)]
    by (cases r) (auto simp: to_icapeg_serve_def bind_outcome_Done_iff)
qed

section \<open>Properties\<close>

lemma start_server_Started:
  "start_server load s setup e0 = Started sv \<longleftrightarrow>
    (\<exists>cfg. config_init (s\<lparr>st_env := getenv (snd (load_env_files load env_files e0))\<rparr>) = Started cfg \<and>
      (let e = snd (load_env_files load env_files e0);
           res = init_with_ldap (setup\<lparr>se_denylist := getenv e ''CANDIDATE_DENYLIST''\<rparr>) (business_config_of e) (False, None)
       in sv = \<lparr>ig_loaded = fst (load_env_files load env_files e0), ig_env = e, ig_config = cfg,
                ig_business_error = fst res, ig_business = snd (snd res), ig_address = '':'' @ itoa_int (ac_port cfg)\<rparr>))"
  by (auto simp: start_server_def and_then_Started_iff split_beta Let_def)

lemma init_with_ldap_none:
  "snd (snd (init_with_ldap setup cfg (False, None))) = None \<longleftrightarrow>
     bc_database_url cfg = [] \<or> se_open_db setup (bc_database_url cfg) \<noteq> None \<or> se_ping_db setup \<noteq> None"
  by (auto simp: init_with_ldap_def init_database_def split: option.splits)

lemma started_business:
  assumes "start_server load s setup e0 = Started sv"
  shows "ig_business sv = None \<longleftrightarrow>
    (let url = getenv (ig_env sv) ''DATABASE_URL''
     in url = [] \<or> se_open_db setup url \<noteq> None \<or> se_ping_db setup \<noteq> None)"
proof -
  let ?e = "snd (load_env_files load env_files e0)"
  from assms have e: "ig_env sv = ?e" and b: "ig_business sv =
      snd (snd (init_with_ldap (setup\<lparr>se_denylist := getenv ?e ''CANDIDATE_DENYLIST''\<rparr>) (business_config_of ?e) (False, None)))"
    by (auto simp: start_server_Started Let_def)
  show ?thesis unfolding b init_with_ldap_none by (simp add: business_config_of_def e Let_def)
qed

text \<open>C10: The server starts whenever its configuration is accepted, whatever becomes of the business logic:
  without \<open>DATABASE_URL\<close>, or when the database cannot be opened or reached, it runs without any, and then no
  request is checked or recorded: its answer leaves the state of the business logic as it was.\<close>

theorem business_failure_fails_open:
  assumes "start_server load s setup e0 = Started sv"
  shows "(ig_business sv = None \<longleftrightarrow>
       (let url = getenv (ig_env sv) ''DATABASE_URL''
        in url = [] \<or> se_open_db setup url \<noteq> None \<or> se_ping_db setup \<noteq> None)) \<and>
    (\<forall>setup'. \<exists>sv'. start_server load s setup' e0 = Started sv' \<and> ig_config sv' = ig_config sv) \<and>
    (ig_business sv = None \<longrightarrow>
       (\<forall>env g biz w req res i. to_icapeg_serve (running_env sv env) g biz w req = Some (Done (res, i)) \<longrightarrow> ar_biz i = biz))"
proof (intro conjI)
  let ?e = "snd (load_env_files load env_files e0)"
  from assms obtain cfg where cfg: "config_init (s\<lparr>st_env := getenv ?e\<rparr>) = Started cfg" "ig_config sv = cfg"
    by (auto simp: start_server_Started Let_def)
  show "ig_business sv = None \<longleftrightarrow> (let url = getenv (ig_env sv) ''DATABASE_URL''
      in url = [] \<or> se_open_db setup url \<noteq> None \<or> se_ping_db setup \<noteq> None)"
    by (rule started_business [OF assms])
  show "\<forall>setup'. \<exists>sv'. start_server load s setup' e0 = Started sv' \<and> ig_config sv' = ig_config sv"
    using cfg by (simp add: start_server_Started Let_def)
  show "ig_business sv = None \<longrightarrow>
     (\<forall>env g biz w req res i. to_icapeg_serve (running_env sv env) g biz w req = Some (Done (res, i)) \<longrightarrow> ar_biz i = biz)"
  proof (intro impI allI)
    fix env g biz w req res i
    assume "ig_business sv = None" and r: "to_icapeg_serve (running_env sv env) g biz w req = Some (Done (res, i))"
    then have "ae_business (running_env sv env) = None" by (simp add: running_env_def)
    from to_icapeg_serve_biz [OF this r] show "ar_biz i = biz" .
  qed
qed

text \<open>C13: The start with environment files is, in whatever it ends, the start of a process in whose environment
  each variable has the value the process has for it, or else the first of \<open>.env\<close>, \<open>../.env\<close> and
  \<open>icapeg/.env\<close> that sets it: settings, denylist and business logic all read these values. A comment has it that the
  last file wins.\<close>

theorem env_files_fill_gaps:
  assumes "adds_variables files load"
  shows "start_server load s setup e0 =
    and_then (start_server (\<lambda>p e. None) s setup (layered [Some e0, files ''.env'', files ''../.env'', files ''icapeg/.env'']))
      (\<lambda>sv. Started (sv\<lparr>ig_loaded := filter (\<lambda>p. files p \<noteq> None) [''.env'', ''../.env'', ''icapeg/.env'']\<rparr>))"
proof -
  let ?e = "layered [Some e0, files ''.env'', files ''../.env'', files ''icapeg/.env'']"
  have "load_env_files load env_files e0 = (filter (\<lambda>p. files p \<noteq> None) [''.env'', ''../.env'', ''icapeg/.env''], ?e)"
    unfolding load_env_files_layers [OF assms] by (simp add: env_files_def)
  moreover have "load_env_files (\<lambda>p e. None) ps e = ([], e)" for ps e by (induction ps) simp_all
  ultimately show ?thesis
    by (cases "config_init (s\<lparr>st_env := getenv ?e\<rparr>)") (simp_all add: start_server_def split: prod.split)
qed

text \<open>The warning that the database URL is empty although the handler exists is reached by a URL of blanks
  alone.\<close>

lemma database_url_warning:
  assumes "start_server load s setup e0 = Started sv"
    and "DatabaseUrlEmpty \<in> set (log_recording_pipeline_env (ig_env sv) (ig_business sv) (getenv (ig_env sv) ''DATABASE_URL'') queue)"
  shows "getenv (ig_env sv) ''DATABASE_URL'' \<noteq> [] \<and> trim_space (getenv (ig_env sv) ''DATABASE_URL'') = []"
  using assms(2) started_business [OF assms(1)]
  by (auto simp: log_recording_pipeline_env_def Let_def split: if_splits)

section \<open>Starting on samples\<close>

definition sample_setup :: setup_env where
  "sample_setup = \<lparr>se_open_db = \<lambda>u. None, se_ping_db = Some (ErrText ''refused''), se_rows = Inr [],
     se_session = \<lambda>r k s. None, se_denylist = []\<rparr>"

text \<open>Two files set the same variable to their own names.\<close>

definition sample_files :: "string \<Rightarrow> environ option" where
  "sample_files p = (if p = ''.env'' then None else Some [''DATABASE_URL'' \<mapsto> p])"

definition sample_load :: "string \<Rightarrow> environ \<Rightarrow> environ option" where
  "sample_load p e = map_option (\<lambda>f. f ++ e) (sample_files p)"

definition sample_environ :: environ where
  "sample_environ = [''SERVICES'' \<mapsto> env_array [''scan'']]"

lemma sample_starts_server:
  "(case start_server sample_load (sample_settings ''clamav'') sample_setup sample_environ of
      Started sv \<Rightarrow> ac_services (ig_config sv) = [''scan''] \<and> ig_address sv = '':0'' \<and> ig_business sv = None
    | _ \<Rightarrow> False)"
  by code_simp

lemma business_failure_fails_open_witness:
  "\<exists>sv. start_server sample_load (sample_settings ''clamav'') sample_setup sample_environ = Started sv \<and>
     ig_business sv = None \<and> getenv (ig_env sv) ''DATABASE_URL'' = ''../.env'' \<and>
     (\<forall>env g biz w req res i. to_icapeg_serve (running_env sv env) g biz w req = Some (Done (res, i)) \<longrightarrow> ar_biz i = biz)"
proof -
  obtain sv where r: "start_server sample_load (sample_settings ''clamav'') sample_setup sample_environ = Started sv"
    "ig_business sv = None"
    using sample_starts_server by (auto split: startup.splits)
  have "adds_variables sample_files sample_load" by (simp add: adds_variables_def sample_load_def)
  with r(1) have "getenv (ig_env sv) ''DATABASE_URL'' = ''../.env''"
    by (auto simp: start_server_Started Let_def load_env_files_layers env_files_def sample_files_def sample_environ_def getenv_def
        simp del: load_env_files.simps)
  with business_failure_fails_open [OF r(1)] r show ?thesis by blast
qed

lemma env_files_fill_gaps_witness:
  "\<exists>sv. start_server sample_load (sample_settings ''clamav'') sample_setup sample_environ = Started sv \<and>
     getenv (ig_env sv) ''DATABASE_URL'' = ''../.env'' \<and> ig_loaded sv = [''../.env'', ''icapeg/.env'']"
proof -
  let ?e = "layered [Some sample_environ, sample_files ''.env'', sample_files ''../.env'', sample_files ''icapeg/.env'']"
  obtain sv where r: "start_server sample_load (sample_settings ''clamav'') sample_setup sample_environ = Started sv"
    using sample_starts_server by (auto split: startup.splits)
  have k: "adds_variables sample_files sample_load" by (simp add: adds_variables_def sample_load_def)
  from trans [OF r [symmetric] env_files_fill_gaps [OF k], THEN sym] obtain sv' where
    v: "start_server (\<lambda>p e. None) (sample_settings ''clamav'') sample_setup ?e = Started sv'"
    "sv = sv'\<lparr>ig_loaded := filter (\<lambda>p. sample_files p \<noteq> None) [''.env'', ''../.env'', ''icapeg/.env'']\<rparr>"
    unfolding and_then_Started_iff by blast
  have "load_env_files (\<lambda>p e. None) ps e = ([], e)" for ps e by (induction ps) simp_all
  with v(1) have "ig_env sv' = ?e" by (auto simp: start_server_Started Let_def)
  with v(2) r show ?thesis by (simp add: getenv_def sample_environ_def sample_files_def)
qed

end
