(* ===== verification/PlainSession.thy ===== *)
theory PlainSession
  imports Startup
begin

text \<open>
  Connections on which requests without a body are pipelined: what the running server answers, put next to a
  function of the configuration and the request. Parser, multiplexer, handler, response writer, connection loop
  and accept loop come together.
\<close>

section \<open>The answers\<close>

text \<open>An answer without an HTTP message, with the fields of \<open>h\<close>.\<close>

definition icap_reply :: "http_lib \<Rightarrow> nat \<Rightarrow> header \<Rightarrow> bytes" where
  "icap_reply lib code h =
     status_line code @ header_write (h @ [(''Encapsulated'', [''null-body=0'']), (''Date'', [lib_now lib])]) @ crlf"

definition options_fields :: "api_env \<Rightarrow> service_icap_info \<Rightarrow> header" where
  "options_fields env inst =
     [(''ISTag'', [istag_value (scl_svc (ae_scan env))]), (''Service'', [si_service_caption inst])] @
     (if ac_debugging_headers (ae_config env) then [(''X-ICAPeg-Shadow-Service'', [''false''])] else []) @
     [(''Methods'', [if si_resp_mode inst \<and> si_req_mode inst then ''RESPMOD, REQMOD''
                     else if si_resp_mode inst then ''RESPMOD'' else ''REQMOD'']), (''Allow'', [''204''])] @
     (if si_preview_enabled inst \<and> 0 \<le> fst (atoi (si_preview_bytes inst)) then [(''Preview'', [si_preview_bytes inst])] else []) @
     [(''Transfer-Preview'', [''*''])]"

text \<open>
  The answer to a request without a body: a path that is not clean is redirected, an unknown service is not
  found, a method that is not offered is refused, and \<open>OPTIONS\<close> describes the service. For the other
  requests (\<open>None\<close>) the handler needs the message that is missing.
\<close>

definition plain_reply :: "api_env \<Rightarrow> string \<Rightarrow> string \<Rightarrow> bytes option" where
  "plain_reply env path m =
     (let lib = ae_http env; cfg = ae_config env; name = drop 1 path in
      if clean_path path \<noteq> path then Some (icap_reply lib 301 [(''Location'', [clean_path path])])
      else if name \<notin> set (ac_services cfg) then Some (icap_reply lib 404 [])
      else if m \<notin> {''OPTIONS'', ''REQMOD'', ''RESPMOD'', ''options''} then Some (icap_reply lib 405 [])
      else (case map_of (ac_instances cfg) name of
              None \<Rightarrow> None
            | Some inst \<Rightarrow>
                if m = ''OPTIONS'' \<and> known_vendor (si_vendor inst) \<and> (si_req_mode inst \<or> si_resp_mode inst)
                then Some (icap_reply lib 200 (options_fields env inst))
                else if m = ''REQMOD'' \<and> \<not> si_req_mode inst \<or> m = ''RESPMOD'' \<and> \<not> si_resp_mode inst
                then Some (icap_reply lib 405 [])
                else None))"

definition request_reply :: "api_env \<Rightarrow> plain_request \<Rightarrow> bytes option" where
  "request_reply env q =
     (case q of (m, u, p, kvs) \<Rightarrow> plain_reply env (u_path (projr (lib_parse_request_uri (ae_http env) u))) m)"

section \<open>Writing an answer\<close>

lemma response_header_plain:
  assumes "''Encapsulated'' \<notin> fst ` set (rw_header w)" and "''Date'' \<notin> fst ` set (rw_header w)"
  shows "response_header lib NoMsg False w = rw_header w @ [(''Encapsulated'', [''null-body=0'']), (''Date'', [lib_now lib])]"
proof -
  have u: "k \<notin> fst ` set g \<Longrightarrow> AList.update k v g = g @ [(k, v)]" for k :: string and v :: "string list" and g
    by (induction g) auto
  show ?thesis
    using assms map_of_eq_None_iff [of "rw_header w @ [(''Encapsulated'', [''null-body=0''])]" "''Date''"]
    by (simp add: response_header_def hset_def option_keys encap_value_def Let_def u)
qed

lemma write_reply:
  assumes "''Encapsulated'' \<notin> fst ` set (rw_header w)" and "''Date'' \<notin> fst ` set (rw_header w)"
    and "\<not> rw_wrote_header w" and "\<not> rw_chunked w"
  shows "\<exists>w'. write_header lib code NoMsg False w = Done w' \<and> finish_request lib w' = Done w' \<and>
    c_in (rw_conn w') = c_in (rw_conn w) \<and> rw_out w' = rw_out w @ icap_reply lib code (rw_header w)"
  using assms(3,4) response_header_plain [OF assms(1,2), of lib]
  by (simp add: write_header_eq header_written_def msg_header_def icap_reply_def finish_request_def)

section \<open>The handler\<close>

text \<open>What initialisation and processing make of a request for a service that is there.\<close>

lemma prepare_options:
  assumes "map_of (ac_instances (ae_config env)) (ar_service i) = Some inst" and "known_vendor (si_vendor inst)"
    and "ar_method i = ''OPTIONS''"
    and "ar_globals i = fold (\<lambda>(name, inst). init_service_config (ae_read env (si_vendor inst)) (si_vendor inst) name)
           (ac_instances (ae_config env)) g"
    and "rw_header (ar_w i) = []"
  shows "\<exists>i'. prepare_service env i = Done (Proceed, i') \<and> ar_service i' = ar_service i \<and> ar_method i' = ''OPTIONS'' \<and>
    ar_w i' = (ar_w i)\<lparr>rw_header := [(''ISTag'', [istag_value (scl_svc (ae_scan env))]), (''Service'', [si_service_caption inst])] @
     (if ac_debugging_headers (ae_config env) then [(''X-ICAPeg-Shadow-Service'', [''false''])] else [])\<rparr>"
proof -
  have "vendor_ready (si_vendor inst) (ar_globals i)"
    unfolding assms(4) by (rule services_ready) (rule map_of_SomeD [OF assms(1)])
  from get_service_ready [OF assms(2) this, of "ae_scan env" "call_of env (i\<lparr>ar_vendor := si_vendor inst\<rparr>)"] obtain proc where
    "required_service env (i\<lparr>ar_vendor := si_vendor inst\<rparr>) = Done proc"
    by (auto simp: required_service_def)
  with assms(1,3,5) show ?thesis
    by (simp add: prepare_service_def instance_of_def put_header_def hput_def)
qed

lemma options_mode_reply:
  assumes "map_of (ac_instances (ae_config env)) (ar_service i) = Some inst" and "si_req_mode inst \<or> si_resp_mode inst"
    and "rw_header (ar_w i) = [(''ISTag'', [istag_value (scl_svc (ae_scan env))]), (''Service'', [si_service_caption inst])] @
     (if ac_debugging_headers (ae_config env) then [(''X-ICAPeg-Shadow-Service'', [''false''])] else [])"
  shows "\<exists>i'. options_mode env i = answer env 200 NoMsg False i' \<and> ar_w i' = (ar_w i)\<lparr>rw_header := options_fields env inst\<rparr>"
  using assms
  by (auto simp: options_mode_def instance_of_def enabled_methods_def options_fields_def set_header_def rw_set_header_def
      hset_def option_keys Let_def)

definition replies :: "http_lib \<Rightarrow> resp_writer \<Rightarrow> bytes \<Rightarrow> resp_writer outcome \<Rightarrow> bool" where
  "replies lib w bs m \<longleftrightarrow> (\<exists>w'. bind_outcome m (finish_request lib) = Done w' \<and>
     c_in (rw_conn w') = c_in (rw_conn w) \<and> rw_out w' = rw_out w @ bs)"

lemma write_header_replies:
  assumes "''Encapsulated'' \<notin> fst ` set h" and "''Date'' \<notin> fst ` set h" and "fresh_writer w"
  shows "replies lib w (icap_reply lib code h) (write_header lib code NoMsg False (w\<lparr>rw_header := h\<rparr>))"
proof -
  have "\<not> rw_wrote_header (w\<lparr>rw_header := h\<rparr>)" "\<not> rw_chunked (w\<lparr>rw_header := h\<rparr>)"
    "c_in (rw_conn (w\<lparr>rw_header := h\<rparr>)) = c_in (rw_conn w)" "rw_out (w\<lparr>rw_header := h\<rparr>) = rw_out w"
    using assms(3) by (simp_all add: fresh_writer_def rw_out_def)
  with write_reply [of "w\<lparr>rw_header := h\<rparr>" lib code] assms(1,2) show ?thesis
    by (auto simp: replies_def)
qed

lemma options_fields_plain: "''Encapsulated'' \<notin> fst ` set (options_fields env inst)" "''Date'' \<notin> fst ` set (options_fields env inst)"
  by (auto simp: options_fields_def)

lemma api_handler_eq:
  "api_handler env st w req =
     (case map_option (\<lambda>m. bind_outcome m (\<lambda>(res, i). Done (ar_w i))) (to_icapeg_serve env (fst (st w req)) (snd (st w req)) w req) of
        None \<Rightarrow> Panic ''not reached'' | Some m \<Rightarrow> m)"
  by (simp add: api_handler_def split: prod.splits option.splits)

lemma handler_refuses:
  assumes "request_initialization env (new_api_request env (fst (st w req)) (snd (st w req)) w req) =
      bind_outcome (answer env code NoMsg False i) (\<lambda>i2. Done (Refused, i2))" and "ar_w i = w"
  shows "api_handler env st w req = write_header (ae_http env) code NoMsg False w"
  using assms
  by (cases "write_header (ae_http env) code NoMsg False w") (simp_all add: api_handler_eq to_icapeg_serve_def answer_def)

text \<open>A method that is not offered, and \<open>OPTIONS\<close>.\<close>

lemma not_allowed_405:
  assumes "drop 1 (u_path (ir_url req)) \<in> set (ac_services (ae_config env))" and "u_path (ir_url req) \<noteq> []"
    and "ir_method req \<noteq> ''options''"
    and "is_method_allowed env ((new_api_request env (fst (st w req)) (snd (st w req)) w req)
           \<lparr>ar_service := drop 1 (u_path (ir_url req)), ar_method := ir_method req\<rparr>) = Done False"
  shows "api_handler env st w req = write_header (ae_http env) 405 NoMsg False w"
proof -
  let ?i = "new_api_request env (fst (st w req)) (snd (st w req)) w req"
  have n: "ar_req ?i = req" "ar_w ?i = w" by (simp_all add: new_api_request_def)
  show ?thesis
    using assms n
    by (intro handler_refuses [where i = "?i\<lparr>ar_service := drop 1 (u_path (ir_url req)), ar_method := ir_method req\<rparr>"])
      (simp_all add: request_initialization_def Let_def)
qed

lemma options_200:
  assumes "drop 1 (u_path (ir_url req)) \<in> set (ac_services (ae_config env))" and "u_path (ir_url req) \<noteq> []"
    and "ir_method req = ''OPTIONS''" and "map_of (ac_instances (ae_config env)) (drop 1 (u_path (ir_url req))) = Some inst"
    and "known_vendor (si_vendor inst)" and "si_req_mode inst \<or> si_resp_mode inst" and "rw_header w = []"
  shows "api_handler env st w req = write_header (ae_http env) 200 NoMsg False (w\<lparr>rw_header := options_fields env inst\<rparr>)"
proof -
  let ?i = "new_api_request env (fst (st w req)) (snd (st w req)) w req"
  let ?i2 = "?i\<lparr>ar_service := drop 1 (u_path (ir_url req)), ar_method := ir_method req\<rparr>"
  have n: "ar_req ?i = req" "ar_w ?i = w" by (simp_all add: new_api_request_def)
  from prepare_options [of env ?i2 inst] assms n obtain i' where
    p: "prepare_service env ?i2 = Done (Proceed, i')" "ar_service i' = drop 1 (u_path (ir_url req))" "ar_method i' = ''OPTIONS''"
    "ar_w i' = w\<lparr>rw_header := [(''ISTag'', [istag_value (scl_svc (ae_scan env))]), (''Service'', [si_service_caption inst])] @
     (if ac_debugging_headers (ae_config env) then [(''X-ICAPeg-Shadow-Service'', [''false''])] else [])\<rparr>"
    by (auto simp: new_api_request_def)
  have "request_initialization env ?i = Done (Proceed, i')"
    using assms(1-3) n p(1) by (simp add: request_initialization_def Let_def is_method_allowed_def)
  moreover from options_mode_reply [of env i' inst] assms(4,6) p obtain i'' where
    o: "options_mode env i' = answer env 200 NoMsg False i''" "ar_w i'' = w\<lparr>rw_header := options_fields env inst\<rparr>"
    by auto
  ultimately show ?thesis
    using p(3)
    by (cases "write_header (ae_http env) 200 NoMsg False (w\<lparr>rw_header := options_fields env inst\<rparr>)")
      (simp_all add: api_handler_eq to_icapeg_serve_def request_processing_def answer_def)
qed

lemma api_handler_replies:
  assumes "plain_reply env (u_path (ir_url req)) (ir_method req) = Some bs" and "fresh_writer w"
    and "clean_path (u_path (ir_url req)) = u_path (ir_url req)"
  shows "replies (ae_http env) w bs (api_handler env st w req)"
proof -
  let ?path = "u_path (ir_url req)" let ?name = "drop 1 ?path" let ?lib = "ae_http env"
  let ?i = "new_api_request env (fst (st w req)) (snd (st w req)) w req"
  let ?i2 = "?i\<lparr>ar_service := ?name, ar_method := ir_method req\<rparr>"
  have ne: "?path \<noteq> []" using assms(3) by (auto simp: clean_path_def)
  have n: "ar_req ?i = req" "ar_w ?i = w" by (simp_all add: new_api_request_def)
  have none: "replies ?lib w (icap_reply ?lib code []) (write_header ?lib code NoMsg False w)" for code
  proof -
    have "w\<lparr>rw_header := []\<rparr> = w" using assms(2) by (cases w) (simp add: fresh_writer_def)
    with write_header_replies [of "[]" w ?lib code] assms(2) show ?thesis by simp
  qed
  show ?thesis
  proof (cases "?name \<in> set (ac_services (ae_config env))")
    case False
    then have "api_handler env st w req = write_header ?lib 404 NoMsg False w"
      using ne n by (intro handler_refuses [where i = "?i\<lparr>ar_service := ?name\<rparr>"]) (simp_all add: request_initialization_def Let_def)
    with none [of 404] assms(1,3) False show ?thesis by (simp add: plain_reply_def)
  next
    case True
    note refused = not_allowed_405 [OF True ne]
    show ?thesis
    proof (cases "ir_method req \<in> {''OPTIONS'', ''REQMOD'', ''RESPMOD'', ''options''}")
      case False
      then have "is_method_allowed env ?i2 = Done False" by (simp add: is_method_allowed_def)
      with refused [of st w] False have "api_handler env st w req = write_header ?lib 405 NoMsg False w" by simp
      with none [of 405] assms(1,3) True False show ?thesis by (simp add: plain_reply_def)
    next
      case m: True
      with assms(1,3) True obtain inst where inst: "map_of (ac_instances (ae_config env)) ?name = Some inst"
        by (auto simp: plain_reply_def Let_def split: option.splits)
      show ?thesis
      proof (cases "ir_method req = ''OPTIONS''")
        case o: True
        with assms(1,3) True inst have "known_vendor (si_vendor inst)" "si_req_mode inst \<or> si_resp_mode inst"
          and bs: "bs = icap_reply ?lib 200 (options_fields env inst)"
          by (auto simp: plain_reply_def Let_def split: if_splits)
        from options_200 [OF True ne o inst this(1,2)] write_header_replies [OF options_fields_plain assms(2)] bs assms(2)
        show ?thesis by (simp add: fresh_writer_def)
      next
        case False
        with assms(1,3) True m inst have
          r: "ir_method req = ''REQMOD'' \<and> \<not> si_req_mode inst \<or> ir_method req = ''RESPMOD'' \<and> \<not> si_resp_mode inst"
          and bs: "bs = icap_reply ?lib 405 []"
          by (auto simp: plain_reply_def Let_def split: if_splits)
        from r inst have "is_method_allowed env ?i2 = Done False" by (auto simp: is_method_allowed_def instance_of_def)
        with refused [of st w] r have "api_handler env st w req = write_header ?lib 405 NoMsg False w" by auto
        with none [of 405] bs show ?thesis by simp
      qed
    qed
  qed
qed

section \<open>The multiplexer and the connection\<close>

lemma clean_path_slash: "clean_path p = p \<Longrightarrow> has_prefix p ''/''"
proof -
  assume c: "clean_path p = p"
  obtain ss slash where "clean_path p = canonical_path ss slash" using clean_path_form by blast
  with c show ?thesis by (auto simp: canonical_path_def has_prefix_def split: if_splits)
qed

lemma mux_to_handler:
  assumes "icapeg_mux env st = Done m" and "clean_path (u_path (ir_url req)) = u_path (ir_url req)"
  shows "mux_serve (ae_http env) m w req = api_handler env st w req"
proof -
  have m: "m = [(''/'', api_handler env st), ([], redirect (ae_http env) ''/'' 301)]"
    using assms(1) by (auto simp: icapeg_mux_def mux_handle_def)
  have "path_match ''/'' (u_path (ir_url req))" using clean_path_slash [OF assms(2)] by (simp add: path_match_iff)
  then have "match_handler m (u_path (ir_url req)) = Some (api_handler env st)"
    by (simp add: m match_handler_def match_step_def path_match_def [of "[]"])
  moreover have "match_handler m (u_host (ir_url req) @ u_path (ir_url req)) \<in> {None, Some (api_handler env st)}"
    by (simp add: m match_handler_def match_step_def path_match_def [of "[]"])
  ultimately show ?thesis
    using assms(2) by (auto simp: mux_serve_def Let_def split: option.splits)
qed

lemma mux_replies:
  assumes "icapeg_mux env st = Done m" and "plain_reply env (u_path (ir_url req)) (ir_method req) = Some bs" and "fresh_writer w"
  shows "replies (ae_http env) w bs (mux_serve (ae_http env) m w req)"
proof (cases "clean_path (u_path (ir_url req)) = u_path (ir_url req)")
  case True
  from api_handler_replies [OF assms(2,3) True] mux_to_handler [OF assms(1) True] show ?thesis by simp
next
  case False
  have "canonical_key ''Location'' = ''Location''" by code_simp
  then have "rw_set_header ''Location'' p w = w\<lparr>rw_header := [(''Location'', [p])]\<rparr>" for p
    using assms(3) by (simp add: rw_set_header_def hset_def fresh_writer_def)
  with False write_header_replies [of "[(''Location'', [clean_path (u_path (ir_url req))])]" w "ae_http env" 301] assms(2,3)
  show ?thesis by (simp add: mux_serve_def plain_reply_def Let_def)
qed

lemma plain_parsed_fields:
  "request_reply env q = plain_reply env (u_path (ir_url (plain_parsed (ae_http env) addr q))) (ir_method (plain_parsed (ae_http env) addr q))"
  by (cases q) (simp add: request_reply_def plain_parsed_def new_icap_request_def)

lemma plain_connection:
  assumes "icapeg_mux env st = Done m" and "list_all (plain_ok (ae_http env)) qs" and "map (request_reply env) qs = map Some bss"
    and "concat (segs rwc) = concat (map plain_wire qs)" and "net_err rwc = EOF" and "length qs < fuel"
  shows "\<exists>c. serve (ae_http env) (mux_serve (ae_http env) m) addr fuel (new_conn rwc) =
      Some (map (plain_parsed (ae_http env) addr) qs, ConnClosed, c) \<and> c_out c = concat bss"
proof -
  let ?P = "\<lambda>qs out. \<exists>rs. map (request_reply env) qs = map Some rs \<and> out @ concat rs = concat bss"
  have b: "conn.brep (c_in (new_conn rwc)) (concat (map plain_wire qs)) EOF"
    using assms(4,5) by (simp add: conn_brep_iff new_conn_def conn_pending_def)
  have p: "?P qs (c_out (new_conn rwc))" using assms(3) by (auto simp: new_conn_def)
  have "case bind_outcome (mux_serve (ae_http env) m w (plain_parsed (ae_http env) addr q)) (finish_request (ae_http env)) of
      Panic s \<Rightarrow> False | Done w' \<Rightarrow> c_in (rw_conn w') = c_in (rw_conn w) \<and> ?P qs (rw_out w')"
    if w: "fresh_writer w" and i: "?P (q # qs) (rw_out w)" for q qs w
  proof -
    from i obtain r rs where r: "request_reply env q = Some r" "map (request_reply env) qs = map Some rs"
      "rw_out w @ r @ concat rs = concat bss" by (auto simp: Cons_eq_map_conv)
    from mux_replies [OF assms(1) r(1) [unfolded plain_parsed_fields [of env q addr]] w] obtain w' where
      "bind_outcome (mux_serve (ae_http env) m w (plain_parsed (ae_http env) addr q)) (finish_request (ae_http env)) = Done w'"
      "c_in (rw_conn w') = c_in (rw_conn w)" "rw_out w' = rw_out w @ r" by (auto simp: replies_def)
    with r(2,3) show ?thesis by auto
  qed
  from serve_plain [OF b assms(2,6), where P = ?P and Q = "\<lambda>q. False" and addr = addr and handler = "mux_serve (ae_http env) m", OF p this]
  show ?thesis by auto
qed

section \<open>Properties\<close>

text \<open>C11: The running server, end to end, on connections that carry requests without a body: every connection gets,
  in the order of its requests and whatever the network did to them, exactly the answers the configuration gives to them,
  and is closed at its end; \<open>OPTIONS\<close> announces the modes of the service, 204 and the preview. Neither the state of
  the services nor that of the business logic matters.\<close>

theorem plain_sessions_answered:
  assumes "listen (listen_address (ig_address sv)) = None"
    and "\<forall>(addr, rwc, qs, bss) \<in> set conns. list_all (plain_ok (ae_http env)) qs \<and>
           map (request_reply (running_env sv env)) qs = map Some bss \<and> concat (segs rwc) = concat (map plain_wire qs) \<and>
           net_err rwc = EOF \<and> length qs < fuel"
  shows "\<exists>served. listen_and_serve listen sv env st fuel (map (\<lambda>(addr, rwc, qs, bss). Accepted addr rwc) conns) =
      Started (Done (served, None)) \<and>
    list_all2 (\<lambda>(addr, rwc, qs, bss) s. \<exists>c. s = Some (map (plain_parsed (ae_http env) addr) qs, ConnClosed, c) \<and> c_out c = concat bss)
      conns served"
proof -
  let ?env = "running_env sv env" let ?lib = "ae_http env"
  have lib: "ae_http ?env = ?lib" by (simp add: running_env_def)
  obtain m where m: "icapeg_mux ?env st = Done m" by (simp add: icapeg_mux_def mux_handle_def)
  let ?evs = "\<lambda>conns. map (\<lambda>(addr, rwc, qs, bss). Accepted addr rwc) conns"
  have "\<exists>served. accept_loop ?lib (mux_serve ?lib m) fuel (?evs conns) = (served, None) \<and>
    list_all2 (\<lambda>(addr, rwc, qs, bss) s. \<exists>c. s = Some (map (plain_parsed ?lib addr) qs, ConnClosed, c) \<and> c_out c = concat bss)
      conns served"
    using assms(2)
  proof (induction conns)
    case (Cons x conns)
    obtain addr rwc qs bss where x: "x = (addr, rwc, qs, bss)" by (cases x)
    from Cons plain_connection [OF m, of qs bss rwc fuel addr] lib show ?case by (auto simp: x)
  qed simp
  with assms(1) m lib show ?thesis by (auto simp: listen_and_serve_def server_serve_def)
qed

definition sample_icapeg :: icapeg where
  "sample_icapeg = \<lparr>ig_loaded = [], ig_env = Map.empty, ig_config = sample_app sample_instance, ig_business_error = None,
     ig_business = None, ig_address = '':1344''\<rparr>"

definition sample_session :: "plain_request list" where
  "sample_session = [(''OPTIONS'', ''/scan'', ''ICAP/1.0'', []), (''OPTIONS'', ''/nope'', ''ICAP/1.0'', []),
     (''OPTIONS'', ''scan'', ''ICAP/1.0'', []), (''FILEMOD'', ''/scan'', ''ICAP/1.0'', [])]"

lemma plain_sessions_answered_witness:
  "\<exists>c. listen_and_serve (\<lambda>_. None) sample_icapeg (sample_api_env sample_instance None) (\<lambda>w r. (no_services, sample_business_state)) 5
      [Accepted ''10.0.0.1'' \<lparr>segs = map (\<lambda>x. [x]) (concat (map plain_wire sample_session)), net_err = EOF\<rparr>] =
      Started (Done ([Some (map (plain_parsed sample_lib ''10.0.0.1'') sample_session, ConnClosed, c)], None)) \<and>
    c_out c = icap_reply sample_lib 200 (options_fields (sample_api_env sample_instance None) sample_instance) @
      icap_reply sample_lib 404 [] @ icap_reply sample_lib 301 [(''Location'', [''/scan''])] @ icap_reply sample_lib 405 []"
proof -
  let ?env = "sample_api_env sample_instance None"
  let ?rwc = "\<lparr>segs = map (\<lambda>x. [x]) (concat (map plain_wire sample_session)), net_err = EOF\<rparr>"
  let ?bss = "[icap_reply sample_lib 200 (options_fields ?env sample_instance), icap_reply sample_lib 404 [],
      icap_reply sample_lib 301 [(''Location'', [''/scan''])], icap_reply sample_lib 405 []]"
  have c: "clean_path ''/scan'' = ''/scan''" "clean_path ''/nope'' = ''/nope''" "clean_path ''scan'' = ''/scan''" by code_simp+
  have env: "running_env sample_icapeg ?env = ?env"
    by (simp add: running_env_def sample_icapeg_def sample_api_env_def)
  have ok: "list_all (plain_ok sample_lib) sample_session"
    by (simp add: sample_session_def plain_ok_def good_head_def sample_lib_def mime_map_def)
  have v: "known_vendor (si_vendor sample_instance)" "si_req_mode sample_instance" by code_simp+
  have r: "map (request_reply ?env) sample_session = map Some ?bss"
    using v by (simp add: sample_session_def request_reply_def plain_reply_def sample_api_env_def sample_app_def
        sample_lib_def [unfolded zero_url_def] c zero_url_def Let_def)
  have seg: "concat (segs ?rwc) = concat (map plain_wire sample_session)" by simp
  have l: "ae_http ?env = sample_lib" by (simp add: sample_api_env_def)
  have len: "length sample_session < 5" by (simp add: sample_session_def)
  have "\<exists>served. listen_and_serve (\<lambda>_. None) sample_icapeg ?env (\<lambda>w r. (no_services, sample_business_state)) 5
        (map (\<lambda>(addr, rwc, qs, bss). Accepted addr rwc) [(''10.0.0.1'', ?rwc, sample_session, ?bss)]) = Started (Done (served, None)) \<and>
      list_all2 (\<lambda>(addr, rwc, qs, bss) s. \<exists>c. s = Some (map (plain_parsed (ae_http ?env) addr) qs, ConnClosed, c) \<and> c_out c = concat bss)
        [(''10.0.0.1'', ?rwc, sample_session, ?bss)] served"
    by (rule plain_sessions_answered) (use ok r seg len in \<open>simp_all only: env l list.set ball_simps prod.case simp_thms net.simps\<close>)
  then show ?thesis by (auto simp: list_all2_Cons1 l)
qed

end
