(* ===== verification/Bursts.thy ===== *)
theory Bursts
  imports IcapServer
begin

text \<open>
  Connections on which requests have bodies. The body of a request is read through a buffer of its own on top of
  the buffer of the connection, and that buffer is dropped with the body: what it holds beyond the last chunk is
  lost. Here a peer sends in bursts, each the content of one read of the socket, and everything behind the body of
  a burst is what is lost.
\<close>

section \<open>What is in the buffer\<close>

text \<open>A source that has nothing left, and so never changes: with it the results for buffered sources speak of
  what the buffer holds, and show that the layer below is left alone.\<close>

interpretation still: source rd "\<lambda>s v e. v = [] \<and> s = s0" for rd s0
  by unfold_locales simp

interpretation still_net: net_source "\<lambda>c v e. v = [] \<and> c = c0" for c0
  by unfold_locales simp_all

lemma still_brep_iff:
  "source.brep (\<lambda>s v e. v = [] \<and> s = s0) b v e \<longleftrightarrow> length (rbuf b) \<le> buf_size \<and> v = rbuf b \<and> under b = s0"
  by (auto simp: still.brep_def)

text \<open>A first read of the socket gets the burst.\<close>

lemma first_read:
  assumes "s \<noteq> []" and "length s \<le> buf_size"
  shows "read_icap_request lib \<lparr>rbuf = [], under = \<lparr>segs = s # ss, net_err = e\<rparr>\<rparr> =
    read_icap_request lib \<lparr>rbuf = s, under = \<lparr>segs = ss, net_err = e\<rparr>\<rparr>"
proof -
  let ?b = "\<lparr>rbuf = [], under = \<lparr>segs = s # ss, net_err = e\<rparr>\<rparr>" and ?b' = "\<lparr>rbuf = s, under = \<lparr>segs = ss, net_err = e\<rparr>\<rparr>"
  have "read_slice net_read LF ?b = read_slice net_read LF ?b'"
    using assms by (subst read_slice.simps) (simp add: net_read_def buf_size_def)
  then have "buf_read_line net_read ?b = buf_read_line net_read ?b'" by (simp only: buf_read_line_def)
  moreover have "in_fuel ?b = in_fuel ?b'" by (simp add: in_fuel_def conn_pending_def)
  ultimately have "tp_read_line net_read (in_fuel ?b) [] ?b = tp_read_line net_read (in_fuel ?b') [] ?b'"
    by (simp add: in_fuel_def)
  then show ?thesis by (simp only: read_icap_request_def)
qed

text \<open>The buffer of a body takes all that the buffer of the connection holds.\<close>

lemma first_chunk:
  assumes "v \<noteq> []" and "length v \<le> buf_size"
  shows "chunked_read (bufio_read rd) k (new_chunked_reader \<lparr>rbuf = v, under = n\<rparr>) =
    chunked_read (bufio_read rd) k \<lparr>cr_r = \<lparr>rbuf = v, under = \<lparr>rbuf = [], under = n\<rparr>\<rparr>, cr_n = 0, cr_err = None\<rparr>"
proof -
  have "read_slice (bufio_read rd) LF \<lparr>rbuf = [], under = \<lparr>rbuf = v, under = n\<rparr>\<rparr> =
      read_slice (bufio_read rd) LF \<lparr>rbuf = v, under = \<lparr>rbuf = [], under = n\<rparr>\<rparr>"
    using assms by (subst read_slice.simps) (simp add: bufio_read_def buf_size_def)
  then have "begin_chunk (bufio_read rd) (new_chunked_reader \<lparr>rbuf = v, under = n\<rparr>) = begin_chunk (bufio_read rd)
      \<lparr>cr_r = \<lparr>rbuf = v, under = \<lparr>rbuf = [], under = n\<rparr>\<rparr>, cr_n = 0, cr_err = None\<rparr>"
    by (simp add: begin_chunk_def read_line_def new_chunked_reader_def split: prod.splits sum.splits option.splits)
  then show ?thesis by (simp add: chunked_read_def new_chunked_reader_def)
qed

lemma read_held_body:
  assumes "c_in c = \<lparr>rbuf = written_body ds @ extra, under = n\<rparr>" and "length (written_body ds @ extra) \<le> buf_size"
    and "\<forall>d \<in> set ds. length d < 2 ^ 64" and "\<forall>l. 0 < lib_room lib l"
  shows "\<exists>left. read_body lib (ConnBody [] 0 None) c = Done (concat ds, None, left, c\<lparr>c_in := \<lparr>rbuf = [], under = n\<rparr>\<rparr>)"
proof -
  let ?v = "written_body ds @ extra" let ?ds = "filter (\<lambda>d. d \<noteq> []) ds"
  let ?s = "\<lparr>cr_r = \<lparr>rbuf = ?v, under = \<lparr>rbuf = [], under = n\<rparr>\<rparr>, cr_n = 0, cr_err = None\<rparr>"
  let ?fuel = "Suc (length (conn_pending (c_in c)))"
  have w: "?v = wire_body ?ds (''0'' @ crlf) extra" by (rule written_body_wire)
  have ok: "ok_blocks ?ds" using assms(3) by (auto simp: ok_blocks_def)
  have ne: "?v \<noteq> []" by (simp add: w wire_body_def)
  have b: "source.brep (\<lambda>s v e. v = [] \<and> s = \<lparr>rbuf = [], under = n\<rparr>) (cr_r ?s) (wire_body ?ds (''0'' @ crlf) extra) EOF"
    unfolding w [symmetric] using assms(2) by (simp add: still_brep_iff)
  have "length (concat xs) \<le> length (concat (map chunk_encode xs))" for xs
    by (induction xs) (auto simp: chunk_encode_def)
  from le_trans [OF this [of ?ds]] have "length (concat ?ds) \<le> length (wire_body ?ds (''0'' @ crlf) extra)"
    by (simp add: wire_body_def)
  then have f: "length (concat ?ds) < ?fuel" using assms(1) by (simp add: conn_pending_def w)
  from still.read_all_between [OF _ _ b ok still.ends_zero _ f, where rd = "bufio_read net_read" and room = "lib_room lib"] assms(4)
  obtain c' where c': "read_all conn_chunked_read (lib_room lib) ?fuel [] ?s = Some (concat ds, None, c')"
    "source.after_rep (\<lambda>s v e. v = [] \<and> s = \<lparr>rbuf = [], under = n\<rparr>) EOF extra c' []"
    by (auto simp: concat_filter_Nil)
  then have u: "under (cr_r c') = \<lparr>rbuf = [], under = n\<rparr>" by (simp add: still.after_rep_def still_brep_iff)
  have "read_all conn_chunked_read (lib_room lib) ?fuel [] (new_chunked_reader (c_in c)) =
      read_all conn_chunked_read (lib_room lib) ?fuel [] ?s"
    using first_chunk [OF ne assms(2), of net_read] assms(1) by simp
  with c'(1) u show ?thesis by (simp add: read_body_def new_chunked_reader_def)
qed

section \<open>Bursts\<close>

text \<open>A REQMOD request with its body, and whatever the peer sends behind it at once: the blank line at least, or
  the requests that should follow.\<close>

record burst =
  bu_uri :: string
  bu_proto :: string
  bu_fields :: "(string \<times> string) list"
  bu_head :: bytes
  bu_body :: "bytes list"
  bu_behind :: bytes

definition burst_wire :: "burst \<Rightarrow> bytes" where
  "burst_wire q = icap_wire ''REQMOD'' (bu_uri q) (bu_proto q) (bu_fields q)
     (bu_head q @ written_body (bu_body q) @ bu_behind q)"

definition burst_ok :: "http_lib \<Rightarrow> burst \<Rightarrow> bool" where
  "burst_ok lib q \<longleftrightarrow> good_head ''REQMOD'' (bu_uri q) (bu_proto q) (bu_fields q) \<and>
     \<not> isl (lib_parse_request_uri lib (bu_uri q)) \<and>
     hget (mime_map [] (bu_fields q)) ''Encapsulated'' = encap_text [(''req-hdr'', 0), (''req-body'', length (bu_head q))] \<and>
     hget (mime_map [] (bu_fields q)) ''Preview'' = [] \<and> bu_head q \<noteq> [] \<and>
     \<not> isl (lib_read_request lib (bu_head q)) \<and> length (burst_wire q) \<le> buf_size"

definition burst_parsed :: "http_lib \<Rightarrow> string \<Rightarrow> burst \<Rightarrow> icap_request" where
  "burst_parsed lib addr q = (reqmod_head (bu_uri q) (projr (lib_parse_request_uri lib (bu_uri q))) (bu_proto q) (bu_fields q))
     \<lparr>ir_request := Some ((projr (lib_read_request lib (bu_head q)))\<lparr>rq_body := ConnBody [] 0 None\<rparr>), ir_remote := addr\<rparr>"

lemma burst_body_small:
  assumes "burst_ok lib q"
  shows "length (written_body (bu_body q) @ bu_behind q) \<le> buf_size" and "\<forall>d \<in> set (bu_body q). length d < 2 ^ 64"
proof -
  let ?ds = "filter (\<lambda>d. d \<noteq> []) (bu_body q)"
  show l: "length (written_body (bu_body q) @ bu_behind q) \<le> buf_size"
    using assms by (simp add: burst_ok_def burst_wire_def icap_wire_def)
  have sub: "d \<in> set ds \<Longrightarrow> length d \<le> length (concat (map chunk_encode ds))" for d ds
    by (induction ds) (auto simp: chunk_encode_def)
  have "length d \<le> length (written_body (bu_body q) @ bu_behind q)" if "d \<in> set (bu_body q)" for d
  proof (cases "d = []")
    case False
    with that sub [of d ?ds] show ?thesis unfolding written_body_wire wire_body_def by simp
  qed simp
  with l show "\<forall>d \<in> set (bu_body q). length d < 2 ^ 64" by (fastforce simp: buf_size_def)
qed

lemma burst_conn_read:
  assumes "burst_ok lib q" and "c_in c = \<lparr>rbuf = [], under = \<lparr>segs = burst_wire q # ss, net_err = e\<rparr>\<rparr>"
  shows "\<exists>w c1. conn_read_request lib addr c = Done (Inr (burst_parsed lib addr q, w), c1) \<and> rw_conn w = c1 \<and> fresh_writer w \<and>
    c_in c1 = \<lparr>rbuf = written_body (bu_body q) @ bu_behind q, under = \<lparr>segs = ss, net_err = e\<rparr>\<rparr> \<and> c_out c1 = c_out c"
proof -
  let ?n = "\<lparr>segs = ss, net_err = e\<rparr>" let ?b = "\<lparr>rbuf = burst_wire q, under = ?n\<rparr>"
  let ?rest = "written_body (bu_body q) @ bu_behind q"
  from assms(1) obtain ur r where ok: "good_head ''REQMOD'' (bu_uri q) (bu_proto q) (bu_fields q)"
    "lib_parse_request_uri lib (bu_uri q) = Inr ur"
    "hget (mime_map [] (bu_fields q)) ''Encapsulated'' = encap_text [(''req-hdr'', 0), (''req-body'', length (bu_head q))]"
    "hget (mime_map [] (bu_fields q)) ''Preview'' = []" "bu_head q \<noteq> []" "lib_read_request lib (bu_head q) = Inr r"
    "length (burst_wire q) \<le> buf_size"
    by (cases "lib_parse_request_uri lib (bu_uri q)"; cases "lib_read_request lib (bu_head q)") (auto simp: burst_ok_def)
  have ne: "burst_wire q \<noteq> []" by (simp add: burst_wire_def icap_wire_def)
  have "length (bu_head q) \<le> nat max_alloc"
    using ok(7) by (simp add: burst_wire_def icap_wire_def buf_size_def max_alloc_def)
  moreover have "source.brep (\<lambda>c v e. v = [] \<and> c = ?n) ?b (icap_wire ''REQMOD'' (bu_uri q) (bu_proto q) (bu_fields q) (bu_head q @ ?rest)) e"
    using ok(7) by (simp add: still_brep_iff burst_wire_def)
  moreover have "''req-body'' \<in> {''req-body'', ''null-body''}" by simp
  ultimately obtain b' where b': "source.brep (\<lambda>c v e. v = [] \<and> c = ?n) b' ?rest e"
    "read_icap_request lib ?b = (case read_body_part lib (''req-body'' \<noteq> ''null-body'') (reqmod_head (bu_uri q) ur (bu_proto q) (bu_fields q)) b' of
        (Inl err, b4) \<Rightarrow> Done (Inl err, b4)
      | (Inr (req1, bd), b4) \<Rightarrow> Done (Inr (req1\<lparr>ir_request := Some (r\<lparr>rq_body := bd\<rparr>)\<rparr>), b4))"
    using still_net.reqmod_parts [OF ok(1-3) _ ok(5) _ ok(6), of ?n ?b ?rest e] by blast
  from b'(1) have eq: "b' = \<lparr>rbuf = ?rest, under = ?n\<rparr>" by (simp add: still_brep_iff)
  have "read_icap_request lib (c_in c) = Done (Inr ((burst_parsed lib addr q)\<lparr>ir_remote := []\<rparr>), b')"
    using first_read [OF ne ok(7), of lib ss e] assms(2) b'(2) ok(2,4,6)
    by (simp add: read_body_part_def burst_parsed_def new_icap_request_def)
  moreover have "(burst_parsed lib addr q)\<lparr>ir_remote := addr\<rparr> = burst_parsed lib addr q" by (simp add: burst_parsed_def)
  ultimately show ?thesis by (simp add: conn_read_request_def Let_def fresh_writer_def eq)
qed

section \<open>A connection of bursts\<close>

text \<open>
  A handler that, unless it panics, reads the body of the request to its end and nothing else, and gives one
  answer, which has one of the codes.
\<close>

definition answer_of :: "nat set \<Rightarrow> bytes \<Rightarrow> bool" where
  "answer_of codes a \<longleftrightarrow> (\<exists>code \<in> codes. \<exists>rest. a = status_line code @ rest)"

definition takes_body :: "http_lib \<Rightarrow> nat set \<Rightarrow> icap_handler \<Rightarrow> icap_request \<Rightarrow> bool" where
  "takes_body lib codes h req \<longleftrightarrow> (\<forall>w w' bd bs left c. fresh_writer w \<longrightarrow> map_option rq_body (ir_request req) = Some bd \<longrightarrow>
     read_body lib bd (rw_conn w) = Done (bs, None, left, c) \<longrightarrow>
     bind_outcome (h w req) (finish_request lib) = Done w' \<longrightarrow>
     c_in (rw_conn w') = c_in c \<and> (\<exists>a. answer_of codes a \<and> rw_out w' = rw_out w @ a))"

lemma serve_bursts:
  assumes "list_all (burst_ok lib) qs" and "\<forall>q \<in> set qs. takes_body lib codes h (burst_parsed lib addr q)"
    and "c_in c = \<lparr>rbuf = [], under = \<lparr>segs = map burst_wire qs, net_err = EOF\<rparr>\<rparr>" and "length qs < fuel"
    and "\<forall>l. 0 < lib_room lib l"
  shows "\<exists>k end c' as. serve lib h addr fuel c = Some (map (burst_parsed lib addr) (take k qs), end, c') \<and>
    c_out c' = c_out c @ concat as \<and> list_all (answer_of codes) as \<and>
    (end = ConnClosed \<and> k = length qs \<and> length as = k \<or> end = ConnLeft \<and> k = Suc (length as) \<and> k \<le> length qs \<and>
       (\<exists>w s. fresh_writer w \<and> bind_outcome (h w (burst_parsed lib addr (qs ! (k - 1)))) (finish_request lib) = Panic s))"
  using assms(1-4)
proof (induction qs arbitrary: c fuel)
  case Nil
  then obtain f where f: "fuel = Suc f" by (cases fuel) auto
  have "conn.brep (c_in c) [] EOF" using Nil.prems(3) by (simp add: conn_brep_iff conn_pending_def)
  from conn.tp_read_line_eof [OF this, of "in_fuel (c_in c)"] obtain b1 where
    "tp_read_line net_read (in_fuel (c_in c)) [] (c_in c) = (Inl EOF, b1)" by (auto simp: in_fuel_def)
  then show ?case by (simp add: f conn_read_request_def read_icap_request_def Let_def)
next
  case (Cons q qs)
  then obtain f where f: "fuel = Suc f" "length qs < f" by (cases fuel) auto
  let ?req = "burst_parsed lib addr q" let ?n = "\<lparr>segs = map burst_wire qs, net_err = EOF\<rparr>"
  from Cons.prems(1) have ok: "burst_ok lib q" "list_all (burst_ok lib) qs" by simp_all
  from burst_conn_read [OF ok(1), of c "map burst_wire qs" EOF addr] Cons.prems(3) obtain w c1 where
    w: "conn_read_request lib addr c = Done (Inr (?req, w), c1)" "rw_conn w = c1" "fresh_writer w"
    "c_in c1 = \<lparr>rbuf = written_body (bu_body q) @ bu_behind q, under = ?n\<rparr>" "c_out c1 = c_out c" by auto
  from read_held_body [OF w(4) burst_body_small [OF ok(1)] assms(5)] obtain left where
    rd: "read_body lib (ConnBody [] 0 None) c1 = Done (concat (bu_body q), None, left, c1\<lparr>c_in := \<lparr>rbuf = [], under = ?n\<rparr>\<rparr>)" by blast
  show ?case
  proof (cases "bind_outcome (h w ?req) (finish_request lib)")
    case (Panic s)
    then have "serve lib h addr fuel c = Some ([?req], ConnLeft, c1)" using w(1) by (simp add: f(1))
    with w(3,5) Panic show ?thesis by (intro exI [of _ "1"] exI [of _ ConnLeft] exI [of _ c1] exI [of _ "[]"]) auto
  next
    case (Done w')
    have bd: "map_option rq_body (ir_request ?req) = Some (ConnBody [] 0 None)" by (simp add: burst_parsed_def)
    from Cons.prems(2) have "takes_body lib codes h ?req" by simp
    note this [unfolded takes_body_def, rule_format, OF w(3) bd rd [folded w(2)] Done]
    then obtain a where a: "c_in (rw_conn w') = \<lparr>rbuf = [], under = ?n\<rparr>" "answer_of codes a" "c_out (rw_conn w') = c_out c @ a"
      using w(2,5) by (auto simp: rw_out_def)
    have rest: "\<forall>q \<in> set qs. takes_body lib codes h (burst_parsed lib addr q)" using Cons.prems(2) by simp
    from Cons.IH [OF ok(2) rest a(1) f(2)] obtain k en c' as where
      k: "serve lib h addr f (rw_conn w') = Some (map (burst_parsed lib addr) (take k qs), en, c')"
      "c_out c' = c_out (rw_conn w') @ concat as" "list_all (answer_of codes) as"
      "en = ConnClosed \<and> k = length qs \<and> length as = k \<or> en = ConnLeft \<and> k = Suc (length as) \<and> k \<le> length qs \<and>
         (\<exists>w s. fresh_writer w \<and> bind_outcome (h w (burst_parsed lib addr (qs ! (k - 1)))) (finish_request lib) = Panic s)" by blast
    then have "serve lib h addr fuel c = Some (map (burst_parsed lib addr) (take (Suc k) (q # qs)), en, c')"
      using w(1) Done by (simp add: f(1))
    with k(2-4) a(2,3) show ?thesis
      by (intro exI [of _ "Suc k"] exI [of _ en] exI [of _ c'] exI [of _ "a # as"]) auto
  qed
qed

end
