(* ===== verification/Settled.thy ===== *)
theory Settled
  imports PlainSession Bursts
begin

text \<open>
  The handler of the program on requests with bodies: it reads the body of the request once, when it is loaded,
  and from then on every body it meets is in memory, so that the connection is left alone.
\<close>

section \<open>Bodies in memory\<close>

definition off_wire :: "body \<Rightarrow> bool" where
  "off_wire bd \<longleftrightarrow> (case bd of ConnBody _ _ _ \<Rightarrow> False | _ \<Rightarrow> True)"

lemma off_wire_simps [simp]: "off_wire NilBody" "off_wire EmptyBody" "off_wire (BytesBody bs)" "\<not> off_wire (ConnBody b n e)"
  by (simp_all add: off_wire_def)

definition hm_off_wire :: "http_message \<Rightarrow> bool" where
  "hm_off_wire hm \<longleftrightarrow> (\<forall>r. hm_request hm = Some r \<longrightarrow> off_wire (rq_body r)) \<and>
     (\<forall>r. hm_response hm = Some r \<longrightarrow> off_wire (rs_body r))"



section \<open>The services\<close>








lemma hm_off_wire_set [simp]:
  "hm_off_wire hm \<Longrightarrow> hm_off_wire (hm\<lparr>hm_response := Some rs\<rparr>) \<longleftrightarrow> off_wire (rs_body rs)"
  "hm_off_wire hm \<Longrightarrow> hm_off_wire (hm\<lparr>hm_request := Some rq\<rparr>) \<longleftrightarrow> off_wire (rq_body rq)"
  by (auto simp: hm_off_wire_def)


































section \<open>The handler\<close>

























section \<open>Connections\<close>





end
