(* ===== verification/GoFmt.thy ===== *)
theory GoFmt
  imports GoStrings
begin

text \<open>
  \<open>fmt.Sprintf\<close> with string operands, as \<open>icap-client\<close> uses it on formats that contain text of the caller.
  A directive is \<open>%\<close>, flags, a width and a verb. How a flagged directive prints its operand is a parameter,
  and so is everything behind a directive with a precision, \<open>*\<close>, an argument index, a width beyond six
  digits or a verb outside ASCII; that each other directive takes one operand, what is printed when
  operands are missing or left over, and \<open>%%\<close> are modelled.
\<close>

record fmt_lib =
  fmt_directive :: "string \<Rightarrow> string \<Rightarrow> string"
  fmt_other :: "string \<Rightarrow> string list \<Rightarrow> string"

definition is_fmt_flag :: "char \<Rightarrow> bool" where
  "is_fmt_flag c \<longleftrightarrow> c \<in> set ''#0+- ''"

text \<open>Flags and width of the directive that starts behind a \<open>%\<close>.\<close>

definition directive_spec :: "string \<Rightarrow> string" where
  "directive_spec f = takeWhile is_fmt_flag f @ takeWhile is_digit (dropWhile is_fmt_flag f)"

definition plain_directive :: "string \<Rightarrow> char \<Rightarrow> bool" where
  "plain_directive spec v \<longleftrightarrow>
     length (filter is_digit spec) \<le> 6 \<and> v \<notin> set ''*.['' \<and> (of_char v :: nat) < 128"

text \<open>Operands no directive has taken.\<close>

definition fmt_extra :: "string list \<Rightarrow> string" where
  "fmt_extra args =
     (if args = [] then [] else ''%!(EXTRA '' @ join (map (\<lambda>a. ''string='' @ a) args) '', '' @ '')'')"

definition print_operand :: "fmt_lib \<Rightarrow> string \<Rightarrow> char \<Rightarrow> string \<Rightarrow> string" where
  "print_operand lib spec v a = (if spec = [] \<and> v \<in> set ''sv'' then a else fmt_directive lib (spec @ [v]) a)"

lemma sprintf_rest: "drop n f = v # g \<Longrightarrow> length g < Suc (length f)"
proof -
  assume "drop n f = v # g"
  then have "Suc (length g) = length f - n" by (metis length_Cons length_drop)
  then show ?thesis by simp
qed

function sprintf :: "fmt_lib \<Rightarrow> string \<Rightarrow> string list \<Rightarrow> string" where
  "sprintf lib [] args = fmt_extra args"
| "sprintf lib (c # f) args =
     (if c \<noteq> CHR ''%'' then c # sprintf lib f args
      else (let spec = directive_spec f in
            case drop (length spec) f of
              [] \<Rightarrow> ''%!(NOVERB)'' @ fmt_extra args
            | v # g \<Rightarrow>
                if \<not> plain_directive spec v then fmt_other lib (c # f) args
                else if v = CHR ''%'' then v # sprintf lib g args
                else (case args of
                        [] \<Rightarrow> ''%!'' @ v # ''(MISSING)'' @ sprintf lib g []
                      | a # as \<Rightarrow> print_operand lib spec v a @ sprintf lib g as)))"
  by pat_completeness auto
termination
  by (relation "measure (\<lambda>(lib, f, args). length f)") (auto dest: sprintf_rest)

declare sprintf.simps(2) [simp del]

lemma sprintf_char: "c \<noteq> CHR ''%'' \<Longrightarrow> sprintf lib (c # f) args = c # sprintf lib f args"
  by (subst sprintf.simps(2)) simp

lemma sprintf_text: "CHR ''%'' \<notin> set p \<Longrightarrow> sprintf lib (p @ f) args = p @ sprintf lib f args"
proof (induction p)
  case (Cons c p)
  then have "c \<noteq> CHR ''%''" by auto
  with Cons show ?case by (simp add: sprintf_char)
qed simp

lemma sprintf_plain: "CHR ''%'' \<notin> set p \<Longrightarrow> sprintf lib p [] = p"
  using sprintf_text [of p lib "[]" "[]"] by (simp add: fmt_extra_def)

lemma sprintf_directive:
  assumes "list_all is_digit ds" and "length ds \<le> 6" and "\<not> is_digit v" and "v \<notin> set ''*.[%#+- ''"
    and "(of_char v :: nat) < 128"
  shows "sprintf lib (CHR ''%'' # ds @ v # f) (a # args) = print_operand lib ds v a @ sprintf lib f args"
    and "sprintf lib (CHR ''%'' # ds @ v # f) [] = ''%!'' @ v # ''(MISSING)'' @ sprintf lib f []"
proof -
  have zero: "is_digit CHR ''0''" by (simp add: is_digit_def)
  have nf: "\<not> is_fmt_flag v" and ns: "v \<noteq> CHR ''%''"
    using assms(3,4) zero by (auto simp only: is_fmt_flag_def list.set insert_iff empty_iff)
  have "directive_spec (ds @ v # f) = ds"
  proof -
    let ?r = "dropWhile is_fmt_flag ds"
    have ds: "ds = takeWhile is_fmt_flag ds @ ?r" by simp
    have "list_all is_digit ?r" using assms(1) by (metis ds list_all_append)
    then have r: "takeWhile is_digit (?r @ v # f) = ?r"
      using assms(3) by (simp add: list_all_iff takeWhile_append)
    have "takeWhile is_fmt_flag (ds @ v # f) = takeWhile is_fmt_flag ds"
      "dropWhile is_fmt_flag (ds @ v # f) = ?r @ v # f"
      using nf by (auto simp: takeWhile_append dropWhile_append) (metis takeWhile_eq_all_conv)
    with r show ?thesis by (simp add: directive_spec_def)
  qed
  moreover have "plain_directive ds v"
    using assms(1,2,4,5) by (simp add: plain_directive_def list_all_iff)
  ultimately show "sprintf lib (CHR ''%'' # ds @ v # f) (a # args) = print_operand lib ds v a @ sprintf lib f args"
    "sprintf lib (CHR ''%'' # ds @ v # f) [] = ''%!'' @ v # ''(MISSING)'' @ sprintf lib f []"
    using ns by (simp_all add: sprintf.simps(2) [of lib "CHR ''%''"] Let_def)
qed

lemma sprintf_string:
  "sprintf lib (CHR ''%'' # CHR ''s'' # f) (a # args) = a @ sprintf lib f args"
  "sprintf lib (CHR ''%'' # CHR ''s'' # f) [] = ''%!s(MISSING)'' @ sprintf lib f []"
  using sprintf_directive [of "[]" "CHR ''s''" lib f] by (simp_all add: is_digit_def print_operand_def)

end
