(* ===== verification/ClientRequest.thy ===== *)
theory ClientRequest
  imports GoHttp GoFmt
begin

text \<open>
  The requests of \<open>icap-client\<close>: \<open>validate.go\<close>, \<open>header.go\<close>, \<open>parser.go\<close> and \<open>request.go\<close>. The standard library's
  dumps of HTTP messages, the URL printer and parser and the host name are parameters; a URL and a header
  can hold anything the caller puts there.
\<close>

section \<open>Constants and requests\<close>

text \<open>What the client uses of the standard library. A body in memory is read here; \<open>cl_read_body\<close> reads any other.\<close>

record client_lib =
  cl_http :: http_lib
  cl_fmt :: fmt_lib
  cl_escaped_path :: "url \<Rightarrow> string"
  cl_hostname :: string
  cl_dump_request_out :: "http_request \<Rightarrow> go_error + bytes"
  cl_dump_response :: "http_response \<Rightarrow> go_error + bytes"
  cl_read_body :: "body \<Rightarrow> (go_error + bytes) \<times> body"

definition icap_version :: string where "icap_version = ''ICAP/1.0''"

definition http_version :: string where "http_version = ''HTTP/1.1''"

definition double_crlf :: string where "double_crlf = crlf @ crlf"

lemma double_crlf_length [simp]: "length double_crlf = 4" "double_crlf \<noteq> []"
  by (simp_all add: double_crlf_def)

definition body_end_indicator :: string where "body_end_indicator = crlf @ ''0'' @ crlf"

definition full_body_end_indicator :: string where "full_body_end_indicator = ''; ieof'' @ double_crlf"

definition registered_methods :: "string list" where
  "registered_methods = [''OPTIONS'', ''RESPMOD'', ''REQMOD'']"

record client_request =
  cq_method :: string
  cq_url :: url
  cq_header :: header
  cq_http_request :: "http_request option"
  cq_http_response :: "http_response option"
  cq_chunk_length :: int
  cq_preview_bytes :: int
  cq_ctx :: bool
  cq_preview_set :: bool
  cq_body_fitted :: bool
  cq_remaining :: bytes

section \<open>Validation\<close>

definition valid_method :: "string \<Rightarrow> go_error option" where
  "valid_method m =
     (if m \<notin> set registered_methods then Some (ErrText ''the requested method is not registered'') else None)"

definition valid_url :: "url \<Rightarrow> go_error option" where
  "valid_url u =
     (if u_scheme u \<noteq> ''icap'' then Some (ErrText ''the url scheme must be icap://'')
      else if u_host u = [] then Some (ErrText ''the requested host is invalid'') else None)"

definition valid_method_with_http :: "http_request option \<Rightarrow> http_response option \<Rightarrow> string \<Rightarrow> go_error option" where
  "valid_method_with_http req resp m =
     (if m = ''REQMOD'' \<and> req = None then Some (ErrText ''http request cannot be nil for method REQMOD'')
      else if m = ''REQMOD'' \<and> resp \<noteq> None then Some (ErrText ''http response must be nil for method REQMOD'')
      else if m = ''RESPMOD'' \<and> resp = None then Some (ErrText ''http response cannot be nil for method RESPMOD'')
      else None)"

definition validate :: "client_request \<Rightarrow> go_error option" where
  "validate r =
     (case valid_method (cq_method r) of Some e \<Rightarrow> Some e
      | None \<Rightarrow> (case valid_url (cq_url r) of Some e \<Rightarrow> Some e
        | None \<Rightarrow> valid_method_with_http (cq_http_request r) (cq_http_response r) (cq_method r)))"

definition new_client_request :: "client_lib \<Rightarrow> string \<Rightarrow> string \<Rightarrow> http_request option \<Rightarrow> http_response option \<Rightarrow>
    go_error + client_request" where
  "new_client_request lib m url_str req resp =
     (case lib_parse_url (cl_http lib) url_str of
        Inl e \<Rightarrow> Inl e
      | Inr u \<Rightarrow>
          (let r = \<lparr>cq_method = to_upper m, cq_url = u, cq_header = [], cq_http_request = req, cq_http_response = resp,
                    cq_chunk_length = 0, cq_preview_bytes = 0, cq_ctx = False, cq_preview_set = False,
                    cq_body_fitted = False, cq_remaining = []\<rparr>
           in case validate r of Some e \<Rightarrow> Inl e | None \<Rightarrow> Inr r))"

definition set_context :: "client_request \<Rightarrow> client_request" where
  "set_context r = r\<lparr>cq_ctx := True\<rparr>"

section \<open>Headers and preview\<close>

text \<open>\<open>ioutil.ReadAll\<close> of a body that is not nil: the bytes, and what is left of the body.\<close>

definition drain_body :: "client_lib \<Rightarrow> body \<Rightarrow> (go_error + bytes) \<times> body" where
  "drain_body lib bd =
     (case bd of
        BytesBody bs \<Rightarrow> (Inr bs, BytesBody [])
      | EmptyBody \<Rightarrow> (Inr [], EmptyBody)
      | _ \<Rightarrow> cl_read_body lib bd)"

definition put_body :: "body \<Rightarrow> client_request \<Rightarrow> client_request" where
  "put_body bd r =
     (if cq_method r = ''REQMOD'' then r\<lparr>cq_http_request := map_option (\<lambda>h. h\<lparr>rq_body := bd\<rparr>) (cq_http_request r)\<rparr>
      else if cq_method r = ''RESPMOD''
      then r\<lparr>cq_http_response := map_option (\<lambda>h. h\<lparr>rs_body := bd\<rparr>) (cq_http_response r)\<rparr> else r)"

text \<open>
  The body the method is about; \<open>None\<close> when the message it belongs to is nil. An OPTIONS request has the
  empty body.
\<close>

definition preview_body :: "client_request \<Rightarrow> body option" where
  "preview_body r =
     (if cq_method r = ''REQMOD'' then map_option rq_body (cq_http_request r)
      else if cq_method r = ''RESPMOD'' then map_option rs_body (cq_http_response r)
      else Some NilBody)"

text \<open>\<open>SetPreview\<close>; a negative maximum is sliced with and panics.\<close>

definition set_preview :: "client_lib \<Rightarrow> int \<Rightarrow> client_request \<Rightarrow> (go_error option \<times> client_request) outcome" where
  "set_preview lib maxb r =
     (case preview_body r of
        None \<Rightarrow> Done (None, r)
      | Some bd \<Rightarrow>
          (case (if bd = NilBody then (Inr [], NilBody) else drain_body lib bd) of
             (Inl e, bd') \<Rightarrow> Done (Some e, put_body bd' r)
           | (Inr bs, bd') \<Rightarrow>
               (let n = int (length bs);
                    r1 = (if 0 < n then r\<lparr>cq_body_fitted := True\<rparr> else r)
                in if maxb < n \<and> maxb < 0 then Panic ''slice bounds out of range''
                   else (let (p, r2) = (if maxb < n
                                        then (maxb, r1\<lparr>cq_body_fitted := False, cq_remaining := drop (nat maxb) bs\<rparr>)
                                        else (n, r1));
                             r3 = put_body (BytesBody bs) r2
                         in Done (None, r3\<lparr>cq_header := hset (cq_header r3) ''Preview'' (itoa_int p),
                                            cq_preview_bytes := p, cq_preview_set := True\<rparr>)))))"

definition set_default_request_headers :: "client_lib \<Rightarrow> client_request \<Rightarrow> client_request" where
  "set_default_request_headers lib r =
     (let r1 = (if map_of (cq_header r) ''Allow'' = None then r\<lparr>cq_header := hadd (cq_header r) ''Allow'' ''204''\<rparr> else r)
      in if map_of (cq_header r1) ''Host'' = None then r1\<lparr>cq_header := hadd (cq_header r1) ''Host'' (cl_hostname lib)\<rparr>
         else r1)"

text \<open>One field of the other header, with its values; an error ends the loop.\<close>

fun extend_values :: "client_lib \<Rightarrow> string \<Rightarrow> string list \<Rightarrow> client_request \<Rightarrow>
    (go_error option \<times> client_request) outcome" where
  "extend_values lib k [] r = Done (None, r)"
| "extend_values lib k (v # vs) r =
     (if k = ''Preview''
      then (case atoi v of
              (_, Some e) \<Rightarrow> Done (Some e, r)
            | (pb, None) \<Rightarrow> bind_outcome (set_preview lib pb r) (\<lambda>(err, r1).
                if err = None then extend_values lib k vs r1 else Done (err, r1)))
      else extend_values lib k vs (r\<lparr>cq_header := hadd (cq_header r) k v\<rparr>))"

fun extend_header :: "client_lib \<Rightarrow> header \<Rightarrow> client_request \<Rightarrow> (go_error option \<times> client_request) outcome" where
  "extend_header lib [] r = Done (None, r)"
| "extend_header lib ((k, vs) # h) r =
     (if k = ''Preview'' \<and> cq_preview_set r \<or> k = ''Encapsulated'' then extend_header lib h r
      else bind_outcome (extend_values lib k vs r) (\<lambda>(err, r1).
        if err = None then extend_header lib h r1 else Done (err, r1)))"

section \<open>Text of messages\<close>

definition get_status_with_code :: "string \<Rightarrow> string \<Rightarrow> go_error + int \<times> string" where
  "get_status_with_code s1 s2 =
     (case atoi s1 of (_, Some e) \<Rightarrow> Inl e | (code, None) \<Rightarrow> Inr (code, trim_space s2))"

definition get_header_val :: "string \<Rightarrow> string \<times> string" where
  "get_header_val s =
     (case splitN 2 s '':'' of h # v # _ \<Rightarrow> (h, trim_space v) | [h] \<Rightarrow> (h, []) | [] \<Rightarrow> ([], []))"

definition is_request_line :: "string \<Rightarrow> bool" where
  "is_request_line s \<longleftrightarrow> contains s icap_version \<or> contains s http_version"

text \<open>
  \<open>FindAllStringIndex\<close> for a literal text: the matches from the left that do not overlap, with start and
  end. The second argument counts the bytes of a match still to be passed.
\<close>

fun find_from :: "nat \<Rightarrow> nat \<Rightarrow> string \<Rightarrow> string \<Rightarrow> (nat \<times> nat) list" where
  "find_from i skip [] p = []"
| "find_from i (Suc skip) (c # cs) p = find_from (Suc i) skip cs p"
| "find_from i 0 (c # cs) p =
     (if has_prefix (c # cs) p then (i, i + length p) # find_from (Suc i) (length p - 1) cs p
      else find_from (Suc i) 0 cs p)"

definition find_double_crlf :: "string \<Rightarrow> (nat \<times> nat) list" where
  "find_double_crlf s = find_from 0 0 s double_crlf"

text \<open>The value of the Encapsulated header, from the texts of the two HTTP messages.\<close>

definition encapsulated_request :: "string \<Rightarrow> string \<Rightarrow> string \<times> nat" where
  "encapsulated_request req_str resp_str =
     (case find_double_crlf req_str of
        [] \<Rightarrow> ([], 0)
      | (_, e) # more_matches \<Rightarrow>
          (let (v, ends_at) = (case more_matches of
                 (_, e') # _ \<Rightarrow> ('', req-body='' @ itoa e, e')
               | [] \<Rightarrow> ((if resp_str = [] then '', null-body='' @ itoa e else []), e))
           in (''req-hdr=0'' @ v @ (if resp_str \<noteq> [] then '', '' else []), ends_at)))"

definition encapsulated_response :: "nat \<Rightarrow> string \<Rightarrow> string" where
  "encapsulated_response ends_at resp_str =
     (case find_double_crlf resp_str of
        [] \<Rightarrow> []
      | (_, e) # more_matches \<Rightarrow>
          ''res-hdr='' @ itoa ends_at @ (if more_matches \<noteq> [] then '', res-body='' else '', null-body='') @ itoa (ends_at + e))"

definition client_encapsulated :: "string \<Rightarrow> string \<Rightarrow> string \<Rightarrow> string" where
  "client_encapsulated icap_str req_str resp_str =
     '' '' @
     (if has_prefix icap_str ''OPTIONS'' then (if req_str = [] \<and> resp_str = [] then ''null-body=0'' else ''opt-body=0'')
      else []) @
     (if has_prefix icap_str ''REQMOD'' \<or> has_prefix icap_str ''RESPMOD''
      then (case encapsulated_request req_str resp_str of (v, ends_at) \<Rightarrow> v @ encapsulated_response ends_at resp_str)
      else [])"

text \<open>The request text is the format into which the value is printed.\<close>

definition set_encapsulated_header_value :: "client_lib \<Rightarrow> string \<Rightarrow> string \<Rightarrow> string \<Rightarrow> string" where
  "set_encapsulated_header_value lib icap_str req_str resp_str =
     sprintf (cl_fmt lib) icap_str [client_encapsulated icap_str req_str resp_str]"

definition replace_request_uri :: "string \<Rightarrow> string \<Rightarrow> string \<Rightarrow> string" where
  "replace_request_uri s uri url = replace_first s (if uri = [] then ''/'' else uri) url"

definition add_full_body_indicator :: "string \<Rightarrow> string" where
  "add_full_body_indicator s = trim_suffix s double_crlf @ full_body_end_indicator"

definition split_body_and_header :: "string \<Rightarrow> (string \<times> string) option" where
  "split_body_and_header s =
     (case splitN 2 s double_crlf of
        h # b # _ \<Rightarrow> (if b = [] then None else Some (h, b))
      | _ \<Rightarrow> None)"

text \<open>The expression \<open>\r\n0(\r\n)+$\<close>: at least one line end, behind a line end and a zero.\<close>

fun strip_crlfs_rev :: "string \<Rightarrow> string" where
  "strip_crlfs_rev (c # d # s) = (if c = LF \<and> d = CR then strip_crlfs_rev s else c # d # s)"
| "strip_crlfs_rev s = s"

definition ends_chunked :: "string \<Rightarrow> bool" where
  "ends_chunked s \<longleftrightarrow>
     (let t = strip_crlfs_rev (rev s) in t \<noteq> rev s \<and> has_prefix t (CHR ''0'' # LF # [CR]))"

definition body_already_chunked :: "string \<Rightarrow> bool" where
  "body_already_chunked s = (case split_body_and_header s of None \<Rightarrow> False | Some (h, b) \<Rightarrow> ends_chunked b)"

definition merge_header_and_body :: "string \<Rightarrow> string \<Rightarrow> string" where
  "merge_header_and_body h b = h @ double_crlf @ b"

text \<open>\<open>bodyStr[:pb]\<close> is out of range for a body shorter than the preview.\<close>

definition parse_preview_body_bytes :: "string \<Rightarrow> int \<Rightarrow> string outcome" where
  "parse_preview_body_bytes s pb =
     (case split_body_and_header s of
        None \<Rightarrow> Done s
      | Some (h, b) \<Rightarrow>
          if pb < 0 \<or> int (length b) < pb then Panic ''slice bounds out of range''
          else Done (merge_header_and_body h (take (nat pb) b)))"

definition add_hexa_body_byte_notations :: "string \<Rightarrow> string" where
  "add_hexa_body_byte_notations b = hex (length b) @ crlf @ b @ body_end_indicator"

text \<open>
  \<open>chunkBodyByBytes\<close>: the loop from \<open>i\<close> on. A chunk length of zero never gets on (\<open>None\<close>), a negative one
  makes the slice panic.
\<close>

partial_function (option) chunk_loop :: "bytes \<Rightarrow> int \<Rightarrow> int \<Rightarrow> bytes \<Rightarrow> bytes outcome option" where
  "chunk_loop bdy cl i acc =
     (if \<not> i < int (length bdy) then Some (Done (acc @ body_end_indicator))
      else (let e = (if int (length bdy) < i + cl then int (length bdy) else i + cl) in
            if e < i then Some (Panic ''slice bounds out of range'')
            else (let piece = take (nat (e - i)) (drop (nat i) bdy)
                  in chunk_loop bdy cl (i + cl) (acc @ hex (length piece) @ crlf @ piece))))"

definition chunk_body_by_bytes :: "bytes \<Rightarrow> int \<Rightarrow> bytes outcome option" where
  "chunk_body_by_bytes bdy cl = chunk_loop bdy cl 0 []"

section \<open>The request on the wire\<close>

text \<open>\<open>for !strings.HasSuffix(httpReqStr, DoubleCRLF)\<close>\<close>

function pad_double_crlf :: "string \<Rightarrow> string" where
  "pad_double_crlf s = (if has_suffix s double_crlf then s else pad_double_crlf (s @ crlf))"
  by pat_completeness auto
termination
proof (relation "measure (\<lambda>s. if has_suffix s double_crlf then 0 else if has_suffix s crlf then 1 else 2)")
  fix s :: string
  assume "\<not> has_suffix s double_crlf"
  moreover have "has_suffix s crlf \<Longrightarrow> has_suffix (s @ crlf) double_crlf"
    by (auto simp: has_suffix_iff double_crlf_def)
  ultimately show "(s @ crlf, s) \<in> measure (\<lambda>s. if has_suffix s double_crlf then 0 else if has_suffix s crlf then 1 else 2)"
    by auto
qed simp

declare pad_double_crlf.simps [simp del]

text \<open>The body cut to the preview, and made a chunk unless it looks chunked already.\<close>

definition chunk_message :: "client_request \<Rightarrow> string \<Rightarrow> string outcome" where
  "chunk_message r s =
     bind_outcome (if cq_preview_set r then parse_preview_body_bytes s (cq_preview_bytes r) else Done s) (\<lambda>s1.
       Done (if body_already_chunked s1 then s1
             else (case split_body_and_header s1 of
                     None \<Rightarrow> s1
                   | Some (h, b) \<Rightarrow> merge_header_and_body h (add_hexa_body_byte_notations b))))"

definition dump_http_request :: "client_lib \<Rightarrow> client_request \<Rightarrow> (go_error + string) outcome" where
  "dump_http_request lib r =
     (case cq_http_request r of
        None \<Rightarrow> Done (Inr [])
      | Some h \<Rightarrow>
          (case cl_dump_request_out lib h of
             Inl e \<Rightarrow> Done (Inl e)
           | Inr b \<Rightarrow>
               (let s = replace_request_uri b (cl_escaped_path lib (rq_url h)) (lib_url_string (cl_http lib) (rq_url h))
                in bind_outcome (if cq_method r = ''REQMOD'' then chunk_message r s else Done s) (\<lambda>s1.
                     Done (Inr (if s1 = [] then [] else pad_double_crlf s1))))))"

definition dump_http_response :: "client_lib \<Rightarrow> client_request \<Rightarrow> (go_error + string) outcome" where
  "dump_http_response lib r =
     (case cq_http_response r of
        None \<Rightarrow> Done (Inr [])
      | Some h \<Rightarrow>
          (case cl_dump_response lib h of
             Inl e \<Rightarrow> Done (Inl e)
           | Inr b \<Rightarrow> bind_outcome (chunk_message r b) (\<lambda>s.
               Done (Inr (if s \<noteq> [] \<and> \<not> has_suffix s double_crlf then s @ crlf else s)))))"

text \<open>The head with the place for the Encapsulated value.\<close>

definition dump_head :: "client_lib \<Rightarrow> client_request \<Rightarrow> string" where
  "dump_head lib r =
     cq_method r @ SP # lib_url_string (cl_http lib) (cq_url r) @ SP # icap_version @ crlf @
     concat (map (\<lambda>(k, vs). concat (map (\<lambda>v. k @ '': '' @ v @ crlf) vs)) (cq_header r)) @
     ''Encapsulated: %s'' @ crlf @ crlf"

definition dump_request :: "client_lib \<Rightarrow> client_request \<Rightarrow> (go_error + bytes) outcome" where
  "dump_request lib r =
     bind_outcome (dump_http_request lib r) (\<lambda>rq. case rq of Inl e \<Rightarrow> Done (Inl e) | Inr req_str \<Rightarrow>
     bind_outcome (dump_http_response lib r) (\<lambda>rs. case rs of Inl e \<Rightarrow> Done (Inl e) | Inr resp_str \<Rightarrow>
       (let encp = hget (cq_header r) ''Encapsulated'';
            icap_str = (if encp \<noteq> [] then sprintf (cl_fmt lib) (dump_head lib r) [encp]
                        else set_encapsulated_header_value lib (dump_head lib r) req_str resp_str);
            fits = cq_preview_set r \<and> cq_body_fitted r;
            resp1 = (if resp_str \<noteq> [] \<and> fits then add_full_body_indicator resp_str else resp_str);
            req1 = (if cq_method r = ''REQMOD'' \<and> fits then add_full_body_indicator req_str else req_str)
        in Done (Inr (icap_str @ req1 @ resp1)))))"

section \<open>Requests that pass, and previews that panic\<close>

lemma new_client_request_valid:
  assumes "new_client_request lib m u req resp = Inr r"
  shows "cq_method r \<in> set registered_methods" and "u_scheme (cq_url r) = ''icap''"
    and "cq_method r = ''REQMOD'' \<Longrightarrow> cq_http_request r \<noteq> None \<and> cq_http_response r = None"
    and "cq_method r = ''RESPMOD'' \<Longrightarrow> cq_http_response r \<noteq> None"
proof -
  have v: "validate r = None" using assms by (auto simp: new_client_request_def Let_def split: sum.splits option.splits)
  then have "valid_method (cq_method r) = None" "valid_url (cq_url r) = None"
    "valid_method_with_http (cq_http_request r) (cq_http_response r) (cq_method r) = None"
    by (auto simp: validate_def split: option.splits)
  then show "cq_method r \<in> set registered_methods" "u_scheme (cq_url r) = ''icap''"
    "cq_method r = ''REQMOD'' \<Longrightarrow> cq_http_request r \<noteq> None \<and> cq_http_response r = None"
    "cq_method r = ''RESPMOD'' \<Longrightarrow> cq_http_response r \<noteq> None"
    by (auto simp: valid_method_def valid_url_def valid_method_with_http_def split: if_splits)
qed

text \<open>A negative preview in the header the server sent makes \<open>ExtendHeader\<close> panic.\<close>

lemma extend_header_negative_panics:
  assumes "\<not> cq_preview_set r" and "preview_body r = Some (BytesBody bs)" and "atoi v = (n, None)" and "n < 0"
  shows "\<exists>s. extend_header lib ((''Preview'', v # vs) # h) r = Panic s"
  using assms by (simp add: set_preview_def drain_body_def Let_def)

section \<open>A sample\<close>

text \<open>A library that dumps requests plainly, and a request to send.\<close>

definition sample_client_lib :: client_lib where
  "sample_client_lib = \<lparr>cl_http = sample_lib, cl_fmt = \<lparr>fmt_directive = (\<lambda>spec a. ''%!'' @ spec @ a), fmt_other = (\<lambda>f args. f)\<rparr>,
     cl_escaped_path = u_path, cl_hostname = ''client'',
     cl_dump_request_out = (\<lambda>h. Inr (rq_method h @ SP # u_path (rq_url h) @ '' HTTP/1.1'' @ crlf @ ''Host: h'' @ double_crlf @
       (case rq_body h of BytesBody bs \<Rightarrow> bs | _ \<Rightarrow> []))),
     cl_dump_response = (\<lambda>h. Inr (''HTTP/1.1 200 OK'' @ crlf @ ''Server: s'' @ double_crlf @
       (case rs_body h of BytesBody bs \<Rightarrow> bs | _ \<Rightarrow> []))),
     cl_read_body = (\<lambda>bd. (Inr [], bd))\<rparr>"

definition sample_http_request :: http_request where
  "sample_http_request = zero_request\<lparr>rq_method := ''POST'', rq_url := zero_url\<lparr>u_path := ''/a''\<rparr>, rq_body := BytesBody ''hello''\<rparr>"

definition sample_client_request :: client_request where
  "sample_client_request = \<lparr>cq_method = ''REQMOD'', cq_url = zero_url\<lparr>u_path := ''icap://h/echo''\<rparr>,
     cq_header = [(''Allow'', [''204''])], cq_http_request = Some sample_http_request, cq_http_response = None,
     cq_chunk_length = 0, cq_preview_bytes = 0, cq_ctx = False, cq_preview_set = False, cq_body_fitted = False,
     cq_remaining = []\<rparr>"

end
