(* ===== verification/ClientWire.thy ===== *)
theory ClientWire
  imports ClientRequest IcapRequest
begin

text \<open>
  What the client's text operations do to messages of the usual shape, and the server of this repository
  reading what the client writes.
\<close>

section \<open>Finding the blank line\<close>

text \<open>A head without a blank line in it or at its end.\<close>

definition plain_head :: "string \<Rightarrow> bool" where
  "plain_head h \<longleftrightarrow> \<not> contains (h @ [CR]) (crlf @ [CR])"

lemma index_of_first:
  assumes "has_prefix (drop n s) p" and "n \<le> length s" and "\<And>i. i < n \<Longrightarrow> \<not> has_prefix (drop i s) p"
  shows "index_of s p = Some n"
  using assms
proof (induction s arbitrary: n)
  case Nil
  then show ?case by simp
next
  case (Cons c s)
  show ?case
  proof (cases n)
    case 0
    with Cons.prems(1) show ?thesis by simp
  next
    case (Suc m)
    have "\<not> has_prefix (c # s) p" using Cons.prems(3) [of 0] Suc by simp
    moreover have "index_of s p = Some m"
    proof (rule Cons.IH)
      show "\<not> has_prefix (drop i s) p" if "i < m" for i using Cons.prems(3) [of "Suc i"] Suc that by simp
    qed (use Cons.prems(1,2) Suc in simp_all)
    ultimately show ?thesis using Suc by simp
  qed
qed

lemma plain_head_index:
  assumes "plain_head h"
  shows "index_of (h @ double_crlf @ b) double_crlf = Some (length h)"
proof (rule index_of_first)
  fix i assume i: "i < length h"
  define t where "t = drop i h"
  have t: "t \<noteq> []" "h = take i h @ t" using i by (simp_all add: t_def)
  show "\<not> has_prefix (drop i (h @ double_crlf @ b)) double_crlf"
  proof
    assume "has_prefix (drop i (h @ double_crlf @ b)) double_crlf"
    then obtain r where r: "t @ double_crlf @ b = double_crlf @ r"
      using i by (auto simp: has_prefix_iff t_def)
    then obtain s where "t @ [CR] = (crlf @ [CR]) @ s"
      using t(1) by (cases t; cases "tl t"; cases "tl (tl t)") (auto simp: double_crlf_def)
    then have "h @ [CR] = take i h @ (crlf @ [CR]) @ s" using t(2) by (metis append_assoc)
    with assms show False unfolding plain_head_def contains_iff by blast
  qed
qed simp_all

lemma split_body_and_header_plain:
  assumes "plain_head h"
  shows "split_body_and_header (h @ double_crlf @ b) = (if b = [] then None else Some (h, b))"
  using plain_head_index [OF assms, of b] by (simp add: split_body_and_header_def numeral_2_eq_2)

lemma find_from_skip: "find_from i k s p = find_from (i + min k (length s)) 0 (drop k s) p"
  by (induction s arbitrary: i k) (auto simp: drop_Cons' gr0_conv_Suc split: nat.splits)

lemma find_from_index:
  assumes "p \<noteq> []"
  shows "find_from i 0 s p = (case index_of s p of None \<Rightarrow> []
    | Some j \<Rightarrow> (i + j, i + j + length p) # find_from (i + j + length p) 0 (drop (j + length p) s) p)"
proof (induction s arbitrary: i)
  case Nil
  then show ?case using assms by simp
next
  case (Cons c s)
  show ?case
  proof (cases "has_prefix (c # s) p")
    case True
    then have "length p \<le> Suc (length s)" by (simp add: has_prefix_def)
    moreover obtain n where "length p = Suc n" using assms by (cases p) auto
    ultimately show ?thesis
      using True find_from_skip [of "Suc i" n s p] by (simp add: min_absorb1)
  next
    case False
    with Cons.IH [of "Suc i"] show ?thesis by (cases "index_of s p") simp_all
  qed
qed

lemma find_double_crlf_plain:
  assumes "plain_head h"
  shows "find_double_crlf (h @ double_crlf @ b) =
    (length h, length h + 4) # find_from (length h + 4) 0 b double_crlf"
  using find_from_index [of double_crlf 0 "h @ double_crlf @ b"] plain_head_index [OF assms, of b]
  by (simp add: find_double_crlf_def)

section \<open>Chunks\<close>

lemma add_hexa_encode: "add_hexa_body_byte_notations b = chunk_encode b @ ''0'' @ crlf"
  by (simp add: add_hexa_body_byte_notations_def body_end_indicator_def chunk_encode_def)

lemma pad_done: "has_suffix s double_crlf \<Longrightarrow> pad_double_crlf s = s"
  by (simp add: pad_double_crlf.simps)

lemma pad_zero_line: "pad_double_crlf (s @ crlf @ ''0'' @ crlf) = s @ crlf @ ''0'' @ double_crlf"
proof -
  have "\<not> has_suffix (s @ crlf @ ''0'' @ crlf) double_crlf"
    by (auto simp: has_suffix_def double_crlf_def)
  moreover have "has_suffix ((s @ crlf @ ''0'') @ double_crlf) double_crlf" by (rule has_suffix_append)
  ultimately show ?thesis
    by (subst pad_double_crlf.simps) (simp add: pad_done double_crlf_def)
qed

lemma trim_zero_line: "add_full_body_indicator (s @ double_crlf) = s @ ''; ieof'' @ double_crlf"
  by (simp add: add_full_body_indicator_def trim_suffix_def full_body_end_indicator_def)

section \<open>The header\<close>

text \<open>The lines the client writes for a header map.\<close>

definition flat_header :: "header \<Rightarrow> (string \<times> string) list" where
  "flat_header h = concat (map (\<lambda>(k, vs). map (Pair k) vs) h)"

text \<open>A header map as \<open>net/http\<close> keeps one, with values that can be written on a line.\<close>

definition writable_header :: "header \<Rightarrow> bool" where
  "writable_header h \<longleftrightarrow> header_ok h \<and> list_all (\<lambda>(k, vs). canonical_key k = k \<and> vs \<noteq> [] \<and>
     list_all (\<lambda>v. good_field (k, v) \<and> (v = [] \<or> \<not> is_blank (hd v))) vs) h"

lemma update_last: "k \<notin> fst ` set g \<Longrightarrow> AList.update k v (g @ [(k, w)]) = g @ [(k, v)]"
  by (induction g) auto

lemma update_new: "k \<notin> fst ` set g \<Longrightarrow> AList.update k v g = g @ [(k, v)]"
  by (induction g) auto

lemma mime_map_Cons:
  "mime_map g ((k, v) # kvs) = mime_map (add_value g (canonical_key k) (trim_left_func is_blank v)) kvs"
  by (simp add: mime_map_def)

lemma mime_map_append: "mime_map g (kvs @ kvs') = mime_map (mime_map g kvs) kvs'"
  by (simp add: mime_map_def)

lemma mime_map_values:
  assumes "canonical_key k = k" and "k \<notin> fst ` set g" and "\<forall>v \<in> set vs. v = [] \<or> \<not> is_blank (hd v)"
  shows "mime_map (g @ [(k, ws)]) (map (Pair k) vs) = g @ [(k, ws @ vs)]"
  using assms(3)
proof (induction vs arbitrary: ws)
  case Nil
  then show ?case by (simp add: mime_map_def)
next
  case (Cons v vs)
  have "map_of (g @ [(k, ws)]) k = Some ws" using assms(2) by (simp add: map_add_def map_of_eq_None_iff [THEN iffD2])
  then have "add_value (g @ [(k, ws)]) k v = g @ [(k, ws @ [v])]"
    using assms(2) by (simp add: add_value_def update_last)
  moreover have "trim_left_func is_blank v = v" using Cons.prems by (intro trim_left_func_id) auto
  ultimately show ?case using Cons assms(1) by (simp add: mime_map_Cons)
qed

lemma mime_map_flat:
  assumes "writable_header h" and "header_ok (g @ h)"
  shows "mime_map g (flat_header h) = g @ h"
  using assms
proof (induction h arbitrary: g)
  case Nil
  then show ?case by (simp add: flat_header_def mime_map_def)
next
  case (Cons kv h)
  obtain k vs where kv: "kv = (k, vs)" by (cases kv)
  from Cons.prems(1) kv obtain v ws where v: "vs = v # ws" "canonical_key k = k"
    "\<forall>v \<in> set vs. v = [] \<or> \<not> is_blank (hd v)"
    by (cases vs) (auto simp: writable_header_def list_all_iff)
  have k: "k \<notin> fst ` set g" using Cons.prems(2) kv by auto
  then have "map_of g k = None" by (simp add: map_of_eq_None_iff)
  then have "add_value g k v = g @ [(k, [v])]" using k by (simp add: add_value_def update_new)
  moreover have "trim_left_func is_blank v = v" using v by (intro trim_left_func_id) auto
  ultimately have "mime_map g (map (Pair k) vs) = g @ [(k, vs)]"
    using mime_map_values [OF v(2) k, of ws "[v]"] v by (simp add: mime_map_Cons)
  moreover have "mime_map (g @ [(k, vs)]) (flat_header h) = (g @ [(k, vs)]) @ h"
    using Cons.prems kv by (intro Cons.IH) (auto simp: writable_header_def)
  ultimately show ?case by (simp add: flat_header_def mime_map_append kv)
qed

lemma flat_header_good: "writable_header h \<Longrightarrow> list_all good_field (flat_header h)"
  by (auto simp: writable_header_def flat_header_def list_all_iff)

lemma trim_one_blank: "v \<noteq> [] \<Longrightarrow> \<not> is_blank (hd v) \<Longrightarrow> trim_left_func is_blank (SP # v) = v"
  by (cases v) (simp_all add: trim_left_func_def is_blank_def)

text \<open>The header the server reads.\<close>

lemma mime_map_client:
  assumes "writable_header h" and "map_of h ''Encapsulated'' = None" and "v \<noteq> []" and "\<not> is_blank (hd v)"
  shows "mime_map [] (flat_header h @ [(''Encapsulated'', SP # v)]) = h @ [(''Encapsulated'', [v])]"
    and "hget (h @ [(''Encapsulated'', [v])]) ''Encapsulated'' = v"
    and "hget (h @ [(''Encapsulated'', [v])]) ''Preview'' = hget h ''Preview''"
proof -
  have c: "canonical_key ''Encapsulated'' = ''Encapsulated''" "canonical_key ''Preview'' \<noteq> ''Encapsulated''"
    by code_simp+
  have "''Encapsulated'' \<notin> fst ` set h" using assms(2) by (simp add: map_of_eq_None_iff)
  then have "add_value h ''Encapsulated'' v = h @ [(''Encapsulated'', [v])]"
    using assms(2) by (simp add: add_value_def update_new)
  moreover have "mime_map [] (flat_header h) = h"
    using mime_map_flat [OF assms(1), of "[]"] assms(1) by (simp add: writable_header_def)
  ultimately show "mime_map [] (flat_header h @ [(''Encapsulated'', SP # v)]) = h @ [(''Encapsulated'', [v])]"
    using trim_one_blank [OF assms(3,4)] by (simp add: mime_map_append mime_map_Cons c) (simp add: mime_map_def)
  show "hget (h @ [(''Encapsulated'', [v])]) ''Encapsulated'' = v"
    "hget (h @ [(''Encapsulated'', [v])]) ''Preview'' = hget h ''Preview''"
    using assms(2) c by (auto simp: hget_def map_add_def split: option.splits)
qed

section \<open>The head\<close>

text \<open>What a request must satisfy for its head to be one line and a header: no blank in the URL, no percent sign.\<close>

definition sendable :: "client_lib \<Rightarrow> client_request \<Rightarrow> bool" where
  "sendable lib r \<longleftrightarrow> writable_header (cq_header r) \<and> map_of (cq_header r) ''Encapsulated'' = None \<and>
     (let u = lib_url_string (cl_http lib) (cq_url r) in SP \<notin> set u \<and> LF \<notin> set u \<and> CHR ''%'' \<notin> set u) \<and>
     list_all (\<lambda>(k, v). CHR ''%'' \<notin> set k \<and> CHR ''%'' \<notin> set v) (flat_header (cq_header r))"

lemma flat_lines:
  "concat (map (\<lambda>(k, vs). concat (map (\<lambda>v. k @ '': '' @ v @ crlf) vs)) h) =
     concat (map (\<lambda>(k, v). k @ '': '' @ v @ crlf) (flat_header h))"
  by (induction h) (auto simp: flat_header_def comp_def)

lemma dump_head_wire:
  assumes "sendable lib r" and "cq_method r = ''REQMOD'' \<or> cq_method r = ''RESPMOD''"
  shows "sprintf (cl_fmt lib) (dump_head lib r) [v] @ rest =
    icap_wire (cq_method r) (lib_url_string (cl_http lib) (cq_url r)) icap_version
      (flat_header (cq_header r) @ [(''Encapsulated'', v)]) rest"
proof -
  let ?u = "lib_url_string (cl_http lib) (cq_url r)"
  let ?p = "cq_method r @ SP # ?u @ SP # icap_version @ crlf @
    concat (map (\<lambda>(k, v). k @ '': '' @ v @ crlf) (flat_header (cq_header r))) @ ''Encapsulated: ''"
  have p: "CHR ''%'' \<notin> set ?p"
    using assms by (auto simp: sendable_def Let_def list_all_iff icap_version_def)
  have "dump_head lib r = ?p @ ''%s'' @ crlf @ crlf"
    unfolding dump_head_def flat_lines by simp
  then have "sprintf (cl_fmt lib) (dump_head lib r) [v] = ?p @ v @ sprintf (cl_fmt lib) (crlf @ crlf) []"
    using sprintf_text [OF p, of "cl_fmt lib" "''%s'' @ crlf @ crlf" "[v]"] by (simp add: sprintf_string)
  also have "sprintf (cl_fmt lib) (crlf @ crlf) [] = crlf @ crlf" by (rule sprintf_plain) simp
  finally show ?thesis by (simp add: icap_wire_def mime_wire_def)
qed

lemma sendable_head:
  assumes "sendable lib r" and "cq_method r = ''REQMOD''" and "good_field (''Encapsulated'', v)"
  shows "good_head ''REQMOD'' (lib_url_string (cl_http lib) (cq_url r)) icap_version
    (flat_header (cq_header r) @ [(''Encapsulated'', v)])"
  using assms flat_header_good [of "cq_header r"]
  by (auto simp: good_head_def sendable_def Let_def icap_version_def)

lemma client_encapsulated_reqmod:
  assumes "cq_method r = ''REQMOD''" and "plain_head h"
  shows "client_encapsulated (dump_head lib r) (h @ double_crlf @ b) [] =
    SP # encap_text [(''req-hdr'', 0), (if contains b double_crlf then ''req-body'' else ''null-body'', length h + 4)]"
proof -
  have mm: "has_prefix (dump_head lib r) ''REQMOD''" "\<not> has_prefix (dump_head lib r) ''OPTIONS''"
    using assms(1) by (simp_all add: dump_head_def has_prefix_def)
  let ?f = "find_from (length h + 4) 0 b double_crlf"
  have f: "?f = [] \<longleftrightarrow> \<not> contains b double_crlf"
    using find_from_index [of double_crlf "length h + 4" b]
    by (cases "index_of b double_crlf") (simp_all add: contains_def)
  have z: "itoa 0 = ''0''" by (simp add: itoa_def digits_rev.simps digit_char_def)
  have r: "encapsulated_response n [] = []" for n by (simp add: encapsulated_response_def find_double_crlf_def)
  show ?thesis
  proof (cases ?f)
    case Nil
    with f find_double_crlf_plain [OF assms(2), of b] show ?thesis
      by (simp add: client_encapsulated_def mm encapsulated_request_def r encap_text_def encap_item_def z)
  next
    case (Cons m ms)
    with f find_double_crlf_plain [OF assms(2), of b] show ?thesis
      by (cases m) (simp add: client_encapsulated_def mm encapsulated_request_def r encap_text_def encap_item_def z)
  qed
qed

section \<open>A REQMOD request on the wire\<close>

text \<open>
  What \<open>httputil.DumpRequestOut\<close> promises of the HTTP request \<open>h\<close>: the method, the path as it is escaped in the
  URL, the rest of the head (\<open>rest\<close> starts behind the path), a blank line and the body. There is no other blank
  line in the head, and no slash in the method.
\<close>

definition request_head :: "client_lib \<Rightarrow> http_request \<Rightarrow> string \<Rightarrow> string \<Rightarrow> string" where
  "request_head lib h m rest = m @ SP # lib_url_string (cl_http lib) (rq_url h) @ rest"

definition dumps_as :: "client_lib \<Rightarrow> http_request \<Rightarrow> string \<Rightarrow> string \<Rightarrow> bytes \<Rightarrow> bool" where
  "dumps_as lib h m rest bd \<longleftrightarrow>
     (\<exists>p. (if cl_escaped_path lib (rq_url h) = [] then ''/'' else cl_escaped_path lib (rq_url h)) = CHR ''/'' # p \<and>
       cl_dump_request_out lib h = Inr (m @ SP # CHR ''/'' # p @ rest @ double_crlf @ bd)) \<and>
     CHR ''/'' \<notin> set m \<and> plain_head (request_head lib h m rest)"

lemma index_of_slash:
  "CHR ''/'' \<notin> set a \<Longrightarrow> index_of (a @ CHR ''/'' # p @ b) (CHR ''/'' # p) = Some (length a)"
  by (induction a) (auto simp: has_prefix_def)

lemma replace_request_uri_dumped:
  assumes "dumps_as lib h m rest bd"
  shows "\<exists>b. cl_dump_request_out lib h = Inr b \<and>
    replace_request_uri b (cl_escaped_path lib (rq_url h)) (lib_url_string (cl_http lib) (rq_url h)) =
      request_head lib h m rest @ double_crlf @ bd"
proof -
  from assms obtain p where p: "(if cl_escaped_path lib (rq_url h) = [] then ''/'' else cl_escaped_path lib (rq_url h)) = CHR ''/'' # p"
    "cl_dump_request_out lib h = Inr (m @ SP # CHR ''/'' # p @ rest @ double_crlf @ bd)" and m: "CHR ''/'' \<notin> set (m @ [SP])"
    by (auto simp: dumps_as_def)
  from index_of_slash [OF m, of p "rest @ double_crlf @ bd"] p show ?thesis
    by (auto simp: replace_request_uri_def replace_first_def request_head_def)
qed

text \<open>The Encapsulated value of such a request: a body, or none.\<close>

definition reqmod_encap :: "string \<Rightarrow> string \<Rightarrow> string" where
  "reqmod_encap h b = encap_text [(''req-hdr'', 0), (if contains b double_crlf then ''req-body'' else ''null-body'', length h + 4)]"

lemma dump_reqmod:
  assumes "sendable lib r" and "cq_method r = ''REQMOD''" and "cq_http_request r = Some h" and "cq_http_response r = None"
    and "dumps_as lib h m rest bd" and "chunk_message r (request_head lib h m rest @ double_crlf @ bd) = Done s"
    and "s \<noteq> []" and "pad_double_crlf s = request_head lib h m rest @ double_crlf @ b"
  shows "dump_request lib r = Done (Inr (icap_wire ''REQMOD'' (lib_url_string (cl_http lib) (cq_url r)) icap_version
    (flat_header (cq_header r) @ [(''Encapsulated'', SP # reqmod_encap (request_head lib h m rest) b)])
    (if cq_preview_set r \<and> cq_body_fitted r then add_full_body_indicator (request_head lib h m rest @ double_crlf @ b)
     else request_head lib h m rest @ double_crlf @ b)))"
proof -
  let ?h = "request_head lib h m rest"
  have ph: "plain_head ?h" using assms(5) by (simp add: dumps_as_def)
  have "hget (cq_header r) ''Encapsulated'' = []"
  proof -
    have "canonical_key ''Encapsulated'' = ''Encapsulated''" by code_simp
    with assms(1) show ?thesis by (simp add: hget_def sendable_def)
  qed
  moreover have "dump_http_request lib r = Done (Inr (?h @ double_crlf @ b))"
    using replace_request_uri_dumped [OF assms(5)] assms(2,3,6-8) by (auto simp: dump_http_request_def)
  moreover have "dump_http_response lib r = Done (Inr [])" using assms(4) by (simp add: dump_http_response_def)
  moreover have "set_encapsulated_header_value lib (dump_head lib r) (?h @ double_crlf @ b) [] @ x =
      icap_wire ''REQMOD'' (lib_url_string (cl_http lib) (cq_url r)) icap_version
        (flat_header (cq_header r) @ [(''Encapsulated'', SP # reqmod_encap ?h b)]) x" for x
    using dump_head_wire [OF assms(1), where rest = x] client_encapsulated_reqmod [OF assms(2) ph, where b = b] assms(2)
    by (simp add: set_encapsulated_header_value_def reqmod_encap_def)
  ultimately show ?thesis using assms(2) by (simp add: dump_request_def Let_def)
qed

lemma chunk_message_plain:
  assumes "plain_head h" and "bd \<noteq> []" and "\<not> ends_chunked (if cq_preview_set r then take (nat (cq_preview_bytes r)) bd else bd)"
    and "cq_preview_set r \<Longrightarrow> 0 < cq_preview_bytes r \<and> cq_preview_bytes r \<le> int (length bd)"
  shows "chunk_message r (h @ double_crlf @ bd) = Done (h @ double_crlf @
    chunk_encode (if cq_preview_set r then take (nat (cq_preview_bytes r)) bd else bd) @ ''0'' @ crlf)"
proof -
  have s: "split_body_and_header (h @ double_crlf @ x) = (if x = [] then None else Some (h, x))" for x
    by (rule split_body_and_header_plain [OF assms(1)])
  show ?thesis
    using assms(2-4)
    by (auto simp: chunk_message_def parse_preview_body_bytes_def s body_already_chunked_def merge_header_and_body_def
        add_hexa_encode)
qed

lemma pad_chunked:
  "pad_double_crlf (h @ double_crlf @ chunk_encode bd @ ''0'' @ crlf) = h @ double_crlf @ chunk_encode bd @ ''0'' @ double_crlf"
  using pad_zero_line [of "h @ double_crlf @ hex (length bd) @ crlf @ bd"]
  by (simp add: chunk_encode_def)

lemma digit_value_byte: "is_digit c \<Longrightarrow> valid_value_byte c \<and> \<not> is_blank c"
  by (auto simp: is_digit_def valid_value_byte_def is_blank_def Let_def)

lemma reqmod_encap_good: "good_field (''Encapsulated'', SP # reqmod_encap h b)"
  and reqmod_encap_hd: "reqmod_encap h b \<noteq> [] \<and> \<not> is_blank (hd (reqmod_encap h b))"
proof -
  obtain k where k: "reqmod_encap h b = ''req-hdr='' @ itoa 0 @ '', '' @ k @ ''='' @ itoa (length h + 4)"
    "k = ''req-body'' \<or> k = ''null-body''"
    by (cases "contains b double_crlf") (simp_all add: reqmod_encap_def encap_text_def encap_item_def)
  have d: "list_all valid_value_byte (itoa n)" for n
    using digit_value_byte itoa_digits by (auto simp: list_all_iff)
  have "last (itoa n) \<in> set (itoa n)" for n by simp
  then have l: "\<not> is_blank (last (itoa n))" for n using digit_value_byte itoa_digits by blast
  show "good_field (''Encapsulated'', SP # reqmod_encap h b)"
  proof -
    have "list_all is_token_char ''Encapsulated''" by code_simp
    moreover have "list_all valid_value_byte (SP # ''req-hdr='')" "list_all valid_value_byte ('', '' @ k @ ''='')"
      using k(2) by (auto, code_simp+)
    ultimately show ?thesis using d l by (simp add: good_field_def k(1))
  qed
  show "reqmod_encap h b \<noteq> [] \<and> \<not> is_blank (hd (reqmod_encap h b))"
    by (simp add: k(1) is_blank_def)
qed

section \<open>Chunks of a given length\<close>

text \<open>
  \<open>chunkBodyByBytes\<close> gives the chunk a body is sent as when the length allows one chunk. With a length of zero it
  never ends, with a negative one it panics.
\<close>

lemma chunk_body_one:
  assumes "bdy \<noteq> []" and "int (length bdy) \<le> cl"
  shows "chunk_body_by_bytes bdy cl = Some (Done (add_hexa_body_byte_notations bdy))"
proof -
  let ?c = "hex (length bdy) @ crlf @ bdy"
  have "chunk_loop bdy cl 0 [] = chunk_loop bdy cl cl ?c"
    using assms by (subst chunk_loop.simps) (auto simp: Let_def)
  also have "\<dots> = Some (Done (?c @ body_end_indicator))"
    using assms(2) by (subst chunk_loop.simps) simp
  finally show ?thesis by (simp add: chunk_body_by_bytes_def add_hexa_body_byte_notations_def)
qed

lemma chunk_loop_zero: "chunk_loop bdy cl i acc = Some r \<Longrightarrow> cl = 0 \<longrightarrow> int (length bdy) \<le> i"
  by (erule chunk_loop.raw_induct [rotated, where P = "\<lambda>bdy cl i acc r. cl = 0 \<longrightarrow> int (length bdy) \<le> i"])
    (fastforce simp: Let_def split: if_splits)

lemma chunk_body_stuck: "bdy \<noteq> [] \<Longrightarrow> chunk_body_by_bytes bdy 0 = None"
  using chunk_loop_zero [of bdy 0 0 "[]"]
  by (cases "chunk_body_by_bytes bdy 0") (auto simp: chunk_body_by_bytes_def)

lemma chunk_body_negative: "bdy \<noteq> [] \<Longrightarrow> cl < 0 \<Longrightarrow> \<exists>s. chunk_body_by_bytes bdy cl = Some (Panic s)"
  unfolding chunk_body_by_bytes_def by (subst chunk_loop.simps) (simp add: Let_def)

end
