(* ===== verification/ClientResponse.thy ===== *)
theory ClientResponse
  imports ClientRequest TextProto
begin

text \<open>
  \<open>icap-client/response.go\<close>: the response is read line by line from the text that came from the server. A line
  that mentions a protocol version starts a new part; what a line means depends on the part it is in, and on
  whether the reader has bytes buffered behind it.
\<close>

section \<open>State\<close>

record client_response =
  cs_code :: int
  cs_status :: string
  cs_preview :: int
  cs_header :: header
  cs_request :: "http_request option"
  cs_response :: "http_response option"

datatype msg_scheme = NoScheme | SchemeIcap | SchemeHttpReq | SchemeHttpResp

record read_state =
  rd_scheme :: msg_scheme
  rd_msg :: string
  rd_resp :: client_response

definition new_read_state :: read_state where
  "new_read_state = \<lparr>rd_scheme = NoScheme, rd_msg = [], rd_resp = \<lparr>cs_code = 0, cs_status = [], cs_preview = 0,
     cs_header = [], cs_request = None, cs_response = None\<rparr>\<rparr>"

section \<open>Reading a line\<close>

text \<open>\<open>bufio.Reader.ReadString\<close>: full buffers are collected until the delimiter or an error comes.\<close>

fun read_string :: "'s read_op \<Rightarrow> nat \<Rightarrow> bytes \<Rightarrow> char \<Rightarrow> 's breader \<Rightarrow> bytes \<times> go_error option \<times> 's breader" where
  "read_string rd 0 acc d b = (acc, Some ErrNoProgress, b)"
| "read_string rd (Suc fuel) acc d b =
     (case read_slice rd d b of (l, err, b') \<Rightarrow>
        if err = Some ErrBufferFull then read_string rd fuel (acc @ l) d b' else (acc @ l, err, b'))"

text \<open>\<open>bufio.NewReader(strings.NewReader(msg))\<close>\<close>

definition string_reader :: "string \<Rightarrow> net breader" where
  "string_reader msg = \<lparr>rbuf = [], under = \<lparr>segs = [msg], net_err = EOF\<rparr>\<rparr>"

section \<open>A line of the response\<close>

text \<open>The first line of a part: the status of ICAP, or the kind of the HTTP message that follows.\<close>

definition start_part :: "string \<Rightarrow> read_state \<Rightarrow> go_error + bool \<times> read_state" where
  "start_part l st =
     (let ss = split l '' '' in
      if length ss < 3 then Inl (ErrText (''invalid tcp message:'' @ l))
      else if ss ! 0 = icap_version
      then (case get_status_with_code (ss ! 1) (join (drop 2 ss) '' '') of
              Inl e \<Rightarrow> Inl e
            | Inr (code, status) \<Rightarrow>
                Inr (True, st\<lparr>rd_scheme := SchemeIcap,
                  rd_resp := (rd_resp st)\<lparr>cs_code := code, cs_status := status\<rparr>\<rparr>))
      else (let st1 = (if ss ! 0 = http_version then st\<lparr>rd_scheme := SchemeHttpResp, rd_msg := []\<rparr> else st)
            in Inr (False, if trim_space (ss ! 2) = http_version
                           then st1\<lparr>rd_scheme := SchemeHttpReq, rd_msg := []\<rparr> else st1)))"

definition icap_line :: "string \<Rightarrow> client_response \<Rightarrow> client_response" where
  "icap_line l resp =
     (if l = [LF] \<or> l = crlf then resp
      else (case get_header_val l of (k, v) \<Rightarrow>
              let resp1 = (if k = ''Preview'' then resp\<lparr>cs_preview := fst (atoi v)\<rparr> else resp)
              in resp1\<lparr>cs_header := hadd (cs_header resp1) k v\<rparr>))"

text \<open>A line of an HTTP message: at a blank line, and when nothing is buffered, the text so far is parsed.\<close>

definition http_line :: "client_lib \<Rightarrow> string \<Rightarrow> bool \<Rightarrow> read_state \<Rightarrow> go_error + read_state" where
  "http_line lib l idle st =
     (let msg = rd_msg st @ trim_space l @ crlf; resp = rd_resp st in
      if \<not> (l = crlf \<or> idle) then Inr (st\<lparr>rd_msg := msg\<rparr>)
      else if rd_scheme st = SchemeHttpReq
      then (case lib_read_request (cl_http lib) msg of
              Inl e \<Rightarrow> Inl e
            | Inr q \<Rightarrow> Inr (st\<lparr>rd_msg := msg, rd_resp := resp\<lparr>cs_request := Some q\<rparr>\<rparr>))
      else (case lib_read_response (cl_http lib) msg
                   (case cs_request resp of Some q \<Rightarrow> q | None \<Rightarrow> zero_request\<lparr>rq_method := ''GET''\<rparr>) of
              Inl e \<Rightarrow> Inl e
            | Inr s \<Rightarrow> Inr (st\<lparr>rd_msg := msg, rd_resp := resp\<lparr>cs_response := Some s\<rparr>\<rparr>)))"

definition part_line :: "client_lib \<Rightarrow> string \<Rightarrow> bool \<Rightarrow> read_state \<Rightarrow> go_error + read_state" where
  "part_line lib l idle st =
     (case rd_scheme st of
        NoScheme \<Rightarrow> Inr st
      | SchemeIcap \<Rightarrow> Inr (st\<lparr>rd_resp := icap_line l (rd_resp st)\<rparr>)
      | _ \<Rightarrow> http_line lib l idle st)"

definition response_line :: "client_lib \<Rightarrow> string \<Rightarrow> bool \<Rightarrow> read_state \<Rightarrow> go_error + read_state" where
  "response_line lib l idle st =
     (if is_request_line l
      then (case start_part l st of
              Inl e \<Rightarrow> Inl e
            | Inr (done, st1) \<Rightarrow> if done then Inr st1 else part_line lib l idle st1)
      else part_line lib l idle st)"

section \<open>The loop\<close>

text \<open>The loop goes on while a line comes without error, or with the last text before the end.\<close>

fun read_response_loop :: "client_lib \<Rightarrow> nat \<Rightarrow> read_state \<Rightarrow> net breader \<Rightarrow> (go_error + client_response) option" where
  "read_response_loop lib 0 st b = None"
| "read_response_loop lib (Suc fuel) st b =
     (case read_string net_read (Suc (length (conn_pending b))) [] LF b of (l, err, b') \<Rightarrow>
        if err \<noteq> None \<and> l = [] then Some (Inr (rd_resp st))
        else (case response_line lib l (rbuf b' = []) st of
                Inl e \<Rightarrow> Some (Inl e)
              | Inr st1 \<Rightarrow> read_response_loop lib fuel st1 b'))"

text \<open>Every round takes a byte; one unit of fuel more than there are bytes is enough (\<open>read_response_ends\<close>).\<close>

definition read_response :: "client_lib \<Rightarrow> string \<Rightarrow> go_error + client_response" where
  "read_response lib msg =
     (case read_response_loop lib (Suc (length msg)) new_read_state (string_reader msg) of
        None \<Rightarrow> Inl ErrNoProgress
      | Some r \<Rightarrow> r)"

section \<open>Reading lines\<close>

context source
begin

lemma read_string_line:
  assumes "brep b (l @ d # v) e" and "d \<notin> set l" and "length l < fuel"
  shows "\<exists>b'. read_string rd fuel acc d b = (acc @ l @ [d], None, b') \<and> brep b' v e"
  using assms
proof (induction fuel arbitrary: acc b l)
  case (Suc fuel)
  show ?case
  proof (cases "length l < buf_size")
    case True
    from read_slice_line [OF Suc.prems(1,2) True] show ?thesis by auto
  next
    case False
    define p q where "p = take buf_size l" and "q = drop buf_size l"
    then have l: "l = p @ q" "length p = buf_size" using False by simp_all
    then have t: "take buf_size (l @ d # v) = p" "drop buf_size (l @ d # v) = q @ d # v" by simp_all
    have "d \<notin> set p" "d \<notin> set q" using Suc.prems(2) l by simp_all
    with t False obtain b' where b': "read_slice rd d b = (p, Some ErrBufferFull, b')" "brep b' (q @ d # v) e"
      using read_slice_full [OF Suc.prems(1), of d] by auto
    have "length q < fuel" using Suc.prems(3) l by (simp add: buf_size_def)
    from Suc.IH [OF b'(2) \<open>d \<notin> set q\<close> this, of "acc @ p"] b'(1) l show ?thesis by auto
  qed
qed simp

end

context reader
begin

lemma read_string_end:
  assumes "brep b v e" and "d \<notin> set v" and "length v < fuel" and "e \<noteq> ErrBufferFull"
  shows "\<exists>b'. read_string rd fuel acc d b = (acc @ v, Some e, b') \<and> brep b' [] e"
  using assms(1-3)
proof (induction fuel arbitrary: acc b v)
  case (Suc fuel)
  show ?case
  proof (cases "length v < buf_size")
    case True
    from read_slice_end [OF Suc.prems(1,2) True] assms(4) show ?thesis by auto
  next
    case False
    define p q where "p = take buf_size v" and "q = drop buf_size v"
    then have v: "v = p @ q" "length p = buf_size" using False by simp_all
    have t: "take buf_size v = p" "drop buf_size v = q" by (simp_all add: p_def q_def)
    have "d \<notin> set p" "d \<notin> set q" using Suc.prems(2) v by simp_all
    with t False obtain b' where b': "read_slice rd d b = (p, Some ErrBufferFull, b')" "brep b' q e"
      using read_slice_full [OF Suc.prems(1), of d] by auto
    have "length q < fuel" using Suc.prems(3) v by (simp add: buf_size_def)
    from Suc.IH [OF b'(2) \<open>d \<notin> set q\<close> this, of "acc @ p"] b'(1) v show ?thesis by auto
  qed
qed simp

end

lemma string_reader_brep: "conn.brep (string_reader msg) msg EOF"
  by (simp add: string_reader_def conn_brep_iff conn_pending_def)

text \<open>Any text is a line and the rest, or has no line end.\<close>

lemma first_line_cases:
  obtains l v where "s = l @ LF # v" "LF \<notin> set l" | "LF \<notin> set s"
proof (cases "LF \<in> set s")
  case True
  then obtain l v where "s = l @ LF # v" "LF \<notin> set l" by (rule split_first_occurrence)
  then show ?thesis by (rule that(1))
qed (rule that(2))

text \<open>The loop ends for every text.\<close>

lemma read_response_loop_ends:
  assumes "conn.brep b v EOF" and "length v < fuel"
  shows "read_response_loop lib fuel st b \<noteq> None"
  using assms
proof (induction fuel arbitrary: st b v)
  case (Suc fuel)
  have v: "conn_pending b = v" using Suc.prems(1) by (simp add: conn_brep_iff)
  show ?case
  proof (cases v rule: first_line_cases)
    case (1 l w)
    have "length l < Suc (length v)" using 1 by simp
    from conn.read_string_line [OF Suc.prems(1) [unfolded 1(1)] 1(2) this, where acc = "[]"] obtain b' where
      b': "read_string net_read (Suc (length v)) [] LF b = (l @ [LF], None, b')" "conn.brep b' w EOF" by auto
    have "length w < fuel" using Suc.prems(2) 1(1) by simp
    from Suc.IH [OF b'(2) this] b'(1) v show ?thesis
      by (auto simp del: read_string.simps split: sum.splits)
  next
    case 2
    from conn.read_string_end [OF Suc.prems(1) 2, where fuel = "Suc (length v)" and acc = "[]"] obtain b' where
      b': "read_string net_read (Suc (length v)) [] LF b = (v, Some EOF, b')" "conn.brep b' [] EOF" by auto
    show ?thesis
    proof (cases "v = []")
      case False
      then have "length ([]::bytes) < fuel" using Suc.prems(2) by (cases v) simp_all
      from Suc.IH [OF b'(2) this] b'(1) v False show ?thesis
        by (auto simp del: read_string.simps split: sum.splits)
    qed (use b' v in \<open>simp del: read_string.simps\<close>)
  qed
qed simp

lemma read_response_ends: "read_response_loop lib (Suc (length msg)) new_read_state (string_reader msg) \<noteq> None"
  by (rule read_response_loop_ends [OF string_reader_brep]) simp

section \<open>An ICAP head\<close>

text \<open>Lines that leave the reader in the ICAP part.\<close>

lemma icap_lines:
  assumes "conn.brep b (concat ls) EOF" and "length (concat ls) < fuel" and "rd_scheme st = SchemeIcap"
    and "\<forall>l \<in> set ls. \<exists>t. l = t @ [LF] \<and> LF \<notin> set t" and "\<forall>l \<in> set ls. \<not> is_request_line l"
  shows "read_response_loop lib fuel st b = Some (Inr (fold icap_line ls (rd_resp st)))"
  using assms
proof (induction ls arbitrary: fuel b st)
  case Nil
  then obtain f where f: "fuel = Suc f" by (cases fuel) auto
  have "conn_pending b = []" using Nil.prems(1) by (simp add: conn_brep_iff)
  moreover have "conn.brep b [] EOF" using Nil.prems(1) by simp
  ultimately show ?case
    using conn.read_string_end [of b "[]" EOF LF 1 "[]"] f by (auto simp del: read_string.simps)
next
  case (Cons l ls)
  then obtain f where f: "fuel = Suc f" by (cases fuel) auto
  obtain t where t: "l = t @ [LF]" "LF \<notin> set t" using Cons.prems(4) by auto
  have p: "conn_pending b = concat (l # ls)" using Cons.prems(1) by (simp add: conn_brep_iff)
  have "conn.brep b (t @ LF # concat ls) EOF" using Cons.prems(1) t by simp
  moreover have "length t < Suc (length (concat (l # ls)))" using t by simp
  ultimately obtain b' where b': "read_string net_read (Suc (length (concat (l # ls)))) [] LF b = (l, None, b')"
    "conn.brep b' (concat ls) EOF"
    using conn.read_string_line [of b t LF "concat ls" EOF "Suc (length (concat (l # ls)))" "[]"] t by auto
  let ?st = "st\<lparr>rd_resp := icap_line l (rd_resp st)\<rparr>"
  have "response_line lib l idle st = Inr ?st" for idle
    using Cons.prems(3,5) by (simp add: response_line_def part_line_def)
  moreover have "length (concat ls) < f" using Cons.prems(2) f t by simp
  then have "read_response_loop lib f ?st b' = Some (Inr (fold icap_line ls (rd_resp ?st)))"
    using Cons.prems(3-5) by (intro Cons.IH [OF b'(2)]) simp_all
  ultimately show ?case using b'(1) p f by (simp del: read_string.simps)
qed

lemma trim_space_line: "trim_space s = s \<Longrightarrow> trim_space (s @ crlf) = s"
  and trim_space_value: "trim_space s = s \<Longrightarrow> trim_space (SP # s @ crlf) = s"
proof -
  have sp: "is_space CR" "is_space LF" "is_space SP" by (simp_all add: is_space_def)
  have r: "trim_right_func is_space (x @ crlf) = trim_right_func is_space x" for x
    by (rule trim_right_func_append) (simp add: sp)
  have "trim_space (s @ crlf) = s" if "trim_space s = s"
  proof (cases "s = []")
    case True
    then show ?thesis by (simp add: trim_space_def trim_left_func_def trim_right_func_def sp)
  next
    case False
    have h: "\<not> is_space (hd s)"
    proof
      assume "is_space (hd s)"
      then obtain c cs where "s = c # cs" "is_space c" using False by (cases s) auto
      moreover have "length (trim_space (c # cs)) \<le> length cs" if "is_space c" for c cs
      proof -
        have "length (trim_right_func is_space x) \<le> length x" for x :: string
          unfolding trim_right_func_def using length_dropWhile_le [of is_space "rev x"] by simp
        then have "length (trim_right_func is_space (dropWhile is_space cs)) \<le> length (dropWhile is_space cs)" .
        also have "\<dots> \<le> length cs" by (rule length_dropWhile_le)
        finally show ?thesis using that by (simp add: trim_space_def trim_left_func_def)
      qed
      ultimately have "length (trim_space s) < length s" by (auto simp: less_Suc_eq_le)
      with that show False by simp
    qed
    then have "trim_left_func is_space (s @ crlf) = s @ crlf" "trim_left_func is_space s = s"
      using False by (auto intro!: trim_left_func_id)
    with r [of s] \<open>trim_space s = s\<close> show ?thesis by (simp add: trim_space_def)
  qed
  then show "trim_space s = s \<Longrightarrow> trim_space (s @ crlf) = s" "trim_space s = s \<Longrightarrow> trim_space (SP # s @ crlf) = s"
    by (simp_all add: trim_space_def trim_left_func_def sp)
qed

text \<open>A header field on a line of its own, that names no protocol version.\<close>

definition client_field :: "string \<times> string \<Rightarrow> bool" where
  "client_field kv \<longleftrightarrow> (case kv of (k, v) \<Rightarrow> CHR '':'' \<notin> set k \<and> LF \<notin> set k \<and> LF \<notin> set v \<and> trim_space v = v \<and>
     \<not> is_request_line (k @ '': '' @ v @ crlf))"

definition field_line :: "string \<times> string \<Rightarrow> string" where
  "field_line kv = fst kv @ '': '' @ snd kv @ crlf"

lemma get_header_val_field: "CHR '':'' \<notin> set k \<Longrightarrow> trim_space v = v \<Longrightarrow> get_header_val (k @ '': '' @ v @ crlf) = (k, v)"
  using index_of_char [of "CHR '':''" k "SP # v @ crlf"] by (simp add: get_header_val_def numeral_2_eq_2 trim_space_value)

lemma icap_line_field:
  assumes "client_field (k, v)"
  shows "cs_header (icap_line (field_line (k, v)) resp) = hadd (cs_header resp) k v"
    and "cs_code (icap_line (field_line (k, v)) resp) = cs_code resp"
    and "cs_status (icap_line (field_line (k, v)) resp) = cs_status resp"
    and "cs_request (icap_line (field_line (k, v)) resp) = cs_request resp"
    and "cs_response (icap_line (field_line (k, v)) resp) = cs_response resp"
proof -
  have "k @ '': '' @ v @ crlf \<noteq> [LF]" "k @ '': '' @ v @ crlf \<noteq> crlf" by (cases k; simp)+
  moreover have "get_header_val (k @ '': '' @ v @ crlf) = (k, v)"
    using assms by (intro get_header_val_field) (auto simp: client_field_def)
  ultimately show "cs_header (icap_line (field_line (k, v)) resp) = hadd (cs_header resp) k v"
    "cs_code (icap_line (field_line (k, v)) resp) = cs_code resp"
    "cs_status (icap_line (field_line (k, v)) resp) = cs_status resp"
    "cs_request (icap_line (field_line (k, v)) resp) = cs_request resp"
    "cs_response (icap_line (field_line (k, v)) resp) = cs_response resp"
    unfolding icap_line_def field_line_def fst_conv snd_conv by (simp_all add: Let_def)
qed

lemma fold_icap_fields:
  assumes "\<forall>kv \<in> set kvs. client_field kv"
  shows "cs_header (fold icap_line (map field_line kvs) resp) = foldl (\<lambda>h (k, v). hadd h k v) (cs_header resp) kvs \<and>
    cs_code (fold icap_line (map field_line kvs) resp) = cs_code resp \<and>
    cs_status (fold icap_line (map field_line kvs) resp) = cs_status resp \<and>
    cs_request (fold icap_line (map field_line kvs) resp) = cs_request resp \<and>
    cs_response (fold icap_line (map field_line kvs) resp) = cs_response resp"
  using assms
proof (induction kvs arbitrary: resp)
  case (Cons kv kvs)
  obtain k v where kv: "kv = (k, v)" by (cases kv)
  with Cons.prems have "client_field (k, v)" by simp
  with Cons show ?case by (simp add: kv icap_line_field)
qed simp

lemma status_line_starts:
  assumes "code < 2 ^ 63" and "trim_space status = status"
  shows "start_part (''ICAP/1.0 '' @ itoa code @ SP # status @ crlf) st =
    Inr (True, st\<lparr>rd_scheme := SchemeIcap, rd_resp := (rd_resp st)\<lparr>cs_code := int code, cs_status := status\<rparr>\<rparr>)"
proof -
  let ?r = "split (status @ crlf) '' ''"
  have "SP \<notin> set ''ICAP/1.0''" "SP \<notin> set (itoa code)" using itoa_digits [of SP code] by (auto simp: is_digit_def)
  then have s: "split (''ICAP/1.0 '' @ itoa code @ SP # status @ crlf) '' '' = ''ICAP/1.0'' # itoa code # ?r"
    using split_char_append [of SP "''ICAP/1.0''" "itoa code @ SP # status @ crlf"]
      split_char_append [of SP "itoa code" "status @ crlf"] by simp
  have "?r \<noteq> []" by (rule split_nonempty)
  moreover have "get_status_with_code (itoa code) (join ?r '' '') = Inr (int code, status)"
    using assms by (simp add: get_status_with_code_def atoi_itoa join_split trim_space_line)
  ultimately show ?thesis
    unfolding start_part_def s Let_def by (cases ?r) (simp_all add: icap_version_def)
qed

lemma read_response_head:
  assumes "code < 2 ^ 63" and "trim_space status = status" and "LF \<notin> set status" and "\<forall>kv \<in> set kvs. client_field kv"
  shows "\<exists>resp. read_response lib (''ICAP/1.0 '' @ itoa code @ SP # status @ crlf @ concat (map field_line kvs) @ crlf) = Inr resp \<and>
    cs_code resp = int code \<and> cs_status resp = status \<and> cs_header resp = foldl (\<lambda>h (k, v). hadd h k v) [] kvs \<and>
    cs_request resp = None \<and> cs_response resp = None"
proof -
  let ?l = "''ICAP/1.0 '' @ itoa code @ SP # status @ crlf" and ?ls = "map field_line kvs @ [crlf]"
  let ?msg = "?l @ concat ?ls" and ?t = "''ICAP/1.0 '' @ itoa code @ SP # status @ [CR]"
  have t: "?l = ?t @ [LF]" "LF \<notin> set ?t" using assms(3) itoa_digits [of LF code] by (auto simp: is_digit_def)
  have "conn.brep (string_reader ?msg) (?t @ LF # concat ?ls) EOF" using string_reader_brep [of ?msg] by simp
  from conn.read_string_line [OF this t(2), where fuel = "Suc (length ?msg)" and acc = "[]"] obtain b where
    b: "read_string net_read (Suc (length ?msg)) [] LF (string_reader ?msg) = (?l, None, b)" "conn.brep b (concat ?ls) EOF"
    by auto
  have p: "conn_pending (string_reader ?msg) = ?msg" by (simp add: string_reader_def conn_pending_def)
  let ?st = "new_read_state\<lparr>rd_scheme := SchemeIcap,
      rd_resp := (rd_resp new_read_state)\<lparr>cs_code := int code, cs_status := status\<rparr>\<rparr>"
  have "is_request_line ?l" by (simp add: is_request_line_def contains_def icap_version_def has_prefix_def)
  then have r: "response_line lib ?l idle new_read_state = Inr ?st" for idle
    using status_line_starts [OF assms(1,2)] by (simp add: response_line_def)
  have nl: "\<not> is_request_line crlf" by code_simp
  have "\<forall>l \<in> set ?ls. \<not> is_request_line l" using assms(4) nl by (auto simp: client_field_def field_line_def)
  moreover have "\<exists>t. field_line (k, v) = t @ [LF] \<and> LF \<notin> set t" if "client_field (k, v)" for k v
    using that by (intro exI [of _ "k @ '': '' @ v @ [CR]"]) (auto simp: client_field_def field_line_def)
  then have "\<forall>l \<in> set ?ls. \<exists>t. l = t @ [LF] \<and> LF \<notin> set t" using assms(4) by (fastforce intro: exI [of _ "[CR]"])
  moreover have "length (concat ?ls) < length ?msg" by simp
  moreover have "rd_scheme ?st = SchemeIcap" by simp
  moreover note icap_lines [OF b(2), where fuel = "length ?msg" and st = ?st]
  ultimately have loop: "read_response_loop lib (length ?msg) ?st b = Some (Inr (fold icap_line ?ls (rd_resp ?st)))"
    by blast
  have "read_response_loop lib (Suc n) new_read_state (string_reader ?msg) = read_response_loop lib n ?st b" for n
    unfolding read_response_loop.simps p b(1) r prod.case by simp
  from this [of "length ?msg"] loop have "read_response lib ?msg = Inr (fold icap_line ?ls (rd_resp ?st))"
    unfolding read_response_def by (simp only: option.case)
  moreover have "icap_line crlf x = x" for x by (simp add: icap_line_def)
  ultimately show ?thesis
    using fold_icap_fields [OF assms(4), of "rd_resp ?st"] by (simp add: new_read_state_def)
qed

end
