(* ===== verification/IcapClient.thy ===== *)
theory IcapClient
  imports ClientResponse
begin

text \<open>
  \<open>transport.go\<close>, \<open>driver.go\<close> and \<open>client.go\<close>: the socket, the driver that owns it, and the exchange with the
  server. A socket is what the peer will send (\<open>sk_in\<close>, with the error that ends it: end of stream or the
  expired deadline) and what has been sent to it.
\<close>

section \<open>Transport\<close>

record socket =
  sk_in :: net
  sk_out :: bytes
  sk_write_err :: "go_error option"
  sk_close_err :: "go_error option"
  sk_open :: bool

record transport =
  tr_network :: string
  tr_addr :: string
  tr_timeout :: int
  tr_read_timeout :: int
  tr_write_timeout :: int
  tr_sckt :: "socket option"

text \<open>
  The network: \<open>net.DialTimeout\<close> and \<open>DialContext\<close> (the flag) with the two deadlines, and how long the peer
  is waited for is in the socket they give.
\<close>

type_synonym dialer = "bool \<Rightarrow> transport \<Rightarrow> go_error + socket"

definition transport_dial :: "dialer \<Rightarrow> transport \<Rightarrow> go_error option \<times> transport" where
  "transport_dial dial t =
     (case dial False t of Inl e \<Rightarrow> (Some e, t) | Inr s \<Rightarrow> (None, t\<lparr>tr_sckt := Some s\<rparr>))"

definition transport_dial_with_context :: "dialer \<Rightarrow> transport \<Rightarrow> go_error option \<times> transport" where
  "transport_dial_with_context dial t =
     (case dial True t of Inl e \<Rightarrow> (Some e, t) | Inr s \<Rightarrow> (None, t\<lparr>tr_sckt := Some s\<rparr>))"

text \<open>A socket that was never opened is nil.\<close>

definition with_socket :: "transport \<Rightarrow> (socket \<Rightarrow> 'a) \<Rightarrow> 'a outcome" where
  "with_socket t f = (case tr_sckt t of None \<Rightarrow> Panic ''nil socket'' | Some s \<Rightarrow> Done (f s))"

definition transport_write :: "bytes \<Rightarrow> transport \<Rightarrow> (go_error option \<times> transport) outcome" where
  "transport_write data t =
     with_socket t (\<lambda>s. case sk_write_err s of
        Some e \<Rightarrow> (Some e, t)
      | None \<Rightarrow> (None, t\<lparr>tr_sckt := Some (s\<lparr>sk_out := sk_out s @ data\<rparr>)\<rparr>))"

definition icap_100_continue :: string where
  "icap_100_continue = ''ICAP/1.0 100 Continue'' @ double_crlf"

definition icap_204_no_mods :: string where
  "icap_204_no_mods = ''ICAP/1.0 204 No modifications''"

text \<open>When the loop takes the data for a whole response.\<close>

definition response_complete :: "bytes \<Rightarrow> bool" where
  "response_complete data \<longleftrightarrow>
     data = icap_100_continue \<or> has_suffix data (''0'' @ double_crlf) \<or> contains data icap_204_no_mods"

fun read_loop :: "nat \<Rightarrow> bytes \<Rightarrow> net \<Rightarrow> ((go_error + bytes) \<times> net) option" where
  "read_loop 0 data s = None"
| "read_loop (Suc fuel) data s =
     (case net_read 1096 s of (bs, err, s') \<Rightarrow>
        (case err of
           Some e \<Rightarrow> Some (if e = EOF then Inr data else Inl e, s')
         | None \<Rightarrow>
             if bs = [] then Some (Inr data, s')
             else if response_complete (data @ bs) then Some (Inr (data @ bs), s')
             else read_loop fuel (data @ bs) s'))"

text \<open>Every round takes a byte, so this fuel is enough (\<open>read_loop_ends\<close>).\<close>

definition read_fuel :: "net \<Rightarrow> nat" where
  "read_fuel s = Suc (length (concat (segs s)))"

definition transport_read :: "transport \<Rightarrow> ((go_error + bytes) \<times> transport) outcome" where
  "transport_read t =
     with_socket t (\<lambda>s. case read_loop (read_fuel (sk_in s)) [] (sk_in s) of
        None \<Rightarrow> (Inl ErrNoProgress, t)
      | Some (r, i) \<Rightarrow> (r, t\<lparr>tr_sckt := Some (s\<lparr>sk_in := i\<rparr>)\<rparr>))"

definition transport_close :: "transport \<Rightarrow> (go_error option \<times> transport) outcome" where
  "transport_close t = with_socket t (\<lambda>s. (sk_close_err s, t\<lparr>tr_sckt := Some (s\<lparr>sk_open := False\<rparr>)\<rparr>))"

section \<open>Driver\<close>

record driver =
  dr_host :: string
  dr_port :: int
  dr_dialer_timeout :: int
  dr_read_timeout :: int
  dr_write_timeout :: int
  dr_tcp :: "transport option"

definition new_driver :: "string \<Rightarrow> int \<Rightarrow> driver" where
  "new_driver host port = \<lparr>dr_host = host, dr_port = port, dr_dialer_timeout = 0, dr_read_timeout = 0,
     dr_write_timeout = 0, dr_tcp = None\<rparr>"

definition driver_transport :: "driver \<Rightarrow> transport" where
  "driver_transport d = \<lparr>tr_network = ''tcp'', tr_addr = dr_host d @ '':'' @ itoa_int (dr_port d),
     tr_timeout = dr_dialer_timeout d, tr_read_timeout = dr_read_timeout d, tr_write_timeout = dr_write_timeout d,
     tr_sckt = None\<rparr>"

definition driver_connect :: "dialer \<Rightarrow> driver \<Rightarrow> go_error option \<times> driver" where
  "driver_connect dial d =
     (case transport_dial dial (driver_transport d) of (err, t) \<Rightarrow> (err, d\<lparr>dr_tcp := Some t\<rparr>))"

definition driver_connect_with_context :: "dialer \<Rightarrow> driver \<Rightarrow> go_error option \<times> driver" where
  "driver_connect_with_context dial d =
     (case transport_dial_with_context dial (driver_transport d) of (err, t) \<Rightarrow> (err, d\<lparr>dr_tcp := Some t\<rparr>))"

definition with_tcp :: "driver \<Rightarrow> (transport \<Rightarrow> ('a \<times> transport) outcome) \<Rightarrow> ('a \<times> driver) outcome" where
  "with_tcp d f =
     (case dr_tcp d of
        None \<Rightarrow> Panic ''nil transport''
      | Some t \<Rightarrow> bind_outcome (f t) (\<lambda>(x, t1). Done (x, d\<lparr>dr_tcp := Some t1\<rparr>)))"

definition driver_close :: "driver \<Rightarrow> (go_error option \<times> driver) outcome" where
  "driver_close d =
     (if dr_tcp d = None then Done (Some (ErrText ''no open connection to close''), d) else with_tcp d transport_close)"

definition driver_send :: "bytes \<Rightarrow> driver \<Rightarrow> (go_error option \<times> driver) outcome" where
  "driver_send data d = with_tcp d (transport_write data)"

definition driver_receive :: "client_lib \<Rightarrow> driver \<Rightarrow> ((go_error + client_response) \<times> driver) outcome" where
  "driver_receive lib d =
     bind_outcome (with_tcp d transport_read) (\<lambda>(r, d1).
       Done (case r of Inl e \<Rightarrow> Inl e | Inr msg \<Rightarrow> read_response lib msg, d1))"

section \<open>Client\<close>

record client =
  cc_driver :: "driver option"
  cc_timeout :: int

definition default_timeout :: int where "default_timeout = 15 * 10 ^ 9"

definition set_driver :: "driver \<Rightarrow> client \<Rightarrow> client" where
  "set_driver d c = c\<lparr>cc_driver := Some d\<rparr>"

text \<open>\<open>setDefaultTimeouts\<close>, for a client that has a driver.\<close>

definition set_default_timeouts :: "client \<Rightarrow> client" where
  "set_default_timeouts c =
     (let tm = (if cc_timeout c = 0 then default_timeout else cc_timeout c); dflt = (\<lambda>v. if v = 0 then tm else v)
      in c\<lparr>cc_timeout := tm, cc_driver := map_option (\<lambda>d. d\<lparr>dr_dialer_timeout := dflt (dr_dialer_timeout d),
           dr_read_timeout := dflt (dr_read_timeout d), dr_write_timeout := dflt (dr_write_timeout d)\<rparr>) (cc_driver c)\<rparr>)"

text \<open>The bytes \<open>DoRemaining\<close> sends.\<close>

definition remaining_data :: "client_request \<Rightarrow> bytes" where
  "remaining_data r =
     (if body_already_chunked (cq_remaining r) then cq_remaining r else add_hexa_body_byte_notations (cq_remaining r))"

definition send_and_receive :: "client_lib \<Rightarrow> bytes \<Rightarrow> driver \<Rightarrow> ((go_error + client_response) \<times> driver) outcome" where
  "send_and_receive lib data d =
     bind_outcome (driver_send data d) (\<lambda>(err, d1).
       case err of Some e \<Rightarrow> Done (Inl e, d1) | None \<Rightarrow> driver_receive lib d1)"

definition do_remaining :: "client_lib \<Rightarrow> client_request \<Rightarrow> driver \<Rightarrow> ((go_error + client_response) \<times> driver) outcome" where
  "do_remaining lib r d = send_and_receive lib (remaining_data r) d"

definition awaits_remaining :: "client_request \<Rightarrow> client_response \<Rightarrow> bool" where
  "awaits_remaining r resp \<longleftrightarrow> cs_code resp = 100 \<and> \<not> cq_body_fitted r \<and> cq_preview_set r"

text \<open>The exchange on an open connection, before it is closed by the deferred call.\<close>

definition exchange :: "client_lib \<Rightarrow> client_request \<Rightarrow> driver \<Rightarrow> ((go_error + client_response) \<times> driver) outcome" where
  "exchange lib r d =
     bind_outcome (dump_request lib r) (\<lambda>dump. case dump of Inl e \<Rightarrow> Done (Inl e, d) | Inr data \<Rightarrow>
     bind_outcome (send_and_receive lib data d) (\<lambda>(res, d1).
       case res of Inl e \<Rightarrow> Done (Inl e, d1)
       | Inr resp \<Rightarrow> if awaits_remaining r resp then do_remaining lib r d1 else Done (Inr resp, d1)))"

text \<open>\<open>Do\<close>. A driver of the caller is used as it is; otherwise one is made for the host and port of the URL.\<close>

definition client_do :: "client_lib \<Rightarrow> dialer \<Rightarrow> (url \<Rightarrow> string \<times> string) \<Rightarrow> client \<Rightarrow> client_request \<Rightarrow>
    ((go_error + client_response) \<times> client_request \<times> client) outcome" where
  "client_do lib dial host_port c r =
     (case (case cc_driver c of
              Some d \<Rightarrow> Inr c
            | None \<Rightarrow> (case host_port (cq_url r) of (host, p) \<Rightarrow>
                (case atoi p of (_, Some e) \<Rightarrow> Inl e | (port, None) \<Rightarrow> Inr (c\<lparr>cc_driver := Some (new_driver host port)\<rparr>)))) of
        Inl e \<Rightarrow> Done (Inl e, r, c)
      | Inr c1 \<Rightarrow>
          (let c2 = set_default_timeouts c1;
               (err, d) = (if cq_ctx r then driver_connect_with_context dial (the (cc_driver c2))
                           else driver_connect dial (the (cc_driver c2)))
           in case err of
                Some e \<Rightarrow> Done (Inl e, r, c2\<lparr>cc_driver := Some d\<rparr>)
              | None \<Rightarrow>
                  (let r1 = set_default_request_headers lib r in
                   bind_outcome (exchange lib r1 d) (\<lambda>(res, d1).
                   bind_outcome (driver_close d1) (\<lambda>(_, d2). Done (res, r1, c2\<lparr>cc_driver := Some d2\<rparr>))))))"

section \<open>Reading the socket\<close>

text \<open>What the reading loop makes of the segments: the data at the first end of a segment that looks complete.\<close>

fun first_complete :: "bytes \<Rightarrow> bytes list \<Rightarrow> (bytes \<times> bytes list) option" where
  "first_complete data [] = None"
| "first_complete data (s # ss) =
     (if response_complete (data @ s) then Some (data @ s, ss) else first_complete (data @ s) ss)"

lemma net_read_segment:
  "s \<noteq> [] \<Longrightarrow> length s \<le> 1096 \<Longrightarrow> net_read 1096 \<lparr>segs = s # ss, net_err = e\<rparr> = (s, None, \<lparr>segs = ss, net_err = e\<rparr>)"
  by (simp add: net_read_def)

lemma read_loop_segments:
  assumes "\<forall>s \<in> set ss. s \<noteq> [] \<and> length s \<le> 1096" and "length (concat ss) < fuel"
  shows "read_loop fuel data \<lparr>segs = ss, net_err = e\<rparr> =
    (case first_complete data ss of
       Some (d, rest) \<Rightarrow> Some (Inr d, \<lparr>segs = rest, net_err = e\<rparr>)
     | None \<Rightarrow> Some (if e = EOF then Inr (data @ concat ss) else Inl e, \<lparr>segs = [], net_err = e\<rparr>))"
  using assms
proof (induction ss arbitrary: data fuel)
  case Nil
  then obtain f where "fuel = Suc f" by (cases fuel) auto
  then show ?case by (simp add: net_read_def)
next
  case (Cons s ss)
  then obtain f where f: "fuel = Suc f" by (cases fuel) auto
  have s: "s \<noteq> []" "length s \<le> 1096" using Cons.prems(1) by simp_all
  then have "length (concat ss) < f" using Cons.prems(2) f by (cases s) auto
  with Cons.IH [of f "data @ s"] Cons.prems(1) s f show ?case by (simp add: net_read_segment split: option.split)
qed

lemma read_loop_ends:
  assumes "net_rep s v e" and "length v < fuel"
  shows "read_loop fuel data s \<noteq> None"
  using assms
proof (induction fuel arbitrary: s v data)
  case (Suc fuel)
  show ?case
  proof (cases "v = []")
    case True
    with conn.read_end [of s e 1096] Suc.prems(1) show ?thesis by auto
  next
    case False
    with conn.read_some [OF Suc.prems(1), of 1096] obtain ch s' v' where
      r: "net_read 1096 s = (ch, None, s')" "ch \<noteq> []" "v = ch @ v'" "net_rep s' v' e" by auto
    then have "length v' < fuel" using Suc.prems(2) by (cases ch) auto
    from Suc.IH [OF r(4) this] r(1) show ?thesis by simp
  qed
qed simp

lemma transport_read_ends: "read_loop (read_fuel s) [] s \<noteq> None"
  by (rule read_loop_ends [where v = "concat (segs s)" and e = "net_err s"]) (simp_all add: net_rep_def read_fuel_def)

text \<open>A driver on an open socket.\<close>

definition connected :: "driver \<Rightarrow> socket \<Rightarrow> bool" where
  "connected d s \<longleftrightarrow> (\<exists>t. dr_tcp d = Some t \<and> tr_sckt t = Some s)"

lemma driver_send_connected:
  assumes "connected d s" and "sk_write_err s = None"
  shows "\<exists>d'. driver_send data d = Done (None, d') \<and> connected d' (s\<lparr>sk_out := sk_out s @ data\<rparr>)"
  using assms by (auto simp: connected_def driver_send_def with_tcp_def transport_write_def with_socket_def)

text \<open>What receiving gives for the input of a socket, and the input that is left.\<close>

definition received :: "client_lib \<Rightarrow> net \<Rightarrow> (go_error + client_response) \<times> net" where
  "received lib n =
     (case read_loop (read_fuel n) [] n of
        Some (r, i) \<Rightarrow> (case r of Inl e \<Rightarrow> Inl e | Inr msg \<Rightarrow> read_response lib msg, i)
      | None \<Rightarrow> (Inl ErrNoProgress, n))"

lemma driver_receive_connected:
  assumes "connected d s"
  shows "\<exists>d'. driver_receive lib d = Done (fst (received lib (sk_in s)), d') \<and>
    connected d' (s\<lparr>sk_in := snd (received lib (sk_in s))\<rparr>)"
proof -
  obtain r i where "read_loop (read_fuel (sk_in s)) [] (sk_in s) = Some (r, i)"
    using transport_read_ends [of "sk_in s"] by (cases "read_loop (read_fuel (sk_in s)) [] (sk_in s)") auto
  with assms show ?thesis
    by (auto simp: connected_def driver_receive_def with_tcp_def transport_read_def with_socket_def received_def)
qed

lemma received_segments:
  assumes "\<forall>s \<in> set ss. s \<noteq> [] \<and> length s \<le> 1096"
  shows "received lib \<lparr>segs = ss, net_err = e\<rparr> =
    (case first_complete [] ss of
       Some (data, rest) \<Rightarrow> (read_response lib data, \<lparr>segs = rest, net_err = e\<rparr>)
     | None \<Rightarrow> (if e = EOF then read_response lib (concat ss) else Inl e, \<lparr>segs = [], net_err = e\<rparr>))"
proof -
  have "length (concat ss) < read_fuel \<lparr>segs = ss, net_err = e\<rparr>" by (simp add: read_fuel_def)
  from read_loop_segments [OF assms this, of "[]" e] show ?thesis
    by (auto simp: received_def split: option.splits prod.splits)
qed

text \<open>The client takes the response for complete at the end of the first segment after which the data is the
  \<open>100 Continue\<close> message, ends in a zero and a blank line, or has the text of a \<open>204\<close> somewhere: with other cuts of the
  same bytes it stops earlier or later. When no such segment comes, all of it is the response if the peer closes,
  and otherwise the deadline is reported and the data is dropped, however whole the response was.\<close>

lemma client_read_framing:
  assumes "\<forall>s \<in> set ss. s \<noteq> [] \<and> length s \<le> 1096" and "connected d s" and "sk_in s = \<lparr>segs = ss, net_err = e\<rparr>"
  shows "\<exists>d'. driver_receive lib d = Done
    (case first_complete [] ss of
       Some (data, rest) \<Rightarrow> read_response lib data
     | None \<Rightarrow> if e = EOF then read_response lib (concat ss) else Inl e, d')"
  using driver_receive_connected [OF assms(2), of lib] received_segments [OF assms(1), of lib e] assms(3)
  by (auto split: option.splits prod.splits)

section \<open>The exchange\<close>


text \<open>C23: What the client sends is the dumped request, and behind it the rest of the body exactly when its preview was
  cut off and the server answers 100; the result is then what comes next, and the first response otherwise.\<close>

theorem client_exchange_sends:
  assumes "connected d s" and "sk_write_err s = None" and "dump_request lib r = Done (Inr data)"
  shows "\<exists>d' s'. connected d' s' \<and>
    (case received lib (sk_in s) of
       (Inl e, i) \<Rightarrow> exchange lib r d = Done (Inl e, d') \<and> sk_out s' = sk_out s @ data
     | (Inr resp, i) \<Rightarrow>
         if cs_code resp = 100 \<and> cq_preview_set r \<and> \<not> cq_body_fitted r
         then exchange lib r d = Done (fst (received lib i), d') \<and> sk_out s' = sk_out s @ data @ remaining_data r
         else exchange lib r d = Done (Inr resp, d') \<and> sk_out s' = sk_out s @ data)"
proof -
  have sr: "\<exists>d'. send_and_receive lib x d0 = Done (fst (received lib (sk_in s0)), d') \<and>
      connected d' (s0\<lparr>sk_out := sk_out s0 @ x, sk_in := snd (received lib (sk_in s0))\<rparr>)"
    if c: "connected d0 s0" "sk_write_err s0 = None" for d0 s0 x
  proof -
    from driver_send_connected [OF c] obtain d1 where
      d1: "driver_send x d0 = Done (None, d1)" "connected d1 (s0\<lparr>sk_out := sk_out s0 @ x\<rparr>)" by blast
    from driver_receive_connected [OF d1(2), of lib] d1(1) show ?thesis by (simp add: send_and_receive_def)
  qed
  obtain first i where f: "received lib (sk_in s) = (first, i)" by force
  from sr [OF assms(1,2), of data] f obtain d1 where
    d1: "send_and_receive lib data d = Done (first, d1)" "connected d1 (s\<lparr>sk_out := sk_out s @ data, sk_in := i\<rparr>)"
    by auto
  show ?thesis
  proof (cases first)
    case (Inl e)
    with d1 f assms(3) show ?thesis by (fastforce simp: exchange_def)
  next
    case (Inr resp)
    show ?thesis
    proof (cases "awaits_remaining r resp")
      case True
      from sr [OF d1(2), of "remaining_data r"] assms(2) obtain d2 where
        "do_remaining lib r d1 = Done (fst (received lib i), d2)"
        "connected d2 (s\<lparr>sk_out := (sk_out s @ data) @ remaining_data r, sk_in := snd (received lib i)\<rparr>)"
        by (auto simp: do_remaining_def)
      with Inr True d1 f assms(3) show ?thesis by (fastforce simp: exchange_def awaits_remaining_def)
    next
      case False
      with Inr d1 f assms(3) show ?thesis by (fastforce simp: exchange_def awaits_remaining_def)
    qed
  qed
qed

definition sample_socket :: "bytes list \<Rightarrow> socket" where
  "sample_socket ss = \<lparr>sk_in = \<lparr>segs = ss, net_err = ErrText ''i/o timeout''\<rparr>, sk_out = [], sk_write_err = None,
     sk_close_err = None, sk_open = True\<rparr>"

definition sample_driver :: "bytes list \<Rightarrow> driver" where
  "sample_driver ss = (new_driver ''h'' 1344)\<lparr>dr_tcp :=
     Some ((driver_transport (new_driver ''h'' 1344))\<lparr>tr_sckt := Some (sample_socket ss)\<rparr>)\<rparr>"

lemma sample_connected: "connected (sample_driver ss) (sample_socket ss)"
  by (simp add: connected_def sample_driver_def)

text \<open>The same response, cut behind its ICAP head, is read without the HTTP request it carries.\<close>

lemma client_read_framing_witness:
  "\<exists>d'. driver_receive sample_client_lib (sample_driver [''ICAP/1.0 200 OK'' @ crlf @ ''Encapsulated: req-hdr=0, null-body=30'' @
      double_crlf, ''GET / HTTP/1.1'' @ double_crlf]) =
    Done (read_response sample_client_lib (''ICAP/1.0 200 OK'' @ crlf @ ''Encapsulated: req-hdr=0, null-body=30'' @ double_crlf), d')"
proof -
  let ?s = "''ICAP/1.0 200 OK'' @ crlf @ ''Encapsulated: req-hdr=0, null-body=30'' @ double_crlf"
  let ?ss = "[?s, ''GET / HTTP/1.1'' @ double_crlf]"
  have "has_suffix (([] @ ''ICAP/1.0 200 OK'' @ crlf @ ''Encapsulated: req-hdr=0, null-body=3'') @ ''0'' @ double_crlf) (''0'' @ double_crlf)"
    by (rule has_suffix_append)
  then have "response_complete ([] @ ?s)" by (simp add: response_complete_def)
  then have f: "first_complete [] ?ss = Some (?s, [''GET / HTTP/1.1'' @ double_crlf])" by simp
  have "sk_in (sample_socket ?ss) = \<lparr>segs = ?ss, net_err = ErrText ''i/o timeout''\<rparr>" by (simp add: sample_socket_def)
  from client_read_framing [OF _ sample_connected this, of sample_client_lib] show ?thesis
    unfolding f by simp
qed

lemma client_exchange_sends_witness:
  "\<exists>data d' s'. dump_request sample_client_lib (sample_client_request\<lparr>cq_preview_set := True, cq_preview_bytes := 3, cq_remaining := ''lo''\<rparr>) =
      Done (Inr data) \<and> connected d' s' \<and> sk_out s' = data @ ''2'' @ crlf @ ''lo'' @ crlf @ ''0'' @ crlf"
proof -
  let ?r = "sample_client_request\<lparr>cq_preview_set := True, cq_preview_bytes := 3, cq_remaining := ''lo''\<rparr>"
  let ?ss = "[''ICAP/1.0 100 Continue'' @ double_crlf]"
  have "(case dump_request sample_client_lib ?r of Done (Inr w) \<Rightarrow> True | _ \<Rightarrow> False)" by code_simp
  then obtain data where data: "dump_request sample_client_lib ?r = Done (Inr data)"
    by (auto split: outcome.splits sum.splits)
  have i: "itoa 100 = ''100''" by (simp add: itoa_def digits_rev.simps digit_char_def)
  have "trim_space ''Continue'' = ''Continue''" by code_simp
  from read_response_head [of 100 "''Continue''" "[]" sample_client_lib, OF _ this] obtain resp where
    resp: "read_response sample_client_lib icap_100_continue = Inr resp" "cs_code resp = 100"
    by (auto simp: i icap_100_continue_def double_crlf_def)
  have ss: "?ss = [icap_100_continue]" by (simp add: icap_100_continue_def)
  have "first_complete [] ?ss = Some (icap_100_continue, [])" unfolding ss by (simp add: response_complete_def)
  then have r: "received sample_client_lib (sk_in (sample_socket ?ss)) =
      (Inr resp, \<lparr>segs = [], net_err = ErrText ''i/o timeout''\<rparr>)"
    using received_segments [of ?ss sample_client_lib "ErrText ''i/o timeout''"] resp(1) by (simp add: sample_socket_def)
  have rem: "remaining_data ?r = ''2'' @ crlf @ ''lo'' @ crlf @ ''0'' @ crlf" by code_simp
  have p: "cq_preview_set ?r \<and> \<not> cq_body_fitted ?r" by (simp add: sample_client_request_def)
  have "sk_write_err (sample_socket ?ss) = None" "sk_out (sample_socket ?ss) = []" by (simp_all add: sample_socket_def)
  with client_exchange_sends [OF sample_connected _ data, of ?ss] r resp(2) p rem data show ?thesis by auto
qed

end
