(* ===== verification/ClientServer.thy ===== *)
theory ClientServer
  imports ClientWire IcapClient
begin

text \<open>
  The client against the server of this repository: the server's parser on what \<open>DumpRequest\<close> writes. Both use
  the same standard library, so that a text the client prints is parsed by the functions the server parses with.
\<close>

section \<open>The server on a dumped request\<close>

text \<open>What the server's parsers make of the URL and of the head of the HTTP request.\<close>

definition server_parses :: "client_lib \<Rightarrow> client_request \<Rightarrow> string \<Rightarrow> url \<Rightarrow> http_request \<Rightarrow> bool" where
  "server_parses lib r hd_text ur q \<longleftrightarrow>
     lib_parse_request_uri (cl_http lib) (lib_url_string (cl_http lib) (cq_url r)) = Inr ur \<and>
     lib_read_request (cl_http lib) (hd_text @ double_crlf) = Inr q \<and>
     length hd_text + 4 \<le> nat max_alloc \<and> (\<forall>l. 0 < lib_room (cl_http lib) l)"

definition dumped_head :: "client_lib \<Rightarrow> client_request \<Rightarrow> url \<Rightarrow> string \<Rightarrow> icap_request" where
  "dumped_head lib r ur enc = new_icap_request\<lparr>ir_method := ''REQMOD'',
     ir_rawurl := lib_url_string (cl_http lib) (cq_url r), ir_proto := icap_version, ir_url := ur,
     ir_header := cq_header r @ [(''Encapsulated'', [enc])]\<rparr>"

lemma server_reads_dumped:
  assumes "sendable lib r" and "cq_method r = ''REQMOD''" and "server_parses lib r h ur q"
    and "length (rbuf b) \<le> buf_size"
    and "conn_pending b = icap_wire ''REQMOD'' (lib_url_string (cl_http lib) (cq_url r)) icap_version
           (flat_header (cq_header r) @ [(''Encapsulated'', SP # reqmod_encap h x)]) (h @ double_crlf @ rest)"
  shows "\<exists>b'. length (rbuf b') \<le> buf_size \<and> conn_pending b' = rest \<and> read_icap_request (cl_http lib) b =
    (case read_body_part (cl_http lib) (contains x double_crlf) (dumped_head lib r ur (reqmod_encap h x)) b' of
       (Inl err, b4) \<Rightarrow> Done (Inl err, b4)
     | (Inr (req1, bd), b4) \<Rightarrow> Done (Inr (req1\<lparr>ir_request := Some (q\<lparr>rq_body := bd\<rparr>)\<rparr>), b4))"
proof -
  let ?kvs = "flat_header (cq_header r) @ [(''Encapsulated'', SP # reqmod_encap h x)]"
  let ?k = "if contains x double_crlf then ''req-body'' else ''null-body''"
  note hd = reqmod_encap_hd [of h x]
  have w: "writable_header (cq_header r)" "map_of (cq_header r) ''Encapsulated'' = None"
    using assms(1) by (simp_all add: sendable_def)
  note mm = mime_map_client [OF w, of "reqmod_encap h x"]
  have e: "hget (mime_map [] ?kvs) ''Encapsulated'' = encap_text [(''req-hdr'', 0), (?k, length (h @ double_crlf))]"
    using mm(1,2) hd by (simp add: reqmod_encap_def)
  have k: "?k \<in> {''req-body'', ''null-body''}" "?k \<noteq> ''null-body'' \<longleftrightarrow> contains x double_crlf" by simp_all
  note g = sendable_head [OF assms(1,2) reqmod_encap_good]
  have "conn_pending b = icap_wire ''REQMOD'' (lib_url_string (cl_http lib) (cq_url r)) icap_version ?kvs
      ((h @ double_crlf) @ rest)" using assms(5) by simp
  from read_reqmod [where lib = "cl_http lib" and ur = ur and r = q, OF g _ e k(1) _ _ _ assms(4) this] assms(3) mm(1) hd k(2) show ?thesis
    by (auto simp: server_parses_def dumped_head_def)
qed

section \<open>Properties\<close>

text \<open>C21: A REQMOD request the client writes is the request the server of this repository reads: same URL, same
  ICAP header, the HTTP request that was dumped (with the whole URL in its request line), and a body that reads
  as the body of the HTTP request, whatever the network cuts and whatever follows.\<close>

theorem client_request_understood:
  assumes "sendable lib r" and "cq_method r = ''REQMOD''" and "cq_http_request r = Some h" and "cq_http_response r = None"
    and "dumps_as lib h m rest bd" and "bd \<noteq> []" and "\<not> ends_chunked bd" and "length bd < 2 ^ 64"
    and "\<not> cq_preview_set r" and "hget (cq_header r) ''Preview'' = []"
    and "server_parses lib r (request_head lib h m rest) ur q"
  shows "\<exists>wire. dump_request lib r = Done (Inr wire) \<and>
    (\<forall>c tail. length (rbuf (c_in c)) \<le> buf_size \<and> conn_pending (c_in c) = wire @ tail \<longrightarrow>
      (\<exists>req b' rb left c'. read_icap_request (cl_http lib) (c_in c) = Done (Inr req, b') \<and>
         ir_method req = ''REQMOD'' \<and> ir_url req = ur \<and>
         ir_header req = cq_header r @ [(''Encapsulated'', [hget (ir_header req) ''Encapsulated''])] \<and>
         ir_request req = Some (q\<lparr>rq_body := rb\<rparr>) \<and>
         read_body (cl_http lib) rb (c\<lparr>c_in := b'\<rparr>) = Done (bd, None, left, c')))"
proof -
  let ?h = "request_head lib h m rest" and ?b = "chunk_encode bd @ ''0'' @ double_crlf"
  let ?enc = "reqmod_encap ?h ?b"
  have ph: "plain_head ?h" using assms(5) by (simp add: dumps_as_def)
  have w: "writable_header (cq_header r)" "map_of (cq_header r) ''Encapsulated'' = None"
    using assms(1) by (simp_all add: sendable_def)
  note mm = mime_map_client(2,3) [OF w, of ?enc]
  define wire where "wire = icap_wire ''REQMOD'' (lib_url_string (cl_http lib) (cq_url r)) icap_version
      (flat_header (cq_header r) @ [(''Encapsulated'', SP # ?enc)]) (?h @ double_crlf @ ?b)"
  have "dump_request lib r = Done (Inr wire)"
    using dump_reqmod [OF assms(1-5) chunk_message_plain [OF ph assms(6)] _ pad_chunked] assms(7,9)
    by (simp add: wire_def)
  moreover have "\<exists>req b' rb left c'. read_icap_request (cl_http lib) (c_in c) = Done (Inr req, b') \<and>
         ir_method req = ''REQMOD'' \<and> ir_url req = ur \<and>
         ir_header req = cq_header r @ [(''Encapsulated'', [hget (ir_header req) ''Encapsulated''])] \<and>
         ir_request req = Some (q\<lparr>rq_body := rb\<rparr>) \<and>
         read_body (cl_http lib) rb (c\<lparr>c_in := b'\<rparr>) = Done (bd, None, left, c')"
    if c: "length (rbuf (c_in c)) \<le> buf_size" "conn_pending (c_in c) = wire @ tail" for c tail
  proof -
    have "conn_pending (c_in c) = icap_wire ''REQMOD'' (lib_url_string (cl_http lib) (cq_url r)) icap_version
        (flat_header (cq_header r) @ [(''Encapsulated'', SP # ?enc)]) (?h @ double_crlf @ ?b @ tail)"
      using c(2) by (simp add: wire_def icap_wire_def)
    from server_reads_dumped [OF assms(1,2,11) c(1) this] obtain b' where
      b': "length (rbuf b') \<le> buf_size" "conn_pending b' = ?b @ tail" "read_icap_request (cl_http lib) (c_in c) =
        (case read_body_part (cl_http lib) (contains ?b double_crlf) (dumped_head lib r ur ?enc) b' of
           (Inl err, b4) \<Rightarrow> Done (Inl err, b4)
         | (Inr (req1, bd), b4) \<Rightarrow> Done (Inr (req1\<lparr>ir_request := Some (q\<lparr>rq_body := bd\<rparr>)\<rparr>), b4))"
      by blast
    have "contains ?b double_crlf"
      unfolding contains_iff by (rule exI [of _ "chunk_encode bd @ ''0''"], rule exI [of _ "[]"]) simp
    moreover have "hget (ir_header (dumped_head lib r ur ?enc)) ''Preview'' = []"
      using mm(2) reqmod_encap_hd [of ?h ?b] assms(10) by (simp add: dumped_head_def)
    ultimately have r: "read_icap_request (cl_http lib) (c_in c) =
        Done (Inr ((dumped_head lib r ur ?enc)\<lparr>ir_request := Some (q\<lparr>rq_body := ConnBody [] 0 None\<rparr>)\<rparr>), b')"
      using b'(3) by (simp add: read_body_part_def)
    have "conn.brep b' (wire_body [bd] (''0'' @ crlf) (crlf @ tail)) (net_err (under b'))"
      using b'(1,2) by (simp add: conn_brep_iff wire_body_def double_crlf_def)
    moreover have "length (concat [bd]) < Suc (length (conn_pending b'))" using b'(2) by (simp add: chunk_encode_def)
    ultimately obtain cr where "read_all conn_chunked_read (lib_room (cl_http lib)) (Suc (length (conn_pending b'))) []
        (new_chunked_reader b') = Some (bd, None, cr)"
      using bconn.read_all_chunked [of b' "[bd]" "''0'' @ crlf" "crlf @ tail" "net_err (under b')" EOF
          "lib_room (cl_http lib)" "Suc (length (conn_pending b'))"] bconn.ends_zero assms(6,8,11)
      by (auto simp: ok_blocks_def server_parses_def)
    then have "\<exists>left c'. read_body (cl_http lib) (ConnBody [] 0 None) (c\<lparr>c_in := b'\<rparr>) = Done (bd, None, left, c')"
      by (simp add: read_body_def new_chunked_reader_def)
    with r mm(1) reqmod_encap_hd [of ?h ?b] show ?thesis
      by (auto simp: dumped_head_def new_icap_request_def)
  qed
  ultimately show ?thesis by blast
qed

lemma sample_sendable: "sendable sample_client_lib sample_client_request"
  by code_simp

lemma sample_dumps:
  "dumps_as sample_client_lib sample_http_request ''POST'' ('' HTTP/1.1'' @ crlf @ ''Host: h'') ''hello''"
proof -
  have "plain_head (request_head sample_client_lib sample_http_request ''POST'' ('' HTTP/1.1'' @ crlf @ ''Host: h''))"
    by code_simp
  then show ?thesis
    by (simp add: dumps_as_def sample_client_lib_def sample_http_request_def zero_request_def zero_url_def)
qed

lemma sample_parses:
  "server_parses sample_client_lib sample_client_request
     (request_head sample_client_lib sample_http_request ''POST'' ('' HTTP/1.1'' @ crlf @ ''Host: h''))
     (zero_url\<lparr>u_path := ''icap://h/echo''\<rparr>) zero_request"
proof -
  have "length (request_head sample_client_lib sample_http_request ''POST'' ('' HTTP/1.1'' @ crlf @ ''Host: h'')) = 25"
    by code_simp
  then show ?thesis
    by (simp add: server_parses_def sample_client_lib_def sample_client_request_def sample_lib_def zero_url_def max_alloc_def)
qed

lemma client_request_understood_witness:
  "\<exists>wire. dump_request sample_client_lib sample_client_request = Done (Inr wire) \<and>
    (\<forall>c tail. length (rbuf (c_in c)) \<le> buf_size \<and> conn_pending (c_in c) = wire @ tail \<longrightarrow>
      (\<exists>req b' rb left c'. read_icap_request (cl_http sample_client_lib) (c_in c) = Done (Inr req, b') \<and>
         ir_method req = ''REQMOD'' \<and> ir_url req = zero_url\<lparr>u_path := ''icap://h/echo''\<rparr> \<and>
         ir_header req = cq_header sample_client_request @ [(''Encapsulated'', [hget (ir_header req) ''Encapsulated''])] \<and>
         ir_request req = Some (zero_request\<lparr>rq_body := rb\<rparr>) \<and>
         read_body (cl_http sample_client_lib) rb (c\<lparr>c_in := b'\<rparr>) = Done (''hello'', None, left, c')))"
proof (rule client_request_understood [OF sample_sendable _ _ _ sample_dumps _ _ _ _ _ sample_parses])
  show "\<not> ends_chunked ''hello''" by code_simp
  show "hget (cq_header sample_client_request) ''Preview'' = []" by code_simp
qed (simp_all add: sample_client_request_def)

lemma set_preview_reqmod:
  assumes "cq_method r0 = ''REQMOD''" and "cq_http_request r0 = Some h" and "rq_body h = BytesBody bd"
    and "bd \<noteq> []" and "0 \<le> maxb" and "set_preview lib maxb r0 = Done (None, r)"
  shows "cq_method r = ''REQMOD''" and "cq_http_request r = Some h" and "cq_http_response r = cq_http_response r0"
    and "cq_url r = cq_url r0" and "cq_preview_set r" and "cq_preview_bytes r = min (int (length bd)) maxb"
    and "cq_body_fitted r \<longleftrightarrow> int (length bd) \<le> maxb"
    and "cq_header r = hset (cq_header r0) ''Preview'' (itoa (min (length bd) (nat maxb)))"
    and "maxb < int (length bd) \<Longrightarrow> cq_remaining r = drop (nat maxb) bd"
proof -
  have h: "h\<lparr>rq_body := BytesBody bd\<rparr> = h" using assms(3) by simp
  have "itoa_int maxb = itoa (nat maxb)" "itoa_int (int n) = itoa n" for n
    using assms(5) by (simp_all add: itoa_int_def)
  with assms h show "cq_method r = ''REQMOD''" "cq_http_request r = Some h" "cq_http_response r = cq_http_response r0"
    "cq_url r = cq_url r0" "cq_preview_set r" "cq_preview_bytes r = min (int (length bd)) maxb"
    "cq_body_fitted r \<longleftrightarrow> int (length bd) \<le> maxb"
    "cq_header r = hset (cq_header r0) ''Preview'' (itoa (min (length bd) (nat maxb)))"
    "maxb < int (length bd) \<Longrightarrow> cq_remaining r = drop (nat maxb) bd"
    by (auto simp: set_preview_def preview_body_def drain_body_def put_body_def Let_def min_def split: if_splits)
qed

text \<open>The end of a chunked body as the client writes it.\<close>

lemma zero_line_contains: "contains (x @ ''0'' @ double_crlf) double_crlf" "contains (x @ ''0; ieof'' @ double_crlf) double_crlf"
  unfolding contains_iff
  by (rule exI [of _ "x @ ''0''"], rule exI [of _ "[]"], simp, rule exI [of _ "x @ ''0; ieof''"], rule exI [of _ "[]"], simp)

text \<open>C22: A preview is read by the server as the start of the body, with the mark that tells whether it was all;
  and when it was not, what the client sends after \<open>100 Continue\<close> is the rest: the two together are the body, and
  the server's \<open>GetTheRest\<close> gives it back, provided it has taken in all of the preview by then.\<close>

theorem client_preview_understood:
  assumes "cq_method r0 = ''REQMOD''" and "cq_http_request r0 = Some h" and "rq_body h = BytesBody bd"
    and "cq_http_response r0 = None" and "bd \<noteq> []" and "0 < maxb" and "length bd < 2 ^ 64"
    and "set_preview lib maxb r0 = Done (None, r)" and "sendable lib r" and "dumps_as lib h m rest bd"
    and "\<not> ends_chunked (take (nat maxb) bd)" and "\<not> body_already_chunked (drop (nat maxb) bd)"
    and "server_parses lib r (request_head lib h m rest) ur q"
  shows "\<exists>wire. dump_request lib r = Done (Inr wire) \<and>
    (\<forall>c. length (rbuf (c_in c)) \<le> buf_size \<and> conn_pending (c_in c) = wire \<longrightarrow>
      (\<exists>req b'. read_icap_request (cl_http lib) (c_in c) = Done (Inr req, b') \<and>
         ir_request req = Some (q\<lparr>rq_body := BytesBody (take (nat maxb) bd)\<rparr>) \<and>
         hget (ir_header req) ''Preview'' = itoa (min (length bd) (nat maxb)) \<and>
         (if int (length bd) \<le> maxb then ir_end req = ''0; ieof''
          else ir_end req = ''0'' \<and> take (nat maxb) bd @ cq_remaining r = bd \<and>
            (\<forall>c1. conn_pending (c_in c1) = remaining_data r \<and> length (rbuf (c_in c1)) \<le> buf_size \<longrightarrow>
              fst (read_the_rest (cl_http lib) req c1) = bd))))"
proof -
  note p = set_preview_reqmod [OF assms(1-3,5) less_imp_le [OF assms(6)] assms(8)]
  define pv where "pv = take (nat maxb) bd"
  let ?h = "request_head lib h m rest"
  let ?b = "chunk_encode pv @ ''0'' @ double_crlf"
  let ?enc = "reqmod_encap ?h ?b" and ?fits = "int (length bd) \<le> maxb"
  have ph: "plain_head ?h" using assms(10) by (simp add: dumps_as_def)
  have pv: "take (nat (min (int (length bd)) maxb)) bd = pv" by (simp add: min_def pv_def)
  have pvn: "pv \<noteq> []" "length pv < 2 ^ 64" using assms(5-7) by (auto simp: pv_def)
  have msg: "chunk_message r (?h @ double_crlf @ bd) = Done (?h @ double_crlf @ chunk_encode pv @ ''0'' @ crlf)"
    using chunk_message_plain [OF ph assms(5), of r] p(5,6) assms(5,6,11) pv by (simp add: pv_def [symmetric])
  have none: "cq_http_response r = None" using p(3) assms(4) by simp
  define t where "t = (if ?fits then ''0; ieof'' else ''0'')"
  define wire where "wire = icap_wire ''REQMOD'' (lib_url_string (cl_http lib) (cq_url r)) icap_version
      (flat_header (cq_header r) @ [(''Encapsulated'', SP # ?enc)]) (?h @ double_crlf @ chunk_encode pv @ t @ double_crlf)"
  have dump: "dump_request lib r = Done (Inr wire)"
    using dump_reqmod [OF assms(9) p(1,2) none assms(10) msg _ pad_chunked] p(5,7)
      trim_zero_line [of "?h @ double_crlf @ chunk_encode pv @ ''0''"]
    by (simp add: wire_def t_def)
  have served: "\<exists>req b'. read_icap_request (cl_http lib) (c_in c) = Done (Inr req, b') \<and>
         ir_request req = Some (q\<lparr>rq_body := BytesBody pv\<rparr>) \<and>
         hget (ir_header req) ''Preview'' = itoa (min (length bd) (nat maxb)) \<and> ir_orig req = Some pv \<and> ir_end req = t"
    if c: "length (rbuf (c_in c)) \<le> buf_size" "conn_pending (c_in c) = wire" for c
  proof -
    from server_reads_dumped [OF assms(9) p(1) assms(13) c(1) c(2) [unfolded wire_def]] obtain b' where
      b': "length (rbuf b') \<le> buf_size" "conn_pending b' = chunk_encode pv @ t @ double_crlf"
        "read_icap_request (cl_http lib) (c_in c) =
        (case read_body_part (cl_http lib) (contains ?b double_crlf) (dumped_head lib r ur ?enc) b' of
           (Inl err, b4) \<Rightarrow> Done (Inl err, b4)
         | (Inr (req1, bd), b4) \<Rightarrow> Done (Inr (req1\<lparr>ir_request := Some (q\<lparr>rq_body := bd\<rparr>)\<rparr>), b4))"
      by blast
    have w: "writable_header (cq_header r)" "map_of (cq_header r) ''Encapsulated'' = None"
      using assms(9) by (simp_all add: sendable_def)
    have pre: "hget (ir_header (dumped_head lib r ur ?enc)) ''Preview'' = itoa (min (length bd) (nat maxb))"
      using mime_map_client(3) [OF w, of ?enc] reqmod_encap_hd [of ?h ?b] p(8) by (simp add: dumped_head_def hget_hset)
    have "conn_pending b' = wire_body [pv] (t @ crlf) crlf"
      using b'(2) by (simp add: wire_body_def double_crlf_def)
    moreover have "preview_end (t @ crlf) t" by (simp add: preview_end_def t_def)
    moreover have "ok_blocks [pv]" using pvn by (simp add: ok_blocks_def)
    ultimately obtain b1 where "read_preview (cl_http lib) (dumped_head lib r ur ?enc) b' =
        (Inr ((dumped_head lib r ur ?enc)\<lparr>ir_preview := pv, ir_orig := Some pv, ir_end := t\<rparr>, BytesBody pv), b1)"
      using read_preview_ok [of b' "[pv]" "t @ crlf" crlf t "cl_http lib" "dumped_head lib r ur ?enc"] b'(1) assms(13)
      by (auto simp: server_parses_def)
    then show ?thesis
      using b'(3) pre zero_line_contains(1) [of "chunk_encode pv"] by (simp add: read_body_part_def)
  qed
  have rest: "fst (read_the_rest (cl_http lib) req c1) = bd"
    if "\<not> ?fits" "ir_orig req = Some pv" "conn_pending (c_in c1) = remaining_data r" "length (rbuf (c_in c1)) \<le> buf_size"
    for req c1
  proof -
    have r: "cq_remaining r = drop (nat maxb) bd" using p(9) that(1) by simp
    then have "remaining_data r = wire_body [drop (nat maxb) bd] (''0'' @ crlf) []"
      using assms(12) by (simp add: remaining_data_def add_hexa_encode wire_body_def)
    moreover have "ok_blocks [drop (nat maxb) bd]" using that(1) assms(6,7) by (auto simp: ok_blocks_def le_nat_iff)
    moreover have "pv @ drop (nat maxb) bd = bd" by (simp add: pv_def)
    ultimately show ?thesis
      using rest_of_body [of c1 "[drop (nat maxb) bd]" "[]" "cl_http lib" req pv] that assms(13)
      by (auto simp: server_parses_def)
  qed
  have fin: "if ?fits then ir_end req = ''0; ieof''
      else ir_end req = ''0'' \<and> pv @ cq_remaining r = bd \<and>
        (\<forall>c1. conn_pending (c_in c1) = remaining_data r \<and> length (rbuf (c_in c1)) \<le> buf_size \<longrightarrow>
          fst (read_the_rest (cl_http lib) req c1) = bd)" if "ir_orig req = Some pv" "ir_end req = t" for req
    using that rest p(9) by (auto simp: t_def pv_def)
  show ?thesis
    unfolding pv_def [symmetric] using dump served fin by blast
qed

text \<open>The sample request with a preview of three bytes, or of none.\<close>

definition sample_preview :: "int \<Rightarrow> client_request" where
  "sample_preview n = sample_client_request\<lparr>cq_header := hset (cq_header sample_client_request) ''Preview'' (itoa (nat n)),
     cq_preview_bytes := n, cq_preview_set := True, cq_remaining := drop (nat n) ''hello''\<rparr>"

lemma sample_set_preview:
  assumes "0 \<le> n" and "n < 5"
  shows "set_preview sample_client_lib n sample_client_request = Done (None, sample_preview n)"
proof -
  have h: "sample_http_request\<lparr>rq_body := BytesBody ''hello''\<rparr> = sample_http_request" by (simp add: sample_http_request_def)
  have b: "rq_body sample_http_request = BytesBody ''hello''" by (simp add: sample_http_request_def)
  show ?thesis
    using assms
    by (simp add: set_preview_def preview_body_def drain_body_def put_body_def sample_client_request_def sample_preview_def
        itoa_int_def h b)
qed

lemma sample_preview_parses:
  "server_parses sample_client_lib (sample_preview n)
     (request_head sample_client_lib sample_http_request ''POST'' ('' HTTP/1.1'' @ crlf @ ''Host: h''))
     (zero_url\<lparr>u_path := ''icap://h/echo''\<rparr>) zero_request"
  using sample_parses by (simp add: server_parses_def sample_preview_def)

lemma client_preview_understood_witness:
  "\<exists>wire. dump_request sample_client_lib (sample_preview 3) = Done (Inr wire) \<and>
    (\<forall>c. length (rbuf (c_in c)) \<le> buf_size \<and> conn_pending (c_in c) = wire \<longrightarrow>
      (\<exists>req b'. read_icap_request (cl_http sample_client_lib) (c_in c) = Done (Inr req, b') \<and>
         ir_request req = Some (zero_request\<lparr>rq_body := BytesBody ''hel''\<rparr>) \<and> ir_end req = ''0'' \<and>
         (\<forall>c1. conn_pending (c_in c1) = remaining_data (sample_preview 3) \<and> length (rbuf (c_in c1)) \<le> buf_size \<longrightarrow>
              fst (read_the_rest (cl_http sample_client_lib) req c1) = ''hello'')))"
proof -
  have s: "sendable sample_client_lib (sample_preview 3)" by code_simp
  have e: "\<not> ends_chunked (take (nat 3) ''hello'')" "\<not> body_already_chunked (drop (nat 3) ''hello'')" by code_simp+
  have f: "cq_method sample_client_request = ''REQMOD''" "cq_http_request sample_client_request = Some sample_http_request"
    "rq_body sample_http_request = BytesBody ''hello''" "cq_http_response sample_client_request = None"
    "''hello'' \<noteq> []" "(0::int) < 3" "length ''hello'' < 2 ^ 64"
    by (simp_all add: sample_client_request_def sample_http_request_def)
  have p: "set_preview sample_client_lib 3 sample_client_request = Done (None, sample_preview 3)"
    by (rule sample_set_preview) simp_all
  have t: "take (nat 3) ''hello'' = ''hel''" "\<not> int (length ''hello'') \<le> 3" by simp_all
  from client_preview_understood [OF f p s sample_dumps e sample_preview_parses] show ?thesis
    unfolding t(1) if_not_P [OF t(2)] by blast
qed

text \<open>With a preview of no bytes the body is lost: the client announces \<open>null-body\<close>, the server reads a request
  without a body, and there is no preview to continue from, so that the body kept for later is never asked for.\<close>

theorem client_zero_preview_loses_body:
  assumes "cq_method r0 = ''REQMOD''" and "cq_http_request r0 = Some h" and "rq_body h = BytesBody bd"
    and "cq_http_response r0 = None" and "bd \<noteq> []"
    and "set_preview lib 0 r0 = Done (None, r)" and "sendable lib r" and "dumps_as lib h m rest bd"
    and "server_parses lib r (request_head lib h m rest) ur q"
  shows "cq_remaining r = bd \<and> (\<exists>wire. dump_request lib r = Done (Inr wire) \<and>
    (\<forall>c. length (rbuf (c_in c)) \<le> buf_size \<and> conn_pending (c_in c) = wire \<longrightarrow>
      (\<exists>req b'. read_icap_request (cl_http lib) (c_in c) = Done (Inr req, b') \<and> conn_pending b' = [] \<and>
         ir_request req = Some (q\<lparr>rq_body := EmptyBody\<rparr>) \<and> ir_orig req = None)))"
proof -
  note p = set_preview_reqmod [OF assms(1-3,5) order_refl assms(6)]
  let ?h = "request_head lib h m rest"
  let ?enc = "reqmod_encap ?h []"
  have ph: "plain_head ?h" using assms(8) by (simp add: dumps_as_def)
  have nofit: "\<not> cq_body_fitted r" using p(7) assms(5) by simp
  have none: "cq_http_response r = None" using p(3) assms(4) by simp
  have s: "split_body_and_header (?h @ double_crlf @ x) = (if x = [] then None else Some (?h, x))" for x
    by (rule split_body_and_header_plain [OF ph])
  have "cq_preview_bytes r = 0" using p(6) by simp
  then have msg: "chunk_message r (?h @ double_crlf @ bd) = Done (?h @ double_crlf @ [])"
    using p(5) assms(5) s [of bd] s [of "[]"]
    by (simp add: chunk_message_def parse_preview_body_bytes_def body_already_chunked_def merge_header_and_body_def)
  have "pad_double_crlf (?h @ double_crlf @ []) = ?h @ double_crlf @ []" using has_suffix_append by (simp add: pad_done)
  from dump_reqmod [OF assms(7) p(1,2) none assms(8) msg _ this] nofit
  have dump: "dump_request lib r = Done (Inr (icap_wire ''REQMOD'' (lib_url_string (cl_http lib) (cq_url r)) icap_version
      (flat_header (cq_header r) @ [(''Encapsulated'', SP # ?enc)]) (?h @ double_crlf @ [])))" by simp
  have "contains [] double_crlf = False" by (simp add: contains_def)
  then have served: "\<exists>req b'. read_icap_request (cl_http lib) (c_in c) = Done (Inr req, b') \<and> conn_pending b' = [] \<and>
         ir_request req = Some (q\<lparr>rq_body := EmptyBody\<rparr>) \<and> ir_orig req = None"
    if "length (rbuf (c_in c)) \<le> buf_size" "conn_pending (c_in c) = icap_wire ''REQMOD'' (lib_url_string (cl_http lib) (cq_url r))
      icap_version (flat_header (cq_header r) @ [(''Encapsulated'', SP # ?enc)]) (?h @ double_crlf @ [])" for c
    using server_reads_dumped [OF assms(7) p(1) assms(9) that]
    by (auto simp: read_body_part_def dumped_head_def new_icap_request_def)
  have "cq_remaining r = bd" using p(9) assms(5) by simp
  then show ?thesis using dump served by blast
qed

lemma client_zero_preview_loses_body_witness:
  "cq_remaining (sample_preview 0) = ''hello'' \<and> (\<exists>wire. dump_request sample_client_lib (sample_preview 0) = Done (Inr wire) \<and>
    (\<forall>c. length (rbuf (c_in c)) \<le> buf_size \<and> conn_pending (c_in c) = wire \<longrightarrow>
      (\<exists>req b'. read_icap_request (cl_http sample_client_lib) (c_in c) = Done (Inr req, b') \<and> conn_pending b' = [] \<and>
         ir_request req = Some (zero_request\<lparr>rq_body := EmptyBody\<rparr>) \<and> ir_orig req = None)))"
proof -
  have s: "sendable sample_client_lib (sample_preview 0)" by code_simp
  have f: "cq_method sample_client_request = ''REQMOD''" "cq_http_request sample_client_request = Some sample_http_request"
    "rq_body sample_http_request = BytesBody ''hello''" "cq_http_response sample_client_request = None" "''hello'' \<noteq> []"
    by (simp_all add: sample_client_request_def sample_http_request_def)
  have p: "set_preview sample_client_lib 0 sample_client_request = Done (None, sample_preview 0)"
    by (rule sample_set_preview) simp_all
  from client_zero_preview_loses_body [OF f p s sample_dumps sample_preview_parses] show ?thesis .
qed

section \<open>Where the client fails\<close>

lemma trim_missing: "parse_encapsulated ''%!s(MISSING)'' = Inl (malformed_encapsulated ''%!s(MISSING)'')"
  by code_simp

text \<open>The parts of a dump: the head, the request and the response, the last two perhaps with the mark of a full preview.\<close>

lemma dump_request_parts:
  assumes "dump_request lib r = Done (Inr wire)" and "hget (cq_header r) ''Encapsulated'' = []"
  obtains rq rs where "dump_http_request lib r = Done (Inr rq)" and "dump_http_response lib r = Done (Inr rs)"
    and "wire = set_encapsulated_header_value lib (dump_head lib r) rq rs @
      (if cq_method r = ''REQMOD'' \<and> cq_preview_set r \<and> cq_body_fitted r then add_full_body_indicator rq else rq) @
      (if rs \<noteq> [] \<and> cq_preview_set r \<and> cq_body_fitted r then add_full_body_indicator rs else rs)"
proof -
  obtain a where a: "dump_http_request lib r = Done a"
    using assms(1) by (auto simp: dump_request_def bind_outcome_Done_iff)
  with assms(1) obtain rq where rq: "a = Inr rq" by (cases a) (auto simp: dump_request_def)
  with assms(1) a obtain b where b: "dump_http_response lib r = Done b"
    by (auto simp: dump_request_def bind_outcome_Done_iff)
  with assms(1) a rq obtain rs where "b = Inr rs" by (cases b) (auto simp: dump_request_def)
  with assms a b rq show ?thesis by (intro that [of rq rs]) (simp_all add: dump_request_def Let_def)
qed

text \<open>The request text is used as a format: an escape such as \<open>%2F\<close> in the URL takes the operand meant for the
  Encapsulated header, whose value is then \<open>%!s(MISSING)\<close>, which the server rejects.\<close>

theorem client_percent_breaks_encapsulated:
  assumes "dump_request lib r = Done (Inr wire)" and "hget (cq_header r) ''Encapsulated'' = []"
    and "lib_url_string (cl_http lib) (cq_url r) = p @ CHR ''%'' # ds @ v # s"
    and "list_all is_digit ds" and "length ds \<le> 6" and "\<not> is_digit v" and "v \<notin> set ''*.[%#+- ''" and "(of_char v :: nat) < 128"
    and "CHR ''%'' \<notin> set (cq_method r @ p @ s)"
    and "list_all (\<lambda>(k, v). CHR ''%'' \<notin> set k \<and> CHR ''%'' \<notin> set v) (flat_header (cq_header r))"
  shows "(\<exists>pre post. wire = pre @ ''Encapsulated: %!s(MISSING)'' @ crlf @ crlf @ post) \<and>
    (\<exists>err. parse_encapsulated ''%!s(MISSING)'' = Inl err)"
proof -
  let ?l = "concat (map (\<lambda>(k, v). k @ '': '' @ v @ crlf) (flat_header (cq_header r)))"
  let ?p = "cq_method r @ SP # p" and ?q = "s @ SP # icap_version @ crlf @ ?l @ ''Encapsulated: ''"
  have np: "CHR ''%'' \<notin> set ?p" using assms(9) by auto
  have nq: "CHR ''%'' \<notin> set ?q" using assms(9,10) by (auto simp: list_all_iff icap_version_def)
  have "dump_head lib r = ?p @ CHR ''%'' # ds @ v # ?q @ ''%s'' @ crlf @ crlf"
    unfolding dump_head_def flat_lines assms(3) by simp
  then have f: "sprintf (cl_fmt lib) (dump_head lib r) [a] =
      ?p @ print_operand (cl_fmt lib) ds v a @ ?q @ sprintf (cl_fmt lib) (''%s'' @ crlf @ crlf) []" for a
    using sprintf_text [OF np] sprintf_directive(1) [OF assms(4-8)] sprintf_text [OF nq] by simp
  have "sprintf (cl_fmt lib) (''%s'' @ crlf @ crlf) [] = ''%!s(MISSING)'' @ crlf @ crlf"
    using sprintf_string(2) [of "cl_fmt lib" "crlf @ crlf"] sprintf_plain [of "crlf @ crlf" "cl_fmt lib"] by simp
  moreover obtain a x where "wire = sprintf (cl_fmt lib) (dump_head lib r) [a] @ x"
    using dump_request_parts [OF assms(1,2)] unfolding set_encapsulated_header_value_def by metis
  ultimately have "wire = (?p @ print_operand (cl_fmt lib) ds v a @ s @ SP # icap_version @ crlf @ ?l) @
      ''Encapsulated: %!s(MISSING)'' @ crlf @ crlf @ x"
    using f [of a] by simp
  then show ?thesis using trim_missing by blast
qed

lemma client_percent_breaks_encapsulated_witness:
  "\<exists>wire pre post. dump_request sample_client_lib (sample_client_request\<lparr>cq_url := zero_url\<lparr>u_path := ''icap://h/a%2Fb''\<rparr>\<rparr>) =
       Done (Inr wire) \<and> wire = pre @ ''Encapsulated: %!s(MISSING)'' @ crlf @ crlf @ post"
proof -
  let ?r = "sample_client_request\<lparr>cq_url := zero_url\<lparr>u_path := ''icap://h/a%2Fb''\<rparr>\<rparr>"
  have "(case dump_request sample_client_lib ?r of Done (Inr wire) \<Rightarrow> True | _ \<Rightarrow> False)" by code_simp
  then obtain wire where w: "dump_request sample_client_lib ?r = Done (Inr wire)"
    by (auto split: outcome.splits sum.splits)
  have u: "lib_url_string (cl_http sample_client_lib) (cq_url ?r) = ''icap://h/a'' @ CHR ''%'' # ''2'' @ CHR ''F'' # ''b''"
    by (simp add: sample_client_lib_def sample_lib_def)
  have c: "hget (cq_header ?r) ''Encapsulated'' = []" "list_all is_digit ''2''" "length ''2'' \<le> 6" "\<not> is_digit CHR ''F''"
    "CHR ''F'' \<notin> set ''*.[%#+- ''" "(of_char CHR ''F'' :: nat) < 128" "CHR ''%'' \<notin> set (cq_method ?r @ ''icap://h/a'' @ ''b'')"
    "list_all (\<lambda>(k, v). CHR ''%'' \<notin> set k \<and> CHR ''%'' \<notin> set v) (flat_header (cq_header ?r))"
    by code_simp+
  from client_percent_breaks_encapsulated [OF w c(1) u c(2-8)] w show ?thesis by blast
qed

lemma pad_prefix: "\<exists>x. pad_double_crlf s = s @ x"
proof (induction s rule: pad_double_crlf.induct)
  case (1 s)
  then show ?case by (cases "has_suffix s double_crlf") (auto simp: pad_double_crlf.simps [of s])
qed

lemma pad_suffix: "has_suffix (pad_double_crlf s) double_crlf"
proof (induction s rule: pad_double_crlf.induct)
  case (1 s)
  then show ?case by (cases "has_suffix s double_crlf") (simp_all add: pad_double_crlf.simps [of s])
qed

lemma chunk_message_prefix:
  assumes "plain_head h" and "chunk_message r (h @ double_crlf @ b) = Done s"
  shows "\<exists>x. s = h @ double_crlf @ x"
proof -
  have sp: "split_body_and_header (h @ double_crlf @ x) = (if x = [] then None else Some (h, x))" for x
    by (rule split_body_and_header_plain [OF assms(1)])
  obtain s1 where s1: "(if cq_preview_set r then parse_preview_body_bytes (h @ double_crlf @ b) (cq_preview_bytes r)
      else Done (h @ double_crlf @ b)) = Done s1" and s: "s = (if body_already_chunked s1 then s1
             else (case split_body_and_header s1 of None \<Rightarrow> s1
                   | Some (h, b) \<Rightarrow> merge_header_and_body h (add_hexa_body_byte_notations b)))"
    using assms(2) by (auto simp: chunk_message_def bind_outcome_Done_iff)
  have "\<exists>x. s1 = h @ double_crlf @ x"
    using s1 by (auto simp: parse_preview_body_bytes_def sp merge_header_and_body_def split: if_splits)
  then obtain x where "s1 = h @ double_crlf @ x" by blast
  with s show ?thesis by (auto simp: sp merge_header_and_body_def)
qed

text \<open>The query of the URL is sent twice: the path in the request line is replaced by the whole URL, in front of the
  query that is already there.\<close>

theorem client_query_doubled:
  assumes "cq_http_request r = Some h" and "lib_url_string (cl_http lib) (rq_url h) = base @ CHR ''?'' # qs"
    and "dumps_as lib h m (CHR ''?'' # qs @ SP # rest) bd" and "dump_http_request lib r = Done (Inr s)"
  shows "\<exists>x. s = m @ SP # base @ CHR ''?'' # qs @ CHR ''?'' # qs @ SP # x"
proof -
  let ?h = "request_head lib h m (CHR ''?'' # qs @ SP # rest)"
  have ph: "plain_head ?h" using assms(3) by (simp add: dumps_as_def)
  obtain s1 where s1: "(if cq_method r = ''REQMOD'' then chunk_message r (?h @ double_crlf @ bd)
      else Done (?h @ double_crlf @ bd)) = Done s1" and s: "s = (if s1 = [] then [] else pad_double_crlf s1)"
    using replace_request_uri_dumped [OF assms(3)] assms(1,4)
    by (auto simp: dump_http_request_def bind_outcome_Done_iff Let_def)
  have "\<exists>x. s1 = ?h @ double_crlf @ x"
    using s1 chunk_message_prefix [OF ph] by (auto split: if_splits)
  then obtain x where "s1 = ?h @ double_crlf @ x" by blast
  moreover from pad_prefix obtain y where "pad_double_crlf s1 = s1 @ y" by blast
  ultimately show ?thesis using s assms(2) by (auto simp: request_head_def)
qed

lemma client_query_doubled_witness:
  "\<exists>s x. dump_http_request (sample_client_lib\<lparr>cl_escaped_path := \<lambda>u. ''/a''\<rparr>)
      (sample_client_request\<lparr>cq_http_request := Some (sample_http_request\<lparr>rq_url := zero_url\<lparr>u_path := ''/a?b=1''\<rparr>\<rparr>)\<rparr>) =
      Done (Inr s) \<and> s = ''POST /a?b=1?b=1 '' @ x"
proof -
  let ?lib = "sample_client_lib\<lparr>cl_escaped_path := \<lambda>u. ''/a''\<rparr>"
  let ?h = "sample_http_request\<lparr>rq_url := zero_url\<lparr>u_path := ''/a?b=1''\<rparr>\<rparr>"
  let ?r = "sample_client_request\<lparr>cq_http_request := Some ?h\<rparr>"
  let ?rest = "CHR ''?'' # ''b=1'' @ SP # (''HTTP/1.1'' @ crlf @ ''Host: h'')"
  have "plain_head (request_head ?lib ?h ''POST'' ?rest)" by code_simp
  then have d: "dumps_as ?lib ?h ''POST'' ?rest ''hello''"
    by (simp add: dumps_as_def sample_client_lib_def sample_http_request_def zero_request_def zero_url_def)
  have "(case dump_http_request ?lib ?r of Done (Inr s) \<Rightarrow> True | _ \<Rightarrow> False)" by code_simp
  then obtain s where s: "dump_http_request ?lib ?r = Done (Inr s)" by (auto split: outcome.splits sum.splits)
  have u: "lib_url_string (cl_http ?lib) (rq_url ?h) = ''/a'' @ CHR ''?'' # ''b=1''"
    by (simp add: sample_client_lib_def sample_lib_def)
  from client_query_doubled [OF _ u d s] s show ?thesis by auto
qed

text \<open>Every list of sections can be written on one header line.\<close>

lemma encap_text_good:
  assumes "kns \<noteq> []" and "\<forall>(k, n) \<in> set kns. k \<noteq> [] \<and> list_all valid_value_byte k \<and> \<not> is_blank (hd k)"
  shows "list_all valid_value_byte (encap_text kns) \<and> encap_text kns \<noteq> [] \<and> \<not> is_blank (hd (encap_text kns)) \<and>
    \<not> is_blank (last (encap_text kns))"
  using assms
proof (induction kns)
  case (Cons kn kns)
  obtain k n where kn: "kn = (k, n)" by (cases kn)
  have d: "list_all valid_value_byte (itoa n)" using digit_value_byte itoa_digits by (auto simp: list_all_iff)
  have "last (itoa n) \<in> set (itoa n)" by simp
  then have l: "\<not> is_blank (last (itoa n))" using digit_value_byte itoa_digits by blast
  have v: "valid_value_byte CHR ''=''" "valid_value_byte CHR '',''" "valid_value_byte SP" by code_simp+
  obtain c cs where k: "k = c # cs" "\<not> is_blank c" "list_all valid_value_byte k"
    using Cons.prems(2) kn by (cases k) auto
  show ?case
  proof (cases kns)
    case Nil
    with d l v k show ?thesis by (simp add: encap_text_def encap_item_def kn)
  next
    case (Cons kn' kns')
    then have t: "encap_text (kn # kns) = encap_item kn @ CHR '','' # SP # encap_text kns"
      by (simp add: encap_text_def)
    with Cons Cons.IH Cons.prems d v k show ?thesis by (simp add: encap_item_def kn)
  qed
qed simp

lemma encap_field_good:
  assumes "kns \<noteq> []" and "\<forall>(k, n) \<in> set kns. k \<in> body_keys \<union> {''req-hdr'', ''res-hdr''}"
  shows "good_field (''Encapsulated'', SP # encap_text kns)" and "encap_text kns \<noteq> []" and "\<not> is_blank (hd (encap_text kns))"
proof -
  have "list_all (\<lambda>k. k \<noteq> [] \<and> list_all valid_value_byte k \<and> \<not> is_blank (hd k))
      [''req-body'', ''res-body'', ''opt-body'', ''null-body'', ''req-hdr'', ''res-hdr'']" by code_simp
  then have "\<forall>(k, n) \<in> set kns. k \<noteq> [] \<and> list_all valid_value_byte k \<and> \<not> is_blank (hd k)"
    using assms(2) by auto
  note e = encap_text_good [OF assms(1) this]
  have "list_all is_token_char ''Encapsulated''" "valid_value_byte SP" by code_simp+
  with e show "good_field (''Encapsulated'', SP # encap_text kns)" "encap_text kns \<noteq> []" "\<not> is_blank (hd (encap_text kns))"
    by (simp_all add: good_field_def)
qed

text \<open>A body behind the blank line of the head shows as a second blank line once the text is padded.\<close>

lemma pad_body_match:
  assumes "c \<noteq> CR" and "c \<noteq> LF"
  shows "\<exists>x. pad_double_crlf (h @ double_crlf @ c # b) = h @ double_crlf @ x \<and> contains x double_crlf"
proof -
  obtain y where y: "pad_double_crlf (h @ double_crlf @ c # b) = (h @ double_crlf @ c # b) @ y" using pad_prefix by blast
  obtain z where z: "(h @ double_crlf @ c # b) @ y = z @ double_crlf"
    using pad_suffix [of "h @ double_crlf @ c # b"] y by (auto simp: has_suffix_iff)
  have "4 \<le> length (b @ y)"
  proof (rule ccontr)
    assume a: "\<not> 4 \<le> length (b @ y)"
    let ?u = "h @ double_crlf" and ?w = "b @ y"
    have whole: "?u @ c # ?w = z @ double_crlf" using z by simp
    have n: "length (?u @ c # ?w) - 4 \<le> length ?u" using a by simp
    have "double_crlf = drop (length (z @ double_crlf) - 4) (z @ double_crlf)" by simp
    also have "\<dots> = drop (length (?u @ c # ?w) - 4) ?u @ c # ?w" using n unfolding whole [symmetric] by simp
    finally have "c \<in> set double_crlf" by (metis in_set_conv_decomp)
    with assms show False by (simp add: double_crlf_def)
  qed
  then have len: "length (h @ double_crlf @ [c]) \<le> length z"
    using arg_cong [OF z, of length] by simp
  have eq: "z @ double_crlf = (h @ double_crlf @ [c]) @ b @ y" using z by simp
  obtain w where "z = (h @ double_crlf @ [c]) @ w" by (rule append_eq_prefix_cases [OF eq len])
  with z have "h @ double_crlf @ c # b @ y = h @ double_crlf @ (c # w @ double_crlf)" by simp
  moreover have "contains (c # w @ double_crlf) double_crlf"
    unfolding contains_iff by (rule exI [of _ "c # w"], rule exI [of _ "[]"]) simp
  ultimately show ?thesis using y by auto
qed

lemma client_encapsulated_respmod:
  assumes "cq_method r = ''RESPMOD''" and "plain_head h" and "contains b double_crlf" and "plain_head h'"
  shows "\<exists>n k n'. client_encapsulated (dump_head lib r) (h @ double_crlf @ b) (h' @ double_crlf @ b') =
    SP # encap_text [(''req-hdr'', 0), (''req-body'', length h + 4), (''res-hdr'', n), (k, n')] \<and>
    k \<in> {''res-body'', ''null-body''} \<and> n \<le> length (h @ double_crlf @ b) \<and> n' = n + length h' + 4"
proof -
  have mm: "has_prefix (dump_head lib r) ''RESPMOD''" "\<not> has_prefix (dump_head lib r) ''OPTIONS''"
    "\<not> has_prefix (dump_head lib r) ''REQMOD''"
    using assms(1) by (simp_all add: dump_head_def has_prefix_def)
  have z: "itoa 0 = ''0''" by (simp add: itoa_def digits_rev.simps digit_char_def)
  obtain j where j: "index_of b double_crlf = Some j" using assms(3) by (auto simp: contains_def)
  then have "j + 4 \<le> length b" using index_of_SomeD [OF j] by simp
  moreover have "\<exists>ms. find_from (length h + 4) 0 b double_crlf = (length h + 4 + j, length h + 4 + j + 4) # ms"
    using find_from_index [of double_crlf "length h + 4" b] j by simp
  ultimately show ?thesis
    using find_double_crlf_plain [OF assms(2), of b] find_double_crlf_plain [OF assms(4), of b']
    by (intro exI [of _ "length h + 4 + j + 4"] exI [of _ "if find_from (length h' + 4) 0 b' double_crlf = [] then ''null-body'' else ''res-body''"]
        exI [of _ "length h + 4 + j + 4 + length h' + 4"])
      (auto simp: client_encapsulated_def mm encapsulated_request_def encapsulated_response_def encap_text_def encap_item_def z
        ac_simps)
qed

lemma icap_wire_append: "icap_wire m u p kvs x @ y = icap_wire m u p kvs (x @ y)"
  by (simp add: icap_wire_def)

lemma add_full_length: "length s \<le> length (add_full_body_indicator s)"
  by (auto simp: add_full_body_indicator_def trim_suffix_def full_body_end_indicator_def has_suffix_def)

lemma dump_http_response_prefix:
  assumes "cq_http_response r = Some h'" and "cl_dump_response lib h' = Inr (h @ double_crlf @ b)" and "plain_head h"
    and "dump_http_response lib r = Done (Inr rs)"
  shows "\<exists>x. rs = h @ double_crlf @ x"
proof -
  obtain s where s: "chunk_message r (h @ double_crlf @ b) = Done s"
    "rs = (if s \<noteq> [] \<and> \<not> has_suffix s double_crlf then s @ crlf else s)"
    using assms(1,2,4) by (auto simp: dump_http_response_def bind_outcome_Done_iff)
  from chunk_message_prefix [OF assms(3) s(1)] s(2) show ?thesis by auto
qed

text \<open>A RESPMOD request whose HTTP request has a body is rejected by the server: the client lists \<open>req-body\<close> before
  the sections of the response, and the server takes a body for the last section only.\<close>

theorem client_respmod_request_body_rejected:
  assumes "cq_method r = ''RESPMOD''" and "cq_http_request r = Some h" and "cq_http_response r = Some h'"
    and "dumps_as lib h m rest (c # bd)" and "c \<noteq> CR" and "c \<noteq> LF"
    and "cl_dump_response lib h' = Inr (h2 @ double_crlf @ b2)" and "plain_head h2"
    and "dump_request lib r = Done (Inr wire)" and "length wire < 2 ^ 63" and "sendable lib r"
    and "lib_parse_request_uri (cl_http lib) (lib_url_string (cl_http lib) (cq_url r)) = Inr ur"
    and "length (rbuf b) \<le> buf_size" and "conn_pending b = wire @ tail"
  shows "\<exists>err b'. read_icap_request (cl_http lib) b = Done (Inl err, b')"
proof -
  let ?h = "request_head lib h m rest" and ?u = "lib_url_string (cl_http lib) (cq_url r)"
  have ph: "plain_head ?h" using assms(4) by (simp add: dumps_as_def)
  have w: "writable_header (cq_header r)" "map_of (cq_header r) ''Encapsulated'' = None"
    using assms(11) by (simp_all add: sendable_def)
  have "canonical_key ''Encapsulated'' = ''Encapsulated''" by code_simp
  then have "hget (cq_header r) ''Encapsulated'' = []" using w(2) by (simp add: hget_def)
  from dump_request_parts [OF assms(9) this] obtain rq rs where
    d: "dump_http_request lib r = Done (Inr rq)" "dump_http_response lib r = Done (Inr rs)"
    and wire: "wire = set_encapsulated_header_value lib (dump_head lib r) rq rs @ rq @
      (if rs \<noteq> [] \<and> cq_preview_set r \<and> cq_body_fitted r then add_full_body_indicator rs else rs)"
    using assms(1) by auto
  obtain x where x: "pad_double_crlf (?h @ double_crlf @ c # bd) = ?h @ double_crlf @ x" "contains x double_crlf"
    using pad_body_match [OF assms(5,6)] by blast
  have rq: "rq = ?h @ double_crlf @ x"
    using replace_request_uri_dumped [OF assms(4)] d(1) assms(1,2) x(1) by (auto simp: dump_http_request_def Let_def)
  obtain y where rs: "rs = h2 @ double_crlf @ y"
    using dump_http_response_prefix [OF assms(3,7,8) d(2)] by blast
  obtain n k n' where enc: "client_encapsulated (dump_head lib r) rq rs =
      SP # encap_text [(''req-hdr'', 0), (''req-body'', length ?h + 4), (''res-hdr'', n), (k, n')]"
    and k: "k \<in> {''res-body'', ''null-body''}" and n: "n \<le> length rq" "n' = n + length h2 + 4"
    using client_encapsulated_respmod [OF assms(1) ph x(2) assms(8)] unfolding rq rs by blast
  let ?kns = "[(''req-hdr'', 0), (''req-body'', length ?h + 4), (''res-hdr'', n), (k, n')]"
  let ?kvs = "flat_header (cq_header r) @ [(''Encapsulated'', SP # encap_text ?kns)]"
  have good: "\<forall>(k, n) \<in> set ?kns. k \<in> body_keys \<union> {''req-hdr'', ''res-hdr''}" using k by auto
  note f = encap_field_good [OF _ good, simplified]
  have head: "good_head ''RESPMOD'' ?u icap_version ?kvs"
    using assms(11) f(1) flat_header_good [OF w(1)] by (auto simp: good_head_def sendable_def Let_def icap_version_def)
  have "n' \<le> length wire"
    using n rs add_full_length [of rs] by (auto simp: wire)
  moreover have "length ?h + 4 \<le> length wire" by (simp add: wire rq)
  ultimately have small: "n < 2 ^ 63" "n' < 2 ^ 63" "length ?h + 4 < 2 ^ 63" using n(2) assms(10) by simp_all
  have "\<exists>err. parse_encapsulated (encap_text ([(''req-hdr'', 0)] @ (''req-body'', length ?h + 4) # (''res-hdr'', n) # [(k, n')])) =
      Inl err"
    using k small by (intro encapsulated_body_last) auto
  then obtain err where err: "parse_encapsulated (encap_text ?kns) = Inl err" by auto
  have "wire @ tail = icap_wire ''RESPMOD'' ?u icap_version ?kvs
      (rq @ (if rs \<noteq> [] \<and> cq_preview_set r \<and> cq_body_fitted r then add_full_body_indicator rs else rs) @ tail)"
    using dump_head_wire [OF assms(11), of "SP # encap_text ?kns"] assms(1) enc
    by (simp add: wire set_encapsulated_header_value_def icap_wire_append)
  then have "conn.brep b (icap_wire ''RESPMOD'' ?u icap_version ?kvs
      (rq @ (if rs \<noteq> [] \<and> cq_preview_set r \<and> cq_body_fitted r then add_full_body_indicator rs else rs) @ tail)) (net_err (under b))"
    using assms(13,14) by (simp add: conn_brep_iff)
  from conn_source.read_head [OF this head assms(12)] mime_map_client(1,2) [OF w f(2,3)] f(2) err show ?thesis by auto
qed

definition sample_respmod :: client_request where
  "sample_respmod = sample_client_request\<lparr>cq_method := ''RESPMOD'',
     cq_http_response := Some (sample_response\<lparr>rs_body := BytesBody ''ok''\<rparr>)\<rparr>"

lemma client_respmod_request_body_rejected_witness:
  "\<exists>wire err b'. dump_request sample_client_lib sample_respmod = Done (Inr wire) \<and>
     read_icap_request (cl_http sample_client_lib) \<lparr>rbuf = [], under = \<lparr>segs = [wire], net_err = EOF\<rparr>\<rparr> = Done (Inl err, b')"
proof -
  have "(case dump_request sample_client_lib sample_respmod of Done (Inr w) \<Rightarrow> length w < 1000 | _ \<Rightarrow> False)" by code_simp
  then obtain wire where w: "dump_request sample_client_lib sample_respmod = Done (Inr wire)" "length wire < 2 ^ 63"
    by (auto split: outcome.splits sum.splits)
  have f: "cq_method sample_respmod = ''RESPMOD''" "cq_http_request sample_respmod = Some sample_http_request"
    "cq_http_response sample_respmod = Some (sample_response\<lparr>rs_body := BytesBody ''ok''\<rparr>)"
    by (simp_all add: sample_respmod_def sample_client_request_def)
  have s: "sendable sample_client_lib sample_respmod" by code_simp
  have p: "plain_head (''HTTP/1.1 200 OK'' @ crlf @ ''Server: s'')" by code_simp
  have d: "cl_dump_response sample_client_lib (sample_response\<lparr>rs_body := BytesBody ''ok''\<rparr>) =
      Inr ((''HTTP/1.1 200 OK'' @ crlf @ ''Server: s'') @ double_crlf @ ''ok'')"
    by (simp add: sample_client_lib_def)
  have u: "lib_parse_request_uri (cl_http sample_client_lib) (lib_url_string (cl_http sample_client_lib) (cq_url sample_respmod)) =
      Inr (zero_url\<lparr>u_path := ''icap://h/echo''\<rparr>)"
    by (simp add: sample_client_lib_def sample_lib_def sample_respmod_def sample_client_request_def)
  have c: "CHR ''h'' \<noteq> CR" "CHR ''h'' \<noteq> LF" by simp_all
  let ?b = "\<lparr>rbuf = [], under = \<lparr>segs = [wire], net_err = EOF\<rparr>\<rparr>"
  have b: "length (rbuf ?b) \<le> buf_size" "conn_pending ?b = wire @ []" by (simp_all add: conn_pending_def)
  from client_respmod_request_body_rejected [OF f sample_dumps c d p w s u b] w(1) show ?thesis by blast
qed

end
