(* ===== verification/ClientAnswers.thy ===== *)
theory ClientAnswers
  imports ClientServer IcapResponse
begin

text \<open>
  The client on what the server's response writer writes: an answer without an HTTP message, as it arrives in one
  segment on a connection the server keeps open.
\<close>

section \<open>The header on the wire\<close>

text \<open>The fields \<open>Header.Write\<close> writes, in its order and with its trimming.\<close>

definition written_header :: "header \<Rightarrow> header" where
  "written_header h = map (\<lambda>(k, vs). (k, map header_value vs))
     (sort_key fst (filter (\<lambda>(k, vs). k \<noteq> [] \<and> list_all is_token_char k) h))"

lemma header_write_fields: "header_write h = concat (map field_line (flat_header (written_header h)))"
proof -
  have "concat (map (header_line k) vs) = concat (map field_line (map (Pair k) (map header_value vs)))" for k vs
    by (simp add: header_line_def [abs_def] field_line_def comp_def)
  then have "concat (map (\<lambda>(k, vs). concat (map (header_line k) vs)) xs) =
      concat (map field_line (flat_header (map (\<lambda>(k, vs). (k, map header_value vs)) xs)))" for xs
    by (induction xs) (auto simp: flat_header_def)
  then show ?thesis by (simp add: header_write_def header_write_subset_def written_header_def)
qed

text \<open>Adding the fields one by one gives the header back.\<close>

definition readable_header :: "header \<Rightarrow> bool" where
  "readable_header h \<longleftrightarrow> header_ok h \<and> list_all (\<lambda>(k, vs). canonical_key k = k \<and> vs \<noteq> [] \<and> list_all (\<lambda>v. client_field (k, v)) vs) h"

lemma hadd_values:
  assumes "canonical_key k = k" and "k \<notin> fst ` set g"
  shows "foldl (\<lambda>h (k, v). hadd h k v) (g @ [(k, ws)]) (map (Pair k) vs) = g @ [(k, ws @ vs)]"
proof (induction vs arbitrary: ws)
  case (Cons v vs)
  have "map_of (g @ [(k, ws)]) k = Some ws"
    using assms(2) by (simp add: map_add_def map_of_eq_None_iff [THEN iffD2])
  then have "hadd (g @ [(k, ws)]) k v = g @ [(k, ws @ [v])]" using assms by (simp add: hadd_def update_last)
  with Cons show ?case by simp
qed simp

lemma hadd_flat:
  assumes "readable_header h" and "header_ok (g @ h)"
  shows "foldl (\<lambda>h (k, v). hadd h k v) g (flat_header h) = g @ h"
  using assms
proof (induction h arbitrary: g)
  case (Cons kv h)
  obtain k vs where kv: "kv = (k, vs)" by (cases kv)
  from Cons.prems(1) kv obtain v ws where v: "vs = v # ws" "canonical_key k = k"
    by (cases vs) (auto simp: readable_header_def)
  have k: "k \<notin> fst ` set g" using Cons.prems(2) kv by auto
  then have "hadd g k v = g @ [(k, [v])]"
    using v(2) by (simp add: hadd_def update_new map_of_eq_None_iff [THEN iffD2])
  then have "foldl (\<lambda>h (k, v). hadd h k v) g (map (Pair k) vs) = g @ [(k, vs)]"
    using hadd_values [OF v(2) k, of "[v]" ws] v(1) by simp
  moreover have "foldl (\<lambda>h (k, v). hadd h k v) (g @ [(k, vs)]) (flat_header h) = (g @ [(k, vs)]) @ h"
    using Cons.prems kv by (intro Cons.IH) (auto simp: readable_header_def)
  ultimately show ?case by (simp add: flat_header_def kv)
qed (simp add: flat_header_def)

section \<open>The status line\<close>

lemma status_texts_trimmed: "trim_space (status_text code) = status_text code \<and> LF \<notin> set (status_text code)"
proof -
  have "list_all (\<lambda>(c, t). trim_space t = t \<and> LF \<notin> set t) (status_table @ http_status_table)" by code_simp
  then show ?thesis
    by (auto simp: status_text_def http_status_text_def list_all_iff trim_space_def trim_left_func_def trim_right_func_def
        split: option.splits dest!: map_of_SomeD)
qed

definition status_shown :: "nat \<Rightarrow> string" where
  "status_shown code = (if status_text code = [] then ''status code '' @ itoa code else status_text code)"

lemma status_shown_trimmed: "trim_space (status_shown code) = status_shown code \<and> LF \<notin> set (status_shown code)"
proof (cases "status_text code = []")
  case True
  have "is_digit (last (itoa code))" using itoa_digits [of "last (itoa code)" code] by simp
  then have "\<not> is_space (last (''status code '' @ itoa code))" by (auto simp: is_digit_def is_space_def)
  then have "trim_right_func is_space (''status code '' @ itoa code) = ''status code '' @ itoa code"
    by (intro trim_right_func_id) simp
  moreover have "trim_left_func is_space (''status code '' @ itoa code) = ''status code '' @ itoa code"
    by (intro trim_left_func_id) (simp add: is_space_def)
  ultimately have "trim_space (''status code '' @ itoa code) = ''status code '' @ itoa code"
    by (simp only: trim_space_def)
  moreover have "LF \<notin> set (itoa code)" using itoa_digits [of LF code] by (auto simp: is_digit_def)
  ultimately show ?thesis using True by (simp add: status_shown_def)
qed (simp add: status_shown_def status_texts_trimmed)

lemma status_line_shown: "status_line code = ''ICAP/1.0 '' @ itoa code @ SP # status_shown code @ crlf"
  by (simp add: status_line_def status_shown_def Let_def)

section \<open>An answer as the client takes it\<close>

text \<open>The bytes of an answer without an HTTP message.\<close>

definition icap_answer :: "nat \<Rightarrow> header \<Rightarrow> bytes" where
  "icap_answer code h = ''ICAP/1.0 '' @ itoa code @ SP # status_shown code @ crlf @
     concat (map field_line (flat_header h)) @ crlf"

lemma write_header_answer:
  assumes "write_header lib code NoMsg False w = Done w'" and "\<not> rw_wrote_header w"
  shows "rw_out w' = rw_out w @ icap_answer code (written_header (rw_header w'))"
  using assms
  by (auto simp: write_header_eq header_written_def msg_header_def rw_emit_def rw_out_def status_line_shown header_write_fields
      icap_answer_def)

lemma answer_read:
  assumes "readable_header h" and "code < 2 ^ 63"
  shows "\<exists>resp. read_response clib (icap_answer code h) = Inr resp \<and> cs_code resp = int code \<and>
    cs_status resp = status_shown code \<and> cs_header resp = h"
proof -
  have fields: "\<forall>kv \<in> set (flat_header h). client_field kv"
    using assms(1) by (auto simp: readable_header_def flat_header_def list_all_iff)
  from read_response_head [OF assms(2) _ _ fields, of "status_shown code" clib] status_shown_trimmed
  obtain resp where "read_response clib (icap_answer code h) = Inr resp" "cs_code resp = int code"
    "cs_status resp = status_shown code" "cs_header resp = foldl (\<lambda>h (k, v). hadd h k v) [] (flat_header h)"
    unfolding icap_answer_def by blast
  then show ?thesis using hadd_flat [OF assms(1), of "[]"] assms(1) by (simp add: readable_header_def)
qed

lemma answer_complete:
  assumes "code \<noteq> 204 \<longrightarrow> \<not> has_suffix (icap_answer code h) (''0'' @ double_crlf) \<and> \<not> contains (icap_answer code h) icap_204_no_mods"
  shows "response_complete (icap_answer code h) \<longleftrightarrow> code = 204"
proof (cases "code = 204")
  case True
  have "itoa 204 = ''204''" "status_shown 204 = ''No modifications'' @ '' needed''" by code_simp+
  then have "icap_answer code h = [] @ icap_204_no_mods @ '' needed'' @ crlf @ concat (map field_line (flat_header h)) @ crlf"
    by (simp add: True icap_answer_def icap_204_no_mods_def)
  then have "contains (icap_answer code h) icap_204_no_mods" unfolding contains_iff by blast
  with True show ?thesis by (simp add: response_complete_def)
next
  case False
  have "icap_answer code h \<noteq> icap_100_continue"
  proof
    let ?rest = "status_shown code @ crlf @ concat (map field_line (flat_header h)) @ crlf"
    assume "icap_answer code h = icap_100_continue"
    then have eq: "itoa code @ SP # ?rest = ''100'' @ SP # ''Continue'' @ double_crlf"
      by (simp add: icap_100_continue_def icap_answer_def)
    have "SP \<notin> set (itoa code)" "SP \<notin> set ''100''" using itoa_digits [of SP code] by (auto simp: is_digit_def)
    note u = first_occurrence_unique [OF eq this]
    have "itoa 100 = ''100''" "status_shown 100 = ''Continue'' @ '' after ICAP Preview''" by code_simp+
    with u itoa_inject [of code 100] show False by (simp add: double_crlf_def)
  qed
  with False assms show ?thesis by (simp add: response_complete_def)
qed

text \<open>The last field of a header, as it stands in front of the blank line.\<close>

definition ends_in_zero :: "header \<Rightarrow> bool" where
  "ends_in_zero h \<longleftrightarrow> (case rev (flat_header h) of [] \<Rightarrow> False | (k, v) # _ \<Rightarrow> v \<noteq> [] \<and> last v = CHR ''0'')"

lemma answer_suffix:
  assumes "flat_header h \<noteq> []"
  shows "has_suffix (icap_answer code h) (''0'' @ double_crlf) \<longleftrightarrow> ends_in_zero h"
proof -
  obtain fs k v where f: "flat_header h = fs @ [(k, v)]" using assms by (metis rev_exhaust surj_pair)
  define pre where "pre = ''ICAP/1.0 '' @ itoa code @ SP # status_shown code @ crlf @ concat (map field_line fs) @ k @ '':''"
  have a: "icap_answer code h = (pre @ SP # v) @ double_crlf"
    by (simp add: f pre_def icap_answer_def field_line_def double_crlf_def)
  have "has_suffix (icap_answer code h) (''0'' @ double_crlf) \<longleftrightarrow> (\<exists>q. pre @ SP # v = q @ ''0'')"
    unfolding a has_suffix_iff append_assoc [symmetric] append_same_eq ..
  also have "\<dots> \<longleftrightarrow> v \<noteq> [] \<and> last v = CHR ''0''"
  proof (cases v rule: rev_cases)
    case Nil
    then show ?thesis by auto
  next
    case (snoc u c)
    have "(\<exists>q. (pre @ SP # u) @ [c] = q @ ''0'') \<longleftrightarrow> c = CHR ''0''" unfolding append1_eq_conv by blast
    then show ?thesis by (simp add: snoc)
  qed
  finally show ?thesis by (simp add: ends_in_zero_def f)
qed

definition taken_whole :: "nat \<Rightarrow> header \<Rightarrow> bool" where
  "taken_whole code h \<longleftrightarrow> code = 204 \<or> ends_in_zero h \<or> contains (icap_answer code h) icap_204_no_mods"

lemma answer_taken:
  assumes "flat_header h \<noteq> []"
  shows "response_complete (icap_answer code h) \<longleftrightarrow> taken_whole code h"
proof (cases "code \<noteq> 204 \<longrightarrow> \<not> has_suffix (icap_answer code h) (''0'' @ double_crlf) \<and> \<not> contains (icap_answer code h) icap_204_no_mods")
  case True
  with answer_complete [OF True] answer_suffix [OF assms] show ?thesis by (auto simp: taken_whole_def)
next
  case False
  with answer_suffix [OF assms] show ?thesis by (auto simp: taken_whole_def response_complete_def)
qed

lemma answer_received:
  assumes "readable_header h" and "code < 2 ^ 63" and "length (icap_answer code h) \<le> 1096"
    and "connected d s" and "sk_in s = \<lparr>segs = [icap_answer code h], net_err = e\<rparr>" and "e \<noteq> EOF"
  shows "\<exists>d' resp. driver_receive clib d = Done (if response_complete (icap_answer code h) then Inr resp else Inl e, d') \<and>
    cs_code resp = int code \<and> cs_status resp = status_shown code \<and> cs_header resp = h"
proof -
  have "icap_answer code h \<noteq> []" by (simp add: icap_answer_def)
  then have r: "received clib (sk_in s) = (case first_complete [] [icap_answer code h] of
       Some (data, rest) \<Rightarrow> (read_response clib data, \<lparr>segs = rest, net_err = e\<rparr>)
     | None \<Rightarrow> (Inl e, \<lparr>segs = [], net_err = e\<rparr>))"
    using received_segments [of "[icap_answer code h]" clib e] assms(3,5,6) by simp
  from answer_read [OF assms(1,2), of clib] obtain resp where
    "read_response clib (icap_answer code h) = Inr resp" "cs_code resp = int code" "cs_status resp = status_shown code"
    "cs_header resp = h" by blast
  then show ?thesis
    using driver_receive_connected [OF assms(4), of clib] r by (cases "response_complete (icap_answer code h)") auto
qed

text \<open>\<open>WriteHeader\<close> always leaves a field on the wire.\<close>

lemma written_encapsulated:
  assumes "write_header lib code NoMsg False w = Done w'" and "\<not> rw_wrote_header w"
    and "readable_header (written_header (rw_header w'))"
  shows "flat_header (written_header (rw_header w')) \<noteq> []"
proof -
  have "hget (rw_header w') ''Encapsulated'' = ''null-body=0''"
    using assms(1,2) by (auto simp: write_header_eq header_written_def response_header_encapsulated encap_value_def)
  moreover have "canonical_key ''Encapsulated'' = ''Encapsulated''" by code_simp
  ultimately obtain vs where "map_of (rw_header w') ''Encapsulated'' = Some vs"
    by (auto simp: hget_def split: option.splits list.splits)
  then have "(''Encapsulated'', vs) \<in> set (rw_header w')" by (rule map_of_SomeD)
  moreover have "list_all is_token_char ''Encapsulated''" by code_simp
  ultimately have "(''Encapsulated'', map header_value vs) \<in> set (written_header (rw_header w'))"
    by (force simp: written_header_def)
  with assms(3) have "map header_value vs \<noteq> []" by (auto simp: readable_header_def list_all_iff)
  with \<open>(''Encapsulated'', map header_value vs) \<in> set (written_header (rw_header w'))\<close> show ?thesis
    by (force simp: flat_header_def)
qed

section \<open>Properties\<close>

text \<open>C24: An answer of the server without an HTTP message, in one segment of a connection that stays open, gets to the
  caller of the client, with the status and the header the server wrote, exactly when it is a \<open>204\<close>, or the value of its
  last field ends in a zero, or the text of a \<open>204\<close> stands somewhere in it. So a \<open>404\<close> is read, because it ends in
  \<open>Encapsulated: null-body=0\<close>; the answer to \<open>OPTIONS\<close>, which ends in \<open>Transfer-Preview: *\<close>, is not: the client
  waits for more until its deadline and reports that instead.\<close>

theorem client_receives_answer:
  assumes "write_header lib code NoMsg False w = Done w'" and "\<not> rw_wrote_header w" and "rw_out w = []"
    and "readable_header (written_header (rw_header w'))" and "code < 2 ^ 63" and "length (rw_out w') \<le> 1096"
    and "connected d s" and "sk_in s = \<lparr>segs = [rw_out w'], net_err = e\<rparr>" and "e \<noteq> EOF"
  shows "\<exists>d' resp. driver_receive clib d =
      Done (if code = 204 \<or> ends_in_zero (written_header (rw_header w')) \<or> contains (rw_out w') icap_204_no_mods
            then Inr resp else Inl e, d') \<and>
    cs_code resp = int code \<and> cs_status resp = status_shown code \<and> cs_header resp = written_header (rw_header w')"
proof -
  have "rw_out w' = icap_answer code (written_header (rw_header w'))"
    using write_header_answer [OF assms(1,2)] assms(3) by simp
  with assms(4-9) answer_taken [OF written_encapsulated [OF assms(1,2,4)], of code] show ?thesis
    using answer_received [of "written_header (rw_header w')" code d s e clib] by (auto simp: taken_whole_def)
qed

text \<open>The server's answers to OPTIONS and to a request for an unknown service.\<close>

definition sample_options_writer :: resp_writer where
  "sample_options_writer = \<lparr>rw_conn = \<lparr>c_in = \<lparr>rbuf = [], under = \<lparr>segs = [], net_err = EOF\<rparr>\<rparr>, c_out = []\<rparr>,
     rw_method = ''OPTIONS'', rw_header = [(''Methods'', [''REQMOD'']), (''Transfer-Preview'', [''*''])],
     rw_wrote_header = False, rw_wrote_raw = False, rw_chunked = False\<rparr>"

lemma client_receives_answer_witness:
  "(\<exists>w' d'. write_header sample_lib 200 NoMsg False sample_options_writer = Done w' \<and>
     driver_receive sample_client_lib (sample_driver [rw_out w']) = Done (Inl (ErrText ''i/o timeout''), d')) \<and>
   (\<exists>w' d' resp. write_header sample_lib 404 NoMsg False (sample_options_writer\<lparr>rw_header := []\<rparr>) = Done w' \<and>
     driver_receive sample_client_lib (sample_driver [rw_out w']) = Done (Inr resp, d') \<and> cs_code resp = 404)"
proof
  have s: "sk_in (sample_socket [bs]) = \<lparr>segs = [bs], net_err = ErrText ''i/o timeout''\<rparr>" for bs
    by (simp add: sample_socket_def)
  have w: "write_header sample_lib code NoMsg False (sample_options_writer\<lparr>rw_header := h\<rparr>) =
      Done (header_written sample_lib code NoMsg False (sample_options_writer\<lparr>rw_header := h\<rparr>))"
    "\<not> rw_wrote_header (sample_options_writer\<lparr>rw_header := h\<rparr>)" "rw_out (sample_options_writer\<lparr>rw_header := h\<rparr>) = []" for code h
    by (simp_all add: write_header_eq sample_options_writer_def rw_out_def)
  define o' where "o' = header_written sample_lib 200 NoMsg False
    (sample_options_writer\<lparr>rw_header := [(''Methods'', [''REQMOD'']), (''Transfer-Preview'', [''*''])]\<rparr>)"
  have c: "readable_header (written_header (rw_header o'))" "length (rw_out o') \<le> 1096"
    "\<not> ends_in_zero (written_header (rw_header o'))" "\<not> contains (rw_out o') icap_204_no_mods"
    unfolding o'_def by code_simp+
  have same: "sample_options_writer\<lparr>rw_header := [(''Methods'', [''REQMOD'']), (''Transfer-Preview'', [''*''])]\<rparr> = sample_options_writer"
    by (simp add: sample_options_writer_def)
  from client_receives_answer [OF w(1) [of 200 "[(''Methods'', [''REQMOD'']), (''Transfer-Preview'', [''*''])]", folded o'_def] w(2,3) c(1) _ c(2) sample_connected s, of sample_client_lib]
      c(3,4) w(1) [of 200 "[(''Methods'', [''REQMOD'']), (''Transfer-Preview'', [''*''])]", folded o'_def]
  show "\<exists>w' d'. write_header sample_lib 200 NoMsg False sample_options_writer = Done w' \<and>
     driver_receive sample_client_lib (sample_driver [rw_out w']) = Done (Inl (ErrText ''i/o timeout''), d')"
    by (auto simp: same)
  define n' where "n' = header_written sample_lib 404 NoMsg False (sample_options_writer\<lparr>rw_header := []\<rparr>)"
  have n: "readable_header (written_header (rw_header n'))" "length (rw_out n') \<le> 1096"
    "ends_in_zero (written_header (rw_header n'))"
    unfolding n'_def by code_simp+
  from client_receives_answer [OF w(1) [of 404 "[]", folded n'_def] w(2,3) n(1) _ n(2) sample_connected s, of sample_client_lib]
      n(3) w(1) [of 404 "[]", folded n'_def]
  show "\<exists>w' d' resp. write_header sample_lib 404 NoMsg False (sample_options_writer\<lparr>rw_header := []\<rparr>) = Done w' \<and>
     driver_receive sample_client_lib (sample_driver [rw_out w']) = Done (Inr resp, d') \<and> cs_code resp = 404"
    by auto
qed

end
