(* ===== verification/ClientTestServer.thy ===== *)
theory ClientTestServer
  imports ClientAnswers IcapServer
begin

text \<open>
  \<open>test_server.go\<close> and \<open>debug.go\<close> of \<open>icap-client/\<close>: the server the client is tried against, built on the
  server of \<open>icap/\<close>, and the debug output of the client's package.
\<close>

section \<open>The test server\<close>

definition preview_bytes :: nat where "preview_bytes = 24"

definition good_file_detect_str :: string where "good_file_detect_str = ''GOOD FILE''"

definition bad_file_detect_str :: string where "bad_file_detect_str = ''BAD FILE''"

definition good_url :: string where "good_url = ''http://goodifle.com''"

definition bad_url :: string where "bad_url = ''http://badfile.com''"

definition test_headers :: "resp_writer \<Rightarrow> resp_writer" where
  "test_headers w = rw_set_header ''Service'' ''ICAP-TEST-SERVICE'' (rw_set_header ''ISTag'' ''ICAP-TEST'' w)"

definition test_options :: "http_lib \<Rightarrow> string \<Rightarrow> resp_writer \<Rightarrow> resp_writer outcome" where
  "test_options lib methods w =
     (let w1 = rw_set_header ''Allow'' ''204'' (rw_set_header ''Methods'' methods w);
          w2 = (if 0 < preview_bytes then rw_set_header ''Preview'' (itoa preview_bytes) w1 else w1)
      in write_header lib 200 NoMsg False (rw_set_header ''Transfer-Preview'' ''*'' w2))"

text \<open>\<open>!exist || (len(val) > 0 && val[0] != "204")\<close>, on the values under the key \<open>Allow\<close>.\<close>

definition not_allowing_204 :: "header \<Rightarrow> bool" where
  "not_allowing_204 h = (case map_of h ''Allow'' of None \<Rightarrow> True | Some vs \<Rightarrow> vs \<noteq> [] \<and> vs ! 0 \<noteq> ''204'')"

text \<open>The status stays 0 for what is neither good nor bad, and \<open>WriteHeader\<close> is called with it all the same.\<close>

definition file_status :: "bytes \<Rightarrow> nat" where
  "file_status bs =
     (let status = (if contains bs good_file_detect_str then 204 else 0)
      in if contains bs bad_file_detect_str then 200 else status)"

definition url_status :: "string \<Rightarrow> nat" where
  "url_status u = (let status = (if u = good_url then 204 else 0) in if u = bad_url then 200 else status)"

definition respmod_handler :: "http_lib \<Rightarrow> icap_handler" where
  "respmod_handler lib w req =
     (let w1 = test_headers w in
      if ir_method req = ''OPTIONS'' then test_options lib ''RESPMOD'' w1
      else if ir_method req = ''RESPMOD'' then
        (case ir_response req of
           None \<Rightarrow> Panic ''nil response''
         | Some r \<Rightarrow>
             if rs_body r = NilBody then Panic ''nil body''
             else if not_allowing_204 (ir_header req) then write_header lib 204 NoMsg False w1
             else bind_outcome (read_body lib (rs_body r) (rw_conn w1)) (\<lambda>(bs, err, bd, c).
               write_header lib (if err \<noteq> None then 204 else file_status bs) NoMsg False (w1\<lparr>rw_conn := c\<rparr>)))
      else Done w1)"

definition reqmod_handler :: "http_lib \<Rightarrow> icap_handler" where
  "reqmod_handler lib w req =
     (let w1 = test_headers w in
      if ir_method req = ''OPTIONS'' then test_options lib ''REQMOD'' w1
      else if ir_method req = ''REQMOD'' then
        (if not_allowing_204 (ir_header req) then write_header lib 204 NoMsg False w1
         else (case ir_request req of
                 None \<Rightarrow> Panic ''nil request''
               | Some r \<Rightarrow> write_header lib (url_status (rq_uri r)) NoMsg False w1))
      else Done w1)"

definition test_port :: nat where "test_port = 1344"

text \<open>
  Both handlers go to the default multiplexer, which the listener serves; what \<open>ListenAndServe\<close> returns is
  logged. The signal that ends the process is left out.
\<close>

definition start_test_server :: "http_lib \<Rightarrow> (string \<Rightarrow> go_error option) \<Rightarrow> serve_mux \<Rightarrow> nat \<Rightarrow> accept_event list \<Rightarrow>
    (serve_mux \<times> (icap_request list \<times> serve_end \<times> conn_io) option list \<times> go_error option) outcome" where
  "start_test_server lib listen m fuel evs =
     bind_outcome (mux_handle lib ''/respmod'' (respmod_handler lib) m) (\<lambda>m1.
     bind_outcome (mux_handle lib ''/reqmod'' (reqmod_handler lib) m1) (\<lambda>m2.
       Done (m2, (case listen ('':'' @ itoa test_port) of
                    Some err \<Rightarrow> ([], Some err)
                  | None \<Rightarrow> server_serve lib m2 None fuel evs))))"

definition test_server_running :: "(string \<Rightarrow> go_error option) \<Rightarrow> bool" where
  "test_server_running listen \<longleftrightarrow> listen ('':'' @ itoa test_port) \<noteq> None"

section \<open>Debug output\<close>

text \<open>
  The variables of the package: the mode, the writer, and the writer the logger goes to, where there is a
  logger. Writers have names of type \<open>'w\<close>; \<open>ds_written\<close> is what was written, in order.
\<close>

record 'w debug_state =
  ds_debug :: bool
  ds_writer :: "'w option"
  ds_logger :: "'w option"
  ds_written :: "('w \<times> string) list"

definition debug_start :: "'w debug_state" where
  "debug_start = \<lparr>ds_debug = False, ds_writer = None, ds_logger = None, ds_written = []\<rparr>"

definition debug_prefix :: string where "debug_prefix = ''icap-client says: ''"

definition set_debug_mode :: "'w \<Rightarrow> bool \<Rightarrow> 'w debug_state \<Rightarrow> 'w debug_state" where
  "set_debug_mode stdout debug s =
     (let s1 = s\<lparr>ds_debug := debug\<rparr>
      in if debug then s1\<lparr>ds_writer := Some stdout, ds_logger := Some stdout\<rparr> else s1)"

text \<open>A logger that was never made is a nil pointer.\<close>

definition set_debug_output :: "'w \<Rightarrow> 'w debug_state \<Rightarrow> 'w debug_state outcome" where
  "set_debug_output w s =
     (case ds_logger s of
        None \<Rightarrow> Panic ''nil logger''
      | Some _ \<Rightarrow> Done (s\<lparr>ds_writer := Some w, ds_logger := Some w\<rparr>))"

text \<open>A line of the logger: prefix, time (\<open>stamp\<close>) and text.\<close>

definition logger_output :: "string \<Rightarrow> string \<Rightarrow> 'w debug_state \<Rightarrow> 'w debug_state outcome" where
  "logger_output stamp text s =
     (case ds_logger s of
        None \<Rightarrow> Panic ''nil logger''
      | Some w \<Rightarrow> Done (s\<lparr>ds_written := ds_written s @ [(w, debug_prefix @ stamp @ SP # text @
          (if text \<noteq> [] \<and> last text = LF then [] else [LF]))]\<rparr>))"

definition log_debug :: "string \<Rightarrow> string list \<Rightarrow> 'w debug_state \<Rightarrow> 'w debug_state outcome" where
  "log_debug stamp a s = (if ds_debug s then logger_output stamp (join a '' '' @ [LF]) s else Done s)"

definition logf_debug :: "fmt_lib \<Rightarrow> string \<Rightarrow> string \<Rightarrow> string list \<Rightarrow> 'w debug_state \<Rightarrow> 'w debug_state outcome" where
  "logf_debug fl stamp fmt a s = (if ds_debug s then logger_output stamp (sprintf fl fmt a) s else Done s)"

text \<open>\<open>dump\<close> is \<open>spew\<close>.\<close>

definition dump_debug :: "('a list \<Rightarrow> string) \<Rightarrow> 'a list \<Rightarrow> 'w debug_state \<Rightarrow> 'w debug_state outcome" where
  "dump_debug dump a s =
     (if ds_debug s
      then (case ds_writer s of
              None \<Rightarrow> Panic ''nil writer''
            | Some w \<Rightarrow> Done (s\<lparr>ds_written := ds_written s @ [(w, dump a)]\<rparr>))
      else Done s)"

text \<open>A caller of the package: its calls, and what the package itself logs and dumps in between.\<close>

datatype ('w, 'a) debug_call = SetDebugMode bool | SetDebugOutput 'w | LogDebug "string list" | DumpDebug "'a list"

fun debug_step :: "'w \<Rightarrow> string \<Rightarrow> ('a list \<Rightarrow> string) \<Rightarrow> ('w, 'a) debug_call \<Rightarrow> 'w debug_state \<Rightarrow> 'w debug_state outcome" where
  "debug_step stdout stamp dump (SetDebugMode b) s = Done (set_debug_mode stdout b s)"
| "debug_step stdout stamp dump (SetDebugOutput w) s = set_debug_output w s"
| "debug_step stdout stamp dump (LogDebug a) s = log_debug stamp a s"
| "debug_step stdout stamp dump (DumpDebug a) s = dump_debug dump a s"

fun debug_calls :: "'w \<Rightarrow> string \<Rightarrow> ('a list \<Rightarrow> string) \<Rightarrow> ('w, 'a) debug_call list \<Rightarrow> 'w debug_state \<Rightarrow>
    'w debug_state outcome" where
  "debug_calls stdout stamp dump [] s = Done s"
| "debug_calls stdout stamp dump (c # cs) s =
     bind_outcome (debug_step stdout stamp dump c s) (debug_calls stdout stamp dump cs)"

text \<open>Logger and writer are the same, and there is one while the mode is on.\<close>

definition debug_inv :: "'w debug_state \<Rightarrow> bool" where
  "debug_inv s \<longleftrightarrow> ds_writer s = ds_logger s \<and> (ds_debug s \<longrightarrow> ds_logger s \<noteq> None)"

lemmas debug_defs = set_debug_mode_def set_debug_output_def log_debug_def dump_debug_def logger_output_def debug_inv_def

lemma debug_step_inv: "debug_step stdout stamp dump c s = Done s' \<Longrightarrow> debug_inv s \<Longrightarrow> debug_inv s'"
  by (cases c) (auto simp: debug_defs Let_def split: option.splits if_splits)

lemma debug_step_logger:
  "debug_step stdout stamp dump c s = Done s' \<Longrightarrow> ds_logger s' = None \<longleftrightarrow> ds_logger s = None \<and> c \<noteq> SetDebugMode True"
  by (cases c) (auto simp: debug_defs Let_def split: option.splits if_splits)

lemma debug_step_panics:
  "debug_inv s \<Longrightarrow> (\<exists>p. debug_step stdout stamp dump c s = Panic p) \<longleftrightarrow> ds_logger s = None \<and> (\<exists>w. c = SetDebugOutput w)"
  by (cases c) (auto simp: debug_defs split: option.splits if_splits)

lemma debug_calls_panic:
  assumes "debug_inv s"
  shows "(\<exists>p. debug_calls stdout stamp dump cs s = Panic p) \<longleftrightarrow>
    ds_logger s = None \<and> (\<exists>w. SetDebugOutput w \<in> set (takeWhile (\<lambda>c. c \<noteq> SetDebugMode True) cs))"
  using assms
proof (induction cs arbitrary: s)
  case (Cons c cs)
  show ?case
  proof (cases "debug_step stdout stamp dump c s")
    case (Done s')
    then have "\<not> (ds_logger s = None \<and> (\<exists>w. c = SetDebugOutput w))"
      using debug_step_panics [OF Cons.prems, of stdout stamp dump c] by simp
    with Done Cons.IH [OF debug_step_inv [OF Done Cons.prems]] debug_step_logger [OF Done] show ?thesis
      by auto
  next
    case (Panic p)
    then have "ds_logger s = None \<and> (\<exists>w. c = SetDebugOutput w)"
      using debug_step_panics [OF Cons.prems, of stdout stamp dump c] by blast
    with Panic show ?thesis by auto
  qed
qed simp

section \<open>The test server serves\<close>

text \<open>Requests for the two paths reach the two handlers.\<close>

lemma test_server_paths:
  assumes "start_test_server lib listen [] fuel evs = Done (m, served)" and "u_host (ir_url req) = []"
  shows "u_path (ir_url req) = ''/respmod'' \<Longrightarrow> mux_serve lib m w req = respmod_handler lib w req"
    and "u_path (ir_url req) = ''/reqmod'' \<Longrightarrow> mux_serve lib m w req = reqmod_handler lib w req"
proof -
  have m: "m = [(''/respmod'', respmod_handler lib), (''/reqmod'', reqmod_handler lib)]"
    using assms(1) by (auto simp: start_test_server_def mux_handle_def)
  have c: "clean_path ''/respmod'' = ''/respmod''" "clean_path ''/reqmod'' = ''/reqmod''" by code_simp+
  show "u_path (ir_url req) = ''/respmod'' \<Longrightarrow> mux_serve lib m w req = respmod_handler lib w req"
    "u_path (ir_url req) = ''/reqmod'' \<Longrightarrow> mux_serve lib m w req = reqmod_handler lib w req"
    using assms(2) c by (simp_all add: m mux_serve_def match_handler_def match_step_def path_match_def)
qed

text \<open>The header of an answer of the test server, in the order it is written.\<close>

definition test_answer_header :: "http_lib \<Rightarrow> header" where
  "test_answer_header lib = [(''Date'', [header_value (lib_now lib)]), (''Encapsulated'', [''null-body=0'']),
     (''Istag'', [''ICAP-TEST'']), (''Service'', [''ICAP-TEST-SERVICE''])]"

lemma test_answer:
  assumes "\<not> rw_wrote_header w" and "rw_header w = []"
  shows "\<exists>w'. write_header lib code NoMsg False (test_headers w) = Done w' \<and>
    rw_out w' = rw_out w @ icap_answer code (test_answer_header lib)"
proof -
  let ?w = "test_headers w"
  have k: "canonical_key ''ISTag'' = ''Istag''" "canonical_key ''Service'' = ''Service''" "canonical_key ''Encapsulated'' = ''Encapsulated''"
    "canonical_key ''Date'' = ''Date''" by code_simp+
  have h: "response_header lib NoMsg False ?w = [(''Istag'', [''ICAP-TEST'']), (''Service'', [''ICAP-TEST-SERVICE'']),
      (''Encapsulated'', [''null-body=0'']), (''Date'', [lib_now lib])]"
    using assms(2) by (simp add: response_header_def test_headers_def rw_set_header_def hset_def k encap_value_def)
  have v: "header_value ''null-body=0'' = ''null-body=0''" "header_value ''ICAP-TEST'' = ''ICAP-TEST''"
    "header_value ''ICAP-TEST-SERVICE'' = ''ICAP-TEST-SERVICE''" by code_simp+
  have t: "list_all (\<lambda>k. k \<noteq> [] \<and> list_all is_token_char k) [''Istag'', ''Service'', ''Encapsulated'', ''Date'']" by code_simp
  have o: "sort_key fst [(''Istag'', a), (''Service'', b), (''Encapsulated'', c), (''Date'', d)] =
      [(''Date'', d), (''Encapsulated'', c), (''Istag'', a), (''Service'', b)]" for a b c d :: "string list"
    by code_simp
  have wr: "written_header (response_header lib NoMsg False ?w) = test_answer_header lib"
    using t by (simp add: h written_header_def o v test_answer_header_def)
  have nw: "\<not> rw_wrote_header ?w" "rw_out ?w = rw_out w" using assms(1) by (simp_all add: test_headers_def rw_set_header_def rw_out_def)
  from nw(1) have "write_header lib code NoMsg False ?w = Done (header_written lib code NoMsg False ?w)"
    by (simp add: write_header_eq)
  moreover have "rw_header (header_written lib code NoMsg False ?w) = response_header lib NoMsg False ?w"
    by (simp add: header_written_def)
  ultimately show ?thesis using write_header_answer [of lib code ?w] nw wr by simp
qed

text \<open>What the client needs of the date to see where the answer ends.\<close>

definition plain_date :: "http_lib \<Rightarrow> bool" where
  "plain_date lib \<longleftrightarrow> client_field (''Date'', header_value (lib_now lib)) \<and> CHR ''/'' \<notin> set (header_value (lib_now lib)) \<and>
     length (header_value (lib_now lib)) \<le> 100"

lemma test_answer_readable: "plain_date lib \<Longrightarrow> readable_header (test_answer_header lib)"
proof -
  have "list_all client_field [(''Encapsulated'', ''null-body=0''), (''Istag'', ''ICAP-TEST''), (''Service'', ''ICAP-TEST-SERVICE'')]"
    "list_all (\<lambda>k. canonical_key k = k) [''Date'', ''Encapsulated'', ''Istag'', ''Service'']"
    by code_simp+
  then show "plain_date lib \<Longrightarrow> readable_header (test_answer_header lib)"
    by (simp add: plain_date_def readable_header_def test_answer_header_def)
qed

lemma test_answer_wire:
  "icap_answer code (test_answer_header lib) = ''ICAP'' @ CHR ''/'' # ''1.0 '' @ itoa code @ SP # status_shown code @ crlf @
     ''Date: '' @ header_value (lib_now lib) @ crlf @ ''Encapsulated: null-body=0'' @ crlf @ ''Istag: ICAP-TEST'' @ crlf @
     ''Service: ICAP-TEST-SERVICE'' @ double_crlf"
  by (simp add: icap_answer_def test_answer_header_def flat_header_def field_line_def double_crlf_def)

lemma test_answer_incomplete:
  assumes "plain_date lib" and "code = 0 \<or> code = 200"
  shows "\<not> has_suffix (icap_answer code (test_answer_header lib)) (''0'' @ double_crlf)"
    and "\<not> contains (icap_answer code (test_answer_header lib)) icap_204_no_mods"
proof -
  have sfx: "\<not> has_suffix (x @ ''E'' @ double_crlf) (''0'' @ double_crlf)" for x
    by (auto simp: has_suffix_iff double_crlf_def)
  show "\<not> has_suffix (icap_answer code (test_answer_header lib)) (''0'' @ double_crlf)"
    using sfx [of "''ICAP'' @ CHR ''/'' # ''1.0 '' @ itoa code @ SP # status_shown code @ crlf @
     ''Date: '' @ header_value (lib_now lib) @ crlf @ ''Encapsulated: null-body=0'' @ crlf @ ''Istag: ICAP-TEST'' @ crlf @
     ''Service: ICAP-TEST-SERVIC''"] by (simp add: test_answer_wire)
next
  have st: "itoa 0 = ''0''" "itoa 200 = ''200''" "status_shown 0 = ''status code 0''" "status_shown 200 = ''OK''" by code_simp+
  let ?rest = "''1.0 '' @ itoa code @ SP # status_shown code @ crlf @
     ''Date: '' @ header_value (lib_now lib) @ crlf @ ''Encapsulated: null-body=0'' @ crlf @ ''Istag: ICAP-TEST'' @ crlf @
     ''Service: ICAP-TEST-SERVICE'' @ double_crlf"
  have slash: "CHR ''/'' \<notin> set ''ICAP''" "CHR ''/'' \<notin> set ?rest"
    using assms by (auto simp: st plain_date_def double_crlf_def)
  have lead: "CHR ''/'' \<notin> set a" if "''ICAP'' @ CHR ''/'' # ?rest = (a @ ''ICAP'') @ CHR ''/'' # b" for a b
  proof -
    have "count_list (''ICAP'' @ CHR ''/'' # ?rest) (CHR ''/'') = count_list ((a @ ''ICAP'') @ CHR ''/'' # b) (CHR ''/'')"
      by (simp only: that)
    then show ?thesis using slash by (simp add: count_list_0_iff)
  qed
  show "\<not> contains (icap_answer code (test_answer_header lib)) icap_204_no_mods"
  proof
    assume "contains (icap_answer code (test_answer_header lib)) icap_204_no_mods"
    then obtain a b where ab: "''ICAP'' @ CHR ''/'' # ?rest = (a @ ''ICAP'') @ CHR ''/'' # ''1.0 204 No modifications'' @ b"
      unfolding contains_iff test_answer_wire by (auto simp: icap_204_no_mods_def)
    have "CHR ''/'' \<notin> set (a @ ''ICAP'')" using lead [OF ab] by simp
    from first_occurrence_unique(2) [OF ab slash(1) this] show False using assms(2) by (auto simp: st)
  qed
qed

lemma test_answer_short:
  assumes "plain_date lib" and "code \<in> {0, 200, 204}"
  shows "length (icap_answer code (test_answer_header lib)) \<le> 1096"
proof -
  have "list_all (\<lambda>c. length (itoa c) + length (status_shown c) \<le> 100) [0, 200, 204]" by code_simp
  then have "length (itoa code) + length (status_shown code) \<le> 100" using assms(2) by auto
  then show ?thesis using assms(1) by (simp add: test_answer_wire plain_date_def double_crlf_def)
qed

lemma read_body_out: "read_body lib bd c = Done (bs, err, bd', c') \<Longrightarrow> c_out c' = c_out c"
  by (auto simp: read_body_def split: body.splits option.splits)

lemma verdicts:
  "file_status bs = (if contains bs ''BAD FILE'' then 200 else if contains bs ''GOOD FILE'' then 204 else 0)"
  "url_status u = (if u = ''http://badfile.com'' then 200 else if u = ''http://goodifle.com'' then 204 else 0)"
  "file_status bs \<in> {0, 200, 204}" "url_status u \<in> {0, 200, 204}"
  by (simp_all add: file_status_def url_status_def Let_def bad_file_detect_str_def good_file_detect_str_def bad_url_def good_url_def)

section \<open>Properties\<close>

text \<open>C25: The verdict of the test server on a file or a URL, and what the client is told of it: the \<open>204\<close> for a good one, or for
  any when the request does not allow 204. A bad one (\<open>200\<close>), or one it does not know (status 0), is answered without
  the client seeing the end of the answer.\<close>

theorem test_server_verdict_received:
  assumes "start_test_server lib listen [] fuel evs = Done (m, served)" and "plain_date lib"
    and "\<not> rw_wrote_header w" and "rw_header w = []" and "rw_out w = []" and "u_host (ir_url req) = []"
    and "ir_method req = ''RESPMOD'' \<and> u_path (ir_url req) = ''/respmod'' \<and> ir_response req = Some rs \<and>
           read_body lib (rs_body rs) (rw_conn w) = Done (bs, None, bd, c) \<and>
           verdict = (if contains bs ''BAD FILE'' then 200 else if contains bs ''GOOD FILE'' then 204 else 0) \<or>
         ir_method req = ''REQMOD'' \<and> u_path (ir_url req) = ''/reqmod'' \<and> ir_request req = Some rq \<and>
           verdict = (if rq_uri rq = ''http://badfile.com'' then 200 else if rq_uri rq = ''http://goodifle.com'' then 204 else 0)"
    and "code = (if not_allowing_204 (ir_header req) then 204 else verdict)"
  shows "\<exists>w'. mux_serve lib m w req = Done w' \<and> rw_out w' = icap_answer code (test_answer_header lib) \<and> code \<in> {0, 200, 204} \<and>
    (\<forall>d s e. connected d s \<and> sk_in s = \<lparr>segs = [rw_out w'], net_err = e\<rparr> \<and> e \<noteq> EOF \<longrightarrow>
       (\<exists>d' resp. driver_receive clib d = Done (if code = 204 then Inr resp else Inl e, d') \<and> cs_code resp = int code))"
proof -
  have "code = 204 \<or> code = file_status bs \<or> code = url_status (rq_uri rq)"
    using assms(7,8) by (auto simp only: verdicts(1,2) split: if_splits)
  then have code: "code \<in> {0, 200, 204}" using verdicts(3,4) by (elim disjE) simp_all
  let ?v = "w\<lparr>rw_conn := c\<rparr>"
  have v: "test_headers w\<lparr>rw_conn := c\<rparr> = test_headers ?v" by (simp add: test_headers_def rw_set_header_def)
  have tc: "rw_conn (test_headers w) = rw_conn w" by (simp add: test_headers_def rw_set_header_def)
  have "\<exists>u. mux_serve lib m w req = write_header lib code NoMsg False (test_headers u) \<and>
      \<not> rw_wrote_header u \<and> rw_header u = [] \<and> rw_out u = []"
    using assms(7)
  proof (elim disjE conjE)
    assume r: "ir_method req = ''RESPMOD''" "u_path (ir_url req) = ''/respmod''" "ir_response req = Some rs"
      "read_body lib (rs_body rs) (rw_conn w) = Done (bs, None, bd, c)"
      "verdict = (if contains bs ''BAD FILE'' then 200 else if contains bs ''GOOD FILE'' then 204 else 0)"
    have "rs_body rs \<noteq> NilBody" using r(4) by (auto simp: read_body_def)
    then have "respmod_handler lib w req = (if not_allowing_204 (ir_header req) then write_header lib 204 NoMsg False (test_headers w)
        else write_header lib verdict NoMsg False (test_headers ?v))"
      using r(1,3,4) unfolding r(5) verdicts(1) [symmetric] by (simp add: respmod_handler_def Let_def tc v)
    moreover have "rw_out ?v = []" using read_body_out [OF r(4)] assms(5) by (simp add: rw_out_def)
    ultimately show ?thesis
      using test_server_paths(1) [OF assms(1,6) r(2)] assms(3-5,8)
      by (cases "not_allowing_204 (ir_header req)") (auto intro: exI [of _ w] exI [of _ ?v])
  next
    assume r: "ir_method req = ''REQMOD''" "u_path (ir_url req) = ''/reqmod''" "ir_request req = Some rq"
      "verdict = (if rq_uri rq = ''http://badfile.com'' then 200 else if rq_uri rq = ''http://goodifle.com'' then 204 else 0)"
    from r(4) have "verdict = url_status (rq_uri rq)" by (simp only: verdicts(2))
    then have "reqmod_handler lib w req = write_header lib code NoMsg False (test_headers w)"
      using r(1,3) assms(8) by (simp add: reqmod_handler_def Let_def)
    then show ?thesis
      using test_server_paths(2) [OF assms(1,6) r(2)] assms(3-5) by (auto intro: exI [of _ w])
  qed
  then obtain w' where w': "mux_serve lib m w req = Done w'" "rw_out w' = icap_answer code (test_answer_header lib)"
    using test_answer by fastforce
  let ?a = "icap_answer code (test_answer_header lib)"
  have inc: "code \<noteq> 204 \<longrightarrow> \<not> has_suffix ?a (''0'' @ double_crlf) \<and> \<not> contains ?a icap_204_no_mods"
    using test_answer_incomplete [OF assms(2)] code by auto
  have len: "code < 2 ^ 63" "length ?a \<le> 1096" using test_answer_short [OF assms(2)] code by auto
  have "\<exists>d' resp. driver_receive clib d = Done (if code = 204 then Inr resp else Inl e, d') \<and> cs_code resp = int code"
    if "connected d s" "sk_in s = \<lparr>segs = [rw_out w'], net_err = e\<rparr>" "e \<noteq> EOF" for d s e
    using answer_received [OF test_answer_readable [OF assms(2)] len that(1) that(2) [unfolded w'(2)] that(3), of clib]
    unfolding answer_complete [OF inc] by blast
  with w' code show ?thesis by blast
qed

lemma test_server_verdict_received_witness:
  "\<exists>m served w' d'. start_test_server sample_lib (\<lambda>_. None) [] 1 [] = Done (m, served) \<and>
     mux_serve sample_lib m (sample_options_writer\<lparr>rw_header := []\<rparr>)
       (new_icap_request\<lparr>ir_method := ''RESPMOD'', ir_url := zero_url\<lparr>u_path := ''/respmod''\<rparr>, ir_header := [(''Allow'', [''204''])],
          ir_response := Some (sample_response\<lparr>rs_body := BytesBody ''a BAD FILE''\<rparr>)\<rparr>) = Done w' \<and>
     driver_receive sample_client_lib (sample_driver [rw_out w']) = Done (Inl (ErrText ''i/o timeout''), d')"
proof -
  let ?w = "sample_options_writer\<lparr>rw_header := []\<rparr>"
  let ?rs = "sample_response\<lparr>rs_body := BytesBody ''a BAD FILE''\<rparr>"
  let ?req = "new_icap_request\<lparr>ir_method := ''RESPMOD'', ir_url := zero_url\<lparr>u_path := ''/respmod''\<rparr>, ir_header := [(''Allow'', [''204''])],
          ir_response := Some ?rs\<rparr>"
  obtain m served where st: "start_test_server sample_lib (\<lambda>_. None) [] 1 [] = Done (m, served)"
    by (simp add: start_test_server_def mux_handle_def)
  have pd: "plain_date sample_lib" by code_simp
  have f: "contains ''a BAD FILE'' ''BAD FILE''" by code_simp
  have na: "\<not> not_allowing_204 (ir_header ?req)" by (simp add: not_allowing_204_def)
  have rd: "read_body sample_lib (rs_body ?rs) (rw_conn ?w) = Done (''a BAD FILE'', None, BytesBody [], rw_conn ?w)"
    by (simp add: read_body_def)
  have "\<exists>w'. mux_serve sample_lib m ?w ?req = Done w' \<and> rw_out w' = icap_answer 200 (test_answer_header sample_lib) \<and> 200 \<in> {0, 200, 204::nat} \<and>
    (\<forall>d s e. connected d s \<and> sk_in s = \<lparr>segs = [rw_out w'], net_err = e\<rparr> \<and> e \<noteq> EOF \<longrightarrow>
       (\<exists>d' resp. driver_receive sample_client_lib d = Done (if 200 = (204::nat) then Inr resp else Inl e, d') \<and> cs_code resp = int 200))"
    by (rule test_server_verdict_received [OF st pd, where rs = ?rs and bs = "''a BAD FILE''" and bd = "BytesBody []" and c = "rw_conn ?w" and verdict = 200])
      (use f na rd in \<open>simp_all add: zero_url_def sample_options_writer_def rw_out_def\<close>)
  then obtain w' where w': "mux_serve sample_lib m ?w ?req = Done w'"
    "\<And>d s e. connected d s \<Longrightarrow> sk_in s = \<lparr>segs = [rw_out w'], net_err = e\<rparr> \<Longrightarrow> e \<noteq> EOF \<Longrightarrow>
       \<exists>d'. driver_receive sample_client_lib d = Done (Inl e, d')" by auto
  have "sk_in (sample_socket [rw_out w']) = \<lparr>segs = [rw_out w'], net_err = ErrText ''i/o timeout''\<rparr>" by (simp add: sample_socket_def)
  from w'(2) [OF sample_connected this] have "\<exists>d'. driver_receive sample_client_lib (sample_driver [rw_out w']) = Done (Inl (ErrText ''i/o timeout''), d')"
    by simp
  with st w'(1) show ?thesis by blast
qed

text \<open>The debug output never stops a client, unless an output is chosen before the debug mode was
  switched on for the first time: the logger is still nil, and the call panics.\<close>

theorem debug_output_panics_iff:
  "(\<exists>p. debug_calls stdout stamp dump cs debug_start = Panic p) \<longleftrightarrow>
     (\<exists>w. SetDebugOutput w \<in> set (takeWhile (\<lambda>c. c \<noteq> SetDebugMode True) cs))"
  using debug_calls_panic [of debug_start stdout stamp dump cs] by (simp add: debug_inv_def debug_start_def)

end
