(* ===== verification/Spec2Isabelle.thy ===== *)
theory Spec2Isabelle
  imports Settled ClientTestServer
begin

text \<open>
  ICAPeg, an ICAP server in Go (RFC 3507). A proxy sends it HTTP messages over ICAP; the server checks
  them with a configured service (echo, ClamAV, hash lookup), records requests to catalogued AI tools, and
  answers with the message, another message, or "no modification".

  \<^bold>\<open>Parts and how they interact.\<close> \<open>icap/server.go\<close> accepts connections and
  serves each in a loop: read a request (\<open>icap/request.go\<close>), find a handler
  (\<open>icap/mux.go\<close>), let it answer through the response writer (\<open>icap/response.go\<close>),
  finish the response, read on. Bodies are chunked (\<open>icap/chunked.go\<close>) and stay on the
  connection until something reads them. The only handler is \<open>api/icap.go\<close> and
  \<open>api/icap-request.go\<close>: it loads the body, asks the business logic (\<open>business/\<close>:
  identity, tenant, endpoint catalogue, recording, candidate domains), then the service the path names
  (\<open>service/\<close>), possibly fetches the rest of a preview and asks again, and turns the verdict
  into the response. \<open>config/\<close> and \<open>readValues/\<close> decide at start-up which services
  exist. \<open>icap-client/\<close> is the other end of the protocol: a library that builds a request,
  dials a server, writes the request and reads the answer.

  \<^bold>\<open>Theories.\<close>

  \<^item> \<open>Icap_Prelude\<close>: bytes, errors, \<open>outcome\<close> (a result or a panic), fact collections.
  \<^item> \<open>GoStrings\<close>, \<open>GoHttp\<close>, \<open>Base64\<close>, \<open>Multipart\<close>: what the program uses of Go's \<open>strings\<close>, \<open>strconv\<close>, \<open>path\<close>,
    \<open>net/http\<close> (headers, messages, status texts), \<open>encoding/base64\<close> and the writer of \<open>mime/multipart\<close>.
  \<^item> \<open>Bufio\<close>, \<open>TextProto\<close>: \<open>bufio.Reader\<close>, \<open>io.ReadAll\<close> and \<open>net/textproto\<close> over a network that delivers
    segments. The locale \<open>source\<close> states what a reader owes (the bytes pending are delivered in order,
    whatever the segmentation), \<open>reader\<close> adds how it ends; the buffered reader is proved over them once and
    interpreted on the connection, on the reader of a body, and on a source that has nothing left.
  \<^item> \<open>Chunked\<close> (\<open>icap/chunked.go\<close>), \<open>IcapRequest\<close> (\<open>icap/request.go\<close>), \<open>IcapResponse\<close> (\<open>icap/response.go\<close>,
    \<open>status.go\<close>, \<open>bridge.go\<close>), \<open>Mux\<close> (\<open>icap/mux.go\<close>), \<open>IcapServer\<close> (\<open>icap/server.go\<close>). The locale \<open>writer\<close> of \<open>Chunked\<close> is the contract of what
    chunks are written to; \<open>net_source\<close> of \<open>IcapRequest\<close> is what the parser needs of the input.
  \<^item> \<open>Progress\<close> and \<open>Steady\<close>: readers consume what they return, and never put input back. Both are locales
    (\<open>measured_reader\<close>, \<open>steady_reader\<close>) that extend \<open>reader\<close> and pass from a reader to the buffered and the
    chunked reader over it.
  \<^item> \<open>ServiceUtils\<close> (\<open>service/services-utilities\<close>), \<open>Services\<close> (the three services and \<open>service.go\<close>). The
    locales \<open>icap_service\<close> and \<open>quiet_service\<close> state what the handler relies on, \<open>settled_service\<close> of \<open>Settled\<close> adds
    what holds with every body in memory; every service is an interpretation.
  \<^item> \<open>Config\<close> (\<open>config/config.go\<close>, \<open>readValues/\<close>, the \<open>config.go\<close> of the services).
  \<^item> \<open>UrlMatcher\<close>, \<open>TtlCache\<close>, \<open>Identity\<close>, \<open>Candidates\<close>, \<open>Recording\<close>, \<open>Business\<close> (\<open>business/\<close>). The locale
    \<open>ttl_cache\<close> states what a cache with expiry owes; the whois cache and the directory cache are its
    interpretations. \<open>Candidates\<close> is a step relation, because observations and flushes interleave.
  \<^item> \<open>ApiRequest\<close>, \<open>Answering\<close> and \<open>ApiProperties\<close> (\<open>api/\<close>): the handler, when it answers without a panic, and what a
    client gets of all this.
  \<^item> \<open>IcapegServer\<close>: the handler behind the multiplexer behind the connection loop, as \<open>server/server.go\<close> puts
    them together.
  \<^item> \<open>ApiLog\<close>: the record of a transaction for the log. \<open>Startup\<close>: \<open>StartServer\<close> itself, from the environment files
    through configuration and business logic to the listener, and the page of the second server.
  \<^item> \<open>PlainSession\<close>: the running server on connections of requests without bodies, next to a function of the
    configuration and the request. \<open>Bursts\<close> and \<open>Settled\<close>: connections of requests with bodies, for a handler that
    reads the body once, and that the handler of the program does.
  \<^item> \<open>GoFmt\<close> (\<open>fmt.Sprintf\<close> with string operands), \<open>ClientRequest\<close> (\<open>request.go\<close>, \<open>header.go\<close>, \<open>parser.go\<close>,
    \<open>validate.go\<close> of \<open>icap-client/\<close>), \<open>ClientWire\<close> (what the parser does to dumps of a given shape), \<open>ClientResponse\<close>
    (\<open>response.go\<close>), \<open>IcapClient\<close> (\<open>transport.go\<close>, \<open>driver.go\<close>, \<open>client.go\<close>).
  \<^item> \<open>ClientServer\<close> and \<open>ClientAnswers\<close>: the client's requests read by \<open>IcapRequest\<close>, and the answers of
    \<open>IcapResponse\<close> read by the client. \<open>ClientTestServer\<close>: \<open>test_server.go\<close>, \<open>debug.go\<close>, and the verdicts of the test
    server as the client receives them.

  \<^bold>\<open>State.\<close> A connection is \<open>conn_io\<close>: the buffered input and the output
  written so far. The body of a message is a value of \<open>body\<close>: nil, empty, a buffer, or a reader
  on the connection, so that reading twice or reading late is visible. The handler's state is
  \<open>api_request\<close>, the \<open>ICAPRequest\<close> of the code, which owns the writer, the writer
  the connection. Header maps are association lists; every index expression of the code that does not
  canonicalise its key is kept as such. Panics are values; the error results of the code are sums with
  \<open>go_error\<close>.

  \<^bold>\<open>What is proved.\<close> Round trips and layout of the wire format (chunks, Encapsulated,
  responses); termination of body reading and of the connection loop; requests served in order whatever the
  network does, with and without bodies; the multiplexer against a specification by the longest match; every
  service keeps its contract; outside shadow mode the handler, unless it panics, answers exactly once, and it
  does not panic on a REQMOD request with a body whose service is configured and answers; it records at most
  once, and whole bodies; refusals reach no service; matching against the catalogue refines a lookup in the
  table; identities cannot be forged; caches never answer stale; counts are conserved; environment files fill
  the gaps of the environment and of each other; start-up guarantees well-formed extension lists and goes on
  without business logic when the database fails. A number of theorems state where the code fails: a body lost
  after a preview whose blank line is still unread, requests lost behind a body that came in the same read,
  chunk sizes that wrap, a 206 response that disappears, the block page that is never sent, shadow mode that
  loses the body, hosts and paths that escape the catalogue, the second file of a form that nobody scans, the
  opt-out of a tenant that nobody reads. The client's messages are understood by the server of this repository
  under the hypotheses the theorems name; of its answers the client reads only some
  (\<open>client_receives_answer\<close> says which). Outside those hypotheses a zero preview loses the body, a
  percent sign breaks the encapsulation, and a body on the request of a RESPMOD is refused.

  \<^bold>\<open>Fuel.\<close> Loops over input take fuel: one unit more than there are bytes pending is
  enough (\<open>body_read_terminates\<close>, \<open>icapeg_connection_ends\<close>), and the definitions
  that call them supply just that. The recursion of \<open>RespAndReqMods\<close> takes two units, which
  always suffice (\<open>request_answered_once\<close>). The client reads a socket in pieces and a response
  line by line; the fuel of \<open>transport_read\<close> and \<open>read_response\<close> is the number of
  pieces and of bytes, plus one (\<open>read_loop_ends\<close>, \<open>read_response_ends\<close>).

  \<^bold>\<open>Parameters.\<close> Go's parsers of URLs and HTTP messages, regular expressions, JSON, the
  parser of multipart forms, templates, gzip, SHA-256, file type detection; ClamAV, the lookup server,
  whois, LDAP, the database, S3 and SQS; the dumps of HTTP messages and the network the client dials; the
  TOML library, the environment and the clock. They are fields of records (\<open>http_lib\<close>,
  \<open>svc_lib\<close>, \<open>scan_lib\<close>, \<open>ident_env\<close>, \<open>business_env\<close>,
  \<open>settings\<close>, \<open>client_lib\<close>); what a theorem needs of them is among its hypotheses.

  \<^bold>\<open>Not modelled.\<close> Log messages other than the record of a transaction and the set-up of
  the logger (\<open>logging/\<close>, \<open>main.go\<close>); signals and tickers of the process; TLS; write errors of sockets and their
  timeouts. Goroutines are modelled where their order
  matters: candidate counting as steps, the recording worker as a task added to the state, shadow processing
  as the state the handler leaves behind.

  \<^bold>\<open>Simplifications.\<close> The text of an error names a malformed Encapsulated field as it is, without the
  escapes of \<open>%q\<close>. The status for exception pages and the counts of candidate domains are natural numbers
  (\<open>int\<close> and \<open>int64\<close> in the code). The lookup and the update of a cache, two critical sections in the
  code, are one step. \<open>read_the_rest\<close> yields no bytes where the code would dereference a missing body, which its only
  callers rule out.
\<close>

end
